(* ===== verification/Prelude.thy ===== *)
theory Prelude
  imports Main "HOL-Library.State_Monad" "HOL-Library.AList" "HOL-Library.Sublist"
begin

text \<open>
  Shared vocabulary of the development.

  \<^item> Go's \<open>error\<close> values as a datatype, with the predicates the sources apply to them
    (\<open>apierrors.IsNotFound\<close>, \<open>apierrors.IsConflict\<close>), and Go's panics as one more
    constructor: a caller never handles a panic, it only passes it on.
  \<^item> Go's \<open>map[string]string\<close>, which may be nil, as an optional association list whose
    order is the (unspecified) iteration order.
  \<^item> A small program logic over \<open>HOL-Library.State_Monad\<close>: \<open>triple P m Q\<close> says that from
    a state satisfying \<open>P\<close> the program \<open>m\<close> ends with a result and a state satisfying \<open>Q\<close>;
    \<open>keeps I m\<close> is the special case of an invariant. The rules are collected in
    \<open>triple_rules\<close> and \<open>keeps_rules\<close>.
\<close>

named_theorems run_simps \<open>evaluation of monadic programs\<close>
named_theorems keeps_rules \<open>invariant preservation of program combinators\<close>
named_theorems triple_rules \<open>partial specifications of program combinators\<close>
named_theorems go_simps \<open>unfolding of Go run-time operations\<close>

section \<open>Errors and panics\<close>

datatype err =
    NotFound
  | Conflict
  | AlreadyExists
  | ErrNotWorker
  | Failure string
  | GoPanic string

definition IsNotFound :: "err \<Rightarrow> bool" where
  "IsNotFound e = (e = NotFound)"

definition IsConflict :: "err \<Rightarrow> bool" where
  "IsConflict e = (e = Conflict)"

definition is_panic :: "err \<Rightarrow> bool" where
  "is_panic e = (case e of GoPanic _ \<Rightarrow> True | _ \<Rightarrow> False)"

type_synonym 'a res = "err + 'a"

abbreviation Err :: "err \<Rightarrow> 'a res" where "Err \<equiv> Inl"
abbreviation Ok :: "'a \<Rightarrow> 'a res" where "Ok \<equiv> Inr"

definition is_ok :: "'a res \<Rightarrow> bool" where
  "is_ok r = (case r of Inl _ \<Rightarrow> False | Inr _ \<Rightarrow> True)"

lemma is_ok_simps [simp]: "is_ok (Inr x)" "\<not> is_ok (Inl e)"
  by (simp_all add: is_ok_def)

lemma is_okE: "is_ok r \<Longrightarrow> (\<And>x. r = Inr x \<Longrightarrow> P) \<Longrightarrow> P"
  by (cases r) auto

lemma err_classes [simp]:
  "IsNotFound NotFound" "\<not> IsNotFound Conflict" "\<not> IsNotFound AlreadyExists"
  "\<not> IsNotFound ErrNotWorker" "\<not> IsNotFound (Failure m)" "\<not> IsNotFound (GoPanic m)"
  "IsConflict Conflict" "\<not> IsConflict NotFound" "\<not> IsConflict AlreadyExists"
  "\<not> IsConflict ErrNotWorker" "\<not> IsConflict (Failure m)" "\<not> IsConflict (GoPanic m)"
  "is_panic (GoPanic m)" "\<not> is_panic NotFound" "\<not> is_panic Conflict"
  "\<not> is_panic AlreadyExists" "\<not> is_panic ErrNotWorker" "\<not> is_panic (Failure m)"
  by (simp_all add: IsNotFound_def IsConflict_def is_panic_def)

section \<open>Go maps\<close>

type_synonym gomap = "(string \<times> string) list option"

definition entries :: "gomap \<Rightarrow> (string \<times> string) list" where
  "entries m = (case m of None \<Rightarrow> [] | Some xs \<Rightarrow> xs)"

definition gm_lookup :: "gomap \<Rightarrow> string \<Rightarrow> string option" where
  "gm_lookup m k = map_of (entries m) k"

text \<open>\<open>m[k]\<close> as an expression: the zero value where the key is absent.\<close>

definition gm_get :: "gomap \<Rightarrow> string \<Rightarrow> string" where
  "gm_get m k = (case gm_lookup m k of None \<Rightarrow> '''' | Some v \<Rightarrow> v)"

text \<open>\<open>m[k] = v\<close> on a map that is not nil (the sources check or create it first).\<close>

definition gm_set :: "string \<Rightarrow> string \<Rightarrow> gomap \<Rightarrow> gomap" where
  "gm_set k v m = Some (AList.update k v (entries m))"

text \<open>\<open>delete(m, k)\<close>: a no-op on a nil map.\<close>

definition gm_delete :: "string \<Rightarrow> gomap \<Rightarrow> gomap" where
  "gm_delete k m = map_option (AList.delete k) m"

definition gm_len :: "gomap \<Rightarrow> nat" where
  "gm_len m = length (remdups (map fst (entries m)))"

text \<open>\<open>reflect.DeepEqual\<close> on maps: both nil or both not nil, and the same bindings.\<close>

definition gm_equal :: "gomap \<Rightarrow> gomap \<Rightarrow> bool" where
  "gm_equal m n =
     ((m = None) = (n = None) \<and>
      list_all (\<lambda>k. gm_lookup m k = gm_lookup n k) (map fst (entries m) @ map fst (entries n)))"

lemma gm_lookup_set [simp]:
  "gm_lookup (gm_set k v m) k' = (if k' = k then Some v else gm_lookup m k')"
  by (simp add: gm_lookup_def gm_set_def entries_def update_conv)

lemma gm_lookup_delete [simp]:
  "gm_lookup (gm_delete k m) k' = (if k' = k then None else gm_lookup m k')"
  by (cases m) (simp_all add: gm_lookup_def gm_delete_def entries_def delete_conv)

lemma gm_get_set [simp]: "gm_get (gm_set k v m) k' = (if k' = k then v else gm_get m k')"
  by (simp add: gm_get_def)

lemma gm_get_delete [simp]: "gm_get (gm_delete k m) k' = (if k' = k then '''' else gm_get m k')"
  by (simp add: gm_get_def)

lemma gm_set_neq_None [simp]: "gm_set k v m \<noteq> None"
  by (simp add: gm_set_def)

lemma gm_len_pos_iff: "0 < gm_len m \<longleftrightarrow> (\<exists>k. gm_lookup m k \<noteq> None)"
proof -
  have "0 < gm_len m \<longleftrightarrow> entries m \<noteq> []"
    by (simp add: gm_len_def)
  also have "\<dots> \<longleftrightarrow> (\<exists>k. gm_lookup m k \<noteq> None)"
    by (cases "entries m") (auto simp: gm_lookup_def)
  finally show ?thesis .
qed

lemma gm_equal_iff: "gm_equal m n \<longleftrightarrow> (m = None) = (n = None) \<and> gm_lookup m = gm_lookup n"
proof -
  have "gm_lookup m k = gm_lookup n k"
    if "k \<notin> fst ` set (entries m)" "k \<notin> fst ` set (entries n)" for k
    using that by (simp add: gm_lookup_def map_of_eq_None_iff [THEN iffD2])
  then show ?thesis
    by (auto simp: gm_equal_def list_all_iff fun_eq_iff)
qed

section \<open>Programs over a state\<close>

lemma run_bind [run_simps, simp]:
  "run_state (State_Monad.bind m f) s = (case run_state m s of (a, s') \<Rightarrow> run_state (f a) s')"
  by (simp add: State_Monad.bind_def)

lemma run_return [run_simps, simp]: "run_state (State_Monad.return a) s = (a, s)"
  by (simp add: State_Monad.return_def)

lemma run_get [run_simps, simp]: "run_state State_Monad.get s = (s, s)"
  by (simp add: State_Monad.get_def)

lemma run_set [run_simps, simp]: "run_state (State_Monad.set t) s = ((), t)"
  by (simp add: State_Monad.set_def)

lemma run_update [run_simps, simp]: "run_state (State_Monad.update f) s = ((), f s)"
  by (simp add: State_Monad.update_def State_Monad.bind_def State_Monad.get_def
      State_Monad.set_def)

definition gets :: "('s \<Rightarrow> 'a) \<Rightarrow> ('s, 'a) state" where
  "gets f = State (\<lambda>s. (f s, s))"

lemma run_gets [run_simps, simp]: "run_state (gets f) s = (f s, s)"
  by (simp add: gets_def)

subsection \<open>Specifications\<close>

definition triple :: "('s \<Rightarrow> bool) \<Rightarrow> ('s, 'a) state \<Rightarrow> ('a \<Rightarrow> 's \<Rightarrow> bool) \<Rightarrow> bool" where
  "triple P m Q \<longleftrightarrow> (\<forall>s. P s \<longrightarrow> (case run_state m s of (a, s') \<Rightarrow> Q a s'))"

definition keeps :: "('s \<Rightarrow> bool) \<Rightarrow> ('s, 'a) state \<Rightarrow> bool" where
  "keeps I m \<longleftrightarrow> triple I m (\<lambda>_. I)"

lemma tripleI: "(\<And>s a s'. P s \<Longrightarrow> run_state m s = (a, s') \<Longrightarrow> Q a s') \<Longrightarrow> triple P m Q"
  by (auto simp: triple_def split: prod.splits)

lemma tripleD: "triple P m Q \<Longrightarrow> P s \<Longrightarrow> run_state m s = (a, s') \<Longrightarrow> Q a s'"
  by (auto simp: triple_def split: prod.splits)

lemma keepsI: "(\<And>s a s'. I s \<Longrightarrow> run_state m s = (a, s') \<Longrightarrow> I s') \<Longrightarrow> keeps I m"
  by (simp add: keeps_def tripleI)

lemma keepsD: "keeps I m \<Longrightarrow> I s \<Longrightarrow> run_state m s = (a, s') \<Longrightarrow> I s'"
  by (auto simp: keeps_def dest: tripleD)

lemma triple_bind [triple_rules]:
  "triple P m R \<Longrightarrow> (\<And>a. triple (R a) (f a) Q) \<Longrightarrow> triple P (State_Monad.bind m f) Q"
  by (fastforce simp: triple_def split: prod.splits)

lemma triple_return [triple_rules]: "(\<And>s. P s \<Longrightarrow> Q a s) \<Longrightarrow> triple P (State_Monad.return a) Q"
  by (simp add: triple_def)

lemma triple_weaken: "triple P m Q \<Longrightarrow> (\<And>s. P' s \<Longrightarrow> P s) \<Longrightarrow> (\<And>a s. Q a s \<Longrightarrow> Q' a s) \<Longrightarrow> triple P' m Q'"
  by (fastforce simp: triple_def split: prod.splits)

lemma keeps_bind [keeps_rules]:
  "keeps I m \<Longrightarrow> (\<And>a. keeps I (f a)) \<Longrightarrow> keeps I (State_Monad.bind m f)"
  unfolding keeps_def by (rule triple_bind)

lemma keeps_return [keeps_rules]: "keeps I (State_Monad.return a)"
  by (simp add: keeps_def triple_def)

lemma keeps_get [keeps_rules]: "keeps I State_Monad.get"
  by (simp add: keeps_def triple_def)

lemma keeps_gets [keeps_rules]: "keeps I (gets f)"
  by (simp add: keeps_def triple_def)

lemma keeps_update: "(\<And>s. I s \<Longrightarrow> I (f s)) \<Longrightarrow> keeps I (State_Monad.update f)"
  by (simp add: keeps_def triple_def)

lemma keeps_if [keeps_rules]:
  "(b \<Longrightarrow> keeps I m) \<Longrightarrow> (\<not> b \<Longrightarrow> keeps I n) \<Longrightarrow> keeps I (if b then m else n)"
  by simp

lemma keeps_case_sum [keeps_rules]:
  "(\<And>e. r = Inl e \<Longrightarrow> keeps I (f e)) \<Longrightarrow> (\<And>x. r = Inr x \<Longrightarrow> keeps I (g x)) \<Longrightarrow>
   keeps I (case r of Inl e \<Rightarrow> f e | Inr x \<Rightarrow> g x)"
  by (cases r) simp_all

lemma keeps_case_option [keeps_rules]:
  "(r = None \<Longrightarrow> keeps I m) \<Longrightarrow> (\<And>x. r = Some x \<Longrightarrow> keeps I (g x)) \<Longrightarrow>
   keeps I (case r of None \<Rightarrow> m | Some x \<Rightarrow> g x)"
  by (cases r) simp_all

lemma keeps_case_prod [keeps_rules]:
  "(\<And>x y. p = (x, y) \<Longrightarrow> keeps I (f x y)) \<Longrightarrow> keeps I (case p of (x, y) \<Rightarrow> f x y)"
  by (cases p) simp

lemma keeps_let [keeps_rules]: "keeps I (f x) \<Longrightarrow> keeps I (Let x f)"
  by simp

subsection \<open>Loops over a slice\<close>

text \<open>\<open>for _, x := range xs\<close> with a body that neither breaks nor returns.\<close>

fun for_each :: "('x \<Rightarrow> ('s, unit) state) \<Rightarrow> 'x list \<Rightarrow> ('s, unit) state" where
  "for_each body [] = State_Monad.return ()"
| "for_each body (x # xs) = State_Monad.bind (body x) (\<lambda>_. for_each body xs)"

lemma keeps_for_each [keeps_rules]:
  "(\<And>x. x \<in> set xs \<Longrightarrow> keeps I (body x)) \<Longrightarrow> keeps I (for_each body xs)"
  by (induction xs) (auto intro: keeps_rules)

lemma run_for_each_append:
  "run_state (for_each body (xs @ ys)) s =
     run_state (for_each body ys) (snd (run_state (for_each body xs) s))"
  by (induction xs arbitrary: s) (simp_all split: prod.splits)

subsection \<open>Early return\<close>

text \<open>
  \<open>x, err := m; if err != nil { return err }\<close>, and a loop whose body may leave the
  enclosing function with an error (or a panic).
\<close>

definition bindE :: "('s, 'a res) state \<Rightarrow> ('a \<Rightarrow> ('s, 'b res) state) \<Rightarrow> ('s, 'b res) state" where
  "bindE m f = State_Monad.bind m (\<lambda>r. case r of
      Inl e \<Rightarrow> State_Monad.return (Err e)
    | Inr x \<Rightarrow> f x)"

lemma run_bindE [run_simps, simp]:
  "run_state (bindE m f) s =
     (case run_state m s of
        (Inl e, s') \<Rightarrow> (Err e, s')
      | (Inr x, s') \<Rightarrow> run_state (f x) s')"
  by (simp add: bindE_def split: prod.splits sum.splits)

lemma keeps_bindE [keeps_rules]:
  "keeps I m \<Longrightarrow> (\<And>a. keeps I (f a)) \<Longrightarrow> keeps I (bindE m f)"
  unfolding bindE_def by (intro keeps_rules)

fun for_eachE :: "('x \<Rightarrow> ('s, unit res) state) \<Rightarrow> 'x list \<Rightarrow> ('s, unit res) state" where
  "for_eachE body [] = State_Monad.return (Ok ())"
| "for_eachE body (x # xs) = bindE (body x) (\<lambda>_. for_eachE body xs)"

lemma keeps_for_eachE [keeps_rules]:
  "(\<And>x. x \<in> set xs \<Longrightarrow> keeps I (body x)) \<Longrightarrow> keeps I (for_eachE body xs)"
  by (induction xs) (auto intro: keeps_rules)

lemma run_for_eachE_append:
  "run_state (for_eachE body (xs @ ys)) s =
     (case run_state (for_eachE body xs) s of
        (Inl e, t) \<Rightarrow> (Err e, t)
      | (Inr _, t) \<Rightarrow> run_state (for_eachE body ys) t)"
  by (induction xs arbitrary: s) (auto split: prod.splits sum.splits)

subsection \<open>Retry on conflict\<close>

text \<open>
  \<open>retry.RetryOnConflict(backoff, fn)\<close> of client-go, with \<open>wait.ExponentialBackoff\<close>
  inlined: \<open>fn\<close> runs at most \<open>steps\<close> times; success or an error that is no conflict ends
  the loop at once, and when the steps are used up the last conflict is returned. The
  waits between the tries do not change the state. With no step at all the loop body
  never runs and \<open>lastErr\<close>, nil, is returned.
\<close>

fun RetryOnConflict :: "nat \<Rightarrow> ('s, 'a res) state \<Rightarrow> 'a \<Rightarrow> ('s, 'a res) state" where
  "RetryOnConflict 0 fn z = State_Monad.return (Ok z)"
| "RetryOnConflict (Suc n) fn z =
     State_Monad.bind fn (\<lambda>r. case r of
        Inr x \<Rightarrow> State_Monad.return (Ok x)
      | Inl e \<Rightarrow> (if IsConflict e \<and> n \<noteq> 0 then RetryOnConflict n fn z
                 else State_Monad.return (Err e)))"

definition DefaultRetry :: nat where "DefaultRetry = 5"
definition DefaultBackoff :: nat where "DefaultBackoff = 4"

lemma keeps_RetryOnConflict [keeps_rules]: "keeps I fn \<Longrightarrow> keeps I (RetryOnConflict n fn z)"
proof (induction n)
  case 0
  then show ?case by (simp add: keeps_return)
next
  case (Suc n)
  then show ?case by (auto intro!: keeps_rules)
qed

lemma RetryOnConflict_post:
  assumes "keeps I fn"
    and "\<And>s r s'. I s \<Longrightarrow> run_state fn s = (Inr r, s') \<Longrightarrow> Q r s'"
    and "0 < n" "I s" "run_state (RetryOnConflict n fn z) s = (Inr r, s')"
  shows "Q r s'"
  using assms(3-)
proof (induction n arbitrary: s)
  case 0
  then show ?case by simp
next
  case (Suc n)
  obtain r0 s0 where r0: "run_state fn s = (r0, s0)" by fastforce
  have "I s0" using keepsD [OF assms(1) Suc.prems(2) r0] .
  then show ?case
    using Suc.prems r0 Suc.IH [of s0] assms(2) [OF Suc.prems(2)]
    by (auto split: sum.splits if_splits)
qed

section \<open>Machines that come to rest\<close>

text \<open>
  A step relation that keeps an invariant and decreases a rank: no run is longer than the
  rank of its first state, and every state leads to one in which nothing moves any more.
\<close>

locale ranked_steps =
  fixes step :: "'s \<Rightarrow> 's \<Rightarrow> bool" and ok :: "'s \<Rightarrow> bool" and rank :: "'s \<Rightarrow> nat"
  assumes ok_step: "step s t \<Longrightarrow> ok s \<Longrightarrow> ok t"
    and rank_step: "step s t \<Longrightarrow> ok s \<Longrightarrow> rank t < rank s"
begin

lemma run_bounded: "(step ^^ n) s t \<Longrightarrow> ok s \<Longrightarrow> rank t + n \<le> rank s \<and> ok t"
proof (induction n arbitrary: t)
  case (Suc n)
  then obtain u where u: "(step ^^ n) s u" "step u t" by auto
  with Suc have "rank u + n \<le> rank s" "ok u" by blast+
  with rank_step [OF u(2)] ok_step [OF u(2)] show ?case by simp
qed simp

lemma comes_to_rest: "ok s \<Longrightarrow> \<exists>t. step\<^sup>*\<^sup>* s t \<and> ok t \<and> (\<nexists>u. step t u)"
proof (induction "rank s" arbitrary: s rule: less_induct)
  case less
  show ?case
  proof (cases "\<exists>t. step s t")
    case True
    then obtain t where t: "step s t" by blast
    with less.hyps [OF rank_step [OF t less.prems] ok_step [OF t less.prems]] show ?thesis
      by (meson converse_rtranclp_into_rtranclp)
  qed (use less.prems in blast)
qed

end

end
