(* ===== verification/GoStrings.thy ===== *)
theory GoStrings
  imports Prelude
begin

text \<open>
  The parts of Go's \<open>strings\<close>, \<open>strconv\<close> and \<open>fmt\<close> packages that the sources use, on
  strings as lists of bytes, with the laws the components rely on: splitting undoes
  joining, and parsing undoes printing within the range of a signed 32-bit integer.
\<close>

section \<open>Package strings\<close>

definition HasPrefix :: "string \<Rightarrow> string \<Rightarrow> bool" where
  "HasPrefix s p = prefix p s"

definition HasSuffix :: "string \<Rightarrow> string \<Rightarrow> bool" where
  "HasSuffix s p = suffix p s"

definition Contains :: "string \<Rightarrow> string \<Rightarrow> bool" where
  "Contains s sub = sublist sub s"

text \<open>
  \<open>strings.Split\<close> with a separator that is not empty (the only use): the leftmost
  occurrences that do not overlap.
\<close>

function split_from :: "string \<Rightarrow> string \<Rightarrow> string \<Rightarrow> string list" where
  "split_from sep acc [] = [rev acc]"
| "split_from sep acc (c # cs) =
     (if sep \<noteq> [] \<and> prefix sep (c # cs)
      then rev acc # split_from sep [] (drop (length sep) (c # cs))
      else split_from sep (c # acc) cs)"
  by pat_completeness auto
termination
  by (relation "measure (\<lambda>(sep, acc, s). length s)") auto

declare split_from.simps(2) [simp del]

definition Split :: "string \<Rightarrow> string \<Rightarrow> string list" where
  "Split s sep = split_from sep [] s"

fun Join :: "string list \<Rightarrow> string \<Rightarrow> string" where
  "Join [] sep = ''''"
| "Join [x] sep = x"
| "Join (x # y # xs) sep = x @ sep @ Join (y # xs) sep"

text \<open>\<open>unicode.IsSpace\<close> on ASCII: tab, newline, vertical tab, form feed, return, space.\<close>

definition is_space :: "char \<Rightarrow> bool" where
  "is_space c = (of_char c \<in> {9, 10, 11, 12, 13, 32 :: nat})"

definition TrimSpace :: "string \<Rightarrow> string" where
  "TrimSpace s = rev (dropWhile is_space (rev (dropWhile is_space s)))"

subsection \<open>Splitting at a single character\<close>

lemma split_from_single:
  "c \<notin> set a \<Longrightarrow> split_from [c] acc (a @ c # rest) = (rev acc @ a) # split_from [c] [] rest"
  by (induction a arbitrary: acc) (simp_all add: split_from.simps)

lemma split_from_single_end: "c \<notin> set a \<Longrightarrow> split_from [c] acc a = [rev acc @ a]"
  by (induction a arbitrary: acc) (simp_all add: split_from.simps)

lemma Split_single [simp]: "c \<notin> set a \<Longrightarrow> Split (a @ c # rest) [c] = a # Split rest [c]"
  by (simp add: Split_def split_from_single)

lemma Split_single_end [simp]: "c \<notin> set a \<Longrightarrow> Split a [c] = [a]"
  by (simp add: Split_def split_from_single_end)

lemma Split_Join:
  "xs \<noteq> [] \<Longrightarrow> \<forall>x \<in> set xs. c \<notin> set x \<Longrightarrow> Split (Join xs [c]) [c] = xs"
  by (induction xs "[c]" rule: Join.induct) simp_all

subsection \<open>Splitting at a double slash\<close>

text \<open>
  A part is found again only when it holds no double slash and does not end in a slash:
  a final slash would merge with the separator.
\<close>

definition segment_ok :: "string \<Rightarrow> bool" where
  "segment_ok a = (\<not> Contains a ''//'' \<and> \<not> HasSuffix a ''/'')"

lemma Contains_Cons_D: "\<not> Contains (c # a) ''//'' \<Longrightarrow> \<not> Contains a ''//''"
  by (auto simp: Contains_def sublist_Cons_right)

lemma segment_ok_Cons:
  "segment_ok (c # a) \<Longrightarrow> (a = [] \<and> c \<noteq> CHR ''/'') \<or> (a \<noteq> [] \<and> segment_ok a)"
  by (auto simp: segment_ok_def HasSuffix_def suffix_Cons dest: Contains_Cons_D)

lemma segment_ok_no_prefix:
  assumes "segment_ok (c # a)"
  shows "\<not> prefix ''//'' (c # a @ ''//'' @ rest)"
proof (cases a)
  case Nil
  with assms segment_ok_Cons [OF assms] show ?thesis by auto
next
  case (Cons d a')
  with assms show ?thesis
    by (auto simp: segment_ok_def Contains_def sublist_Cons_right)
qed

lemma split_from_double:
  "segment_ok a \<Longrightarrow>
   split_from ''//'' acc (a @ ''//'' @ rest) = (rev acc @ a) # split_from ''//'' [] rest"
proof (induction a arbitrary: acc)
  case Nil
  then show ?case by (simp add: split_from.simps)
next
  case (Cons c a)
  note np = segment_ok_no_prefix [OF Cons.prems, of rest]
  from segment_ok_Cons [OF Cons.prems] show ?case
  proof
    assume "a = [] \<and> c \<noteq> CHR ''/''"
    with np show ?thesis by (simp add: split_from.simps)
  next
    assume "a \<noteq> [] \<and> segment_ok a"
    with np Cons.IH [of "c # acc"] show ?thesis by (simp add: split_from.simps)
  qed
qed

lemma split_from_double_end:
  "\<not> Contains a ''//'' \<Longrightarrow> split_from ''//'' acc a = [rev acc @ a]"
proof (induction a arbitrary: acc)
  case Nil
  then show ?case by simp
next
  case (Cons c a)
  have "\<not> prefix ''//'' (c # a)"
    using Cons.prems by (auto simp: Contains_def sublist_Cons_right)
  with Cons.IH [OF Contains_Cons_D [OF Cons.prems], of "c # acc"] show ?case
    by (simp add: split_from.simps)
qed

lemma Split_double: "segment_ok a \<Longrightarrow> Split (a @ ''//'' @ rest) ''//'' = a # Split rest ''//''"
  using split_from_double [of a "[]" rest] by (simp add: Split_def)

lemma Split_double_end: "\<not> Contains a ''//'' \<Longrightarrow> Split a ''//'' = [a]"
  using split_from_double_end [of a "[]"] by (simp add: Split_def)

section \<open>Packages fmt and strconv\<close>

definition digit_char :: "nat \<Rightarrow> char" where
  "digit_char d = char_of (48 + d)"

definition is_digit :: "char \<Rightarrow> bool" where
  "is_digit c = (48 \<le> (of_char c :: nat) \<and> (of_char c :: nat) \<le> 57)"

definition digit_val :: "char \<Rightarrow> nat" where
  "digit_val c = of_char c - 48"

fun string_of_nat :: "nat \<Rightarrow> string" where
  "string_of_nat n =
     (if n < 10 then [digit_char n] else string_of_nat (n div 10) @ [digit_char (n mod 10)])"

declare string_of_nat.simps [simp del]

text \<open>The same with a structural recursion, for evaluation by rewriting.\<close>

fun digits_fuel :: "nat \<Rightarrow> nat \<Rightarrow> string" where
  "digits_fuel 0 n = []"
| "digits_fuel (Suc k) n =
     (if n < 10 then [digit_char n] else digits_fuel k (n div 10) @ [digit_char (n mod 10)])"

lemma digits_fuel_enough: "n \<le> k \<Longrightarrow> digits_fuel (Suc k) n = string_of_nat n"
proof (induction k arbitrary: n)
  case (Suc k)
  then have "10 \<le> n \<Longrightarrow> digits_fuel (Suc k) (n div 10) = string_of_nat (n div 10)"
    by (intro Suc.IH) linarith
  then show ?case by (simp add: string_of_nat.simps [of n] del: digits_fuel.simps(2))
      (simp add: string_of_nat.simps [of n])
qed (simp add: string_of_nat.simps)

lemma string_of_nat_code [code]: "string_of_nat n = digits_fuel (Suc n) n"
  by (simp only: digits_fuel_enough)

text \<open>\<open>fmt.Sprint\<close> and the verb \<open>%d\<close> on an integer; \<open>fmt.Sprint\<close> on a bool.\<close>

definition Sprint_int :: "int \<Rightarrow> string" where
  "Sprint_int n = (if n < 0 then CHR ''-'' # string_of_nat (nat (- n)) else string_of_nat (nat n))"

definition Sprint_bool :: "bool \<Rightarrow> string" where
  "Sprint_bool b = (if b then ''true'' else ''false'')"

datatype num_error = ErrSyntax | ErrRange

definition maxUint32 :: nat where "maxUint32 = 2 ^ 32 - 1"

text \<open>
  \<open>strconv.ParseUint(s, 10, 32)\<close>: the first offending character decides, so a range error
  may come before a later character that is no digit.
\<close>

fun ParseUint_loop :: "nat \<Rightarrow> string \<Rightarrow> nat \<times> num_error option" where
  "ParseUint_loop n [] = (n, None)"
| "ParseUint_loop n (c # cs) =
     (if is_digit c
      then (let n1 = n * 10 + digit_val c
            in if n1 > maxUint32 then (maxUint32, Some ErrRange) else ParseUint_loop n1 cs)
      else (0, Some ErrSyntax))"

definition ParseUint :: "string \<Rightarrow> nat \<times> num_error option" where
  "ParseUint s = (if s = [] then (0, Some ErrSyntax) else ParseUint_loop 0 s)"

text \<open>\<open>strconv.ParseInt(s, 10, 32)\<close>: the value is also returned with a range error.\<close>

definition ParseInt :: "string \<Rightarrow> int \<times> num_error option" where
  "ParseInt s =
     (case s of
        [] \<Rightarrow> (0, Some ErrSyntax)
      | c # cs \<Rightarrow>
          (let neg = (c = CHR ''-'');
               digits = (if c = CHR ''+'' \<or> c = CHR ''-'' then cs else s)
           in case ParseUint digits of
                (_, Some ErrSyntax) \<Rightarrow> (0, Some ErrSyntax)
              | (un, _) \<Rightarrow>
                  if \<not> neg \<and> un \<ge> 2 ^ 31 then (2 ^ 31 - 1, Some ErrRange)
                  else if neg \<and> un > 2 ^ 31 then (- (2 ^ 31), Some ErrRange)
                  else (if neg then - int un else int un, None)))"

subsection \<open>Parsing undoes printing\<close>

lemma of_char_digit [simp]: "d < 10 \<Longrightarrow> (of_char (digit_char d) :: nat) = 48 + d"
  by (simp add: digit_char_def)

lemma digit_char_props [simp]:
  assumes "d < 10"
  shows "is_digit (digit_char d)" and "digit_val (digit_char d) = d"
  using assms by (simp_all add: is_digit_def digit_val_def)

lemma digits_of_string_of_nat: "c \<in> set (string_of_nat n) \<Longrightarrow> is_digit c"
proof (induction n rule: string_of_nat.induct)
  case (1 n)
  then show ?case
    by (auto simp: string_of_nat.simps [of n] split: if_splits)
qed

lemma string_of_nat_nonempty [simp]: "string_of_nat n \<noteq> []"
  by (subst string_of_nat.simps) simp

lemma ParseUint_loop_append:
  "ParseUint_loop n (xs @ ys) =
     (case ParseUint_loop n xs of (m, None) \<Rightarrow> ParseUint_loop m ys | r \<Rightarrow> r)"
  by (induction xs arbitrary: n) (auto simp: Let_def)

lemma ParseUint_loop_string_of_nat:
  "n \<le> maxUint32 \<Longrightarrow> ParseUint_loop 0 (string_of_nat n) = (n, None)"
proof (induction n rule: string_of_nat.induct)
  case (1 n)
  show ?case
  proof (cases "n < 10")
    case True
    with "1.prems" show ?thesis by (simp add: string_of_nat.simps [of n])
  next
    case False
    with 1 have "ParseUint_loop 0 (string_of_nat (n div 10)) = (n div 10, None)"
      by simp
    with False "1.prems" show ?thesis
      by (simp add: string_of_nat.simps [of n] ParseUint_loop_append)
  qed
qed

lemma ParseUint_string_of_nat: "n \<le> maxUint32 \<Longrightarrow> ParseUint (string_of_nat n) = (n, None)"
  by (simp add: ParseUint_def ParseUint_loop_string_of_nat)

lemma hd_string_of_nat: "string_of_nat n = c # cs \<Longrightarrow> c \<noteq> CHR ''+'' \<and> c \<noteq> CHR ''-''"
  using digits_of_string_of_nat [of c n] by (auto simp: is_digit_def)

lemma ParseInt_Sprint_nonneg:
  assumes "0 \<le> n" and "nat n \<le> maxUint32"
  shows "ParseInt (Sprint_int n) =
    (if 2 ^ 31 \<le> n then (2 ^ 31 - 1, Some ErrRange) else (n, None))"
proof -
  obtain c cs where s: "string_of_nat (nat n) = c # cs"
    using string_of_nat_nonempty [of "nat n"] by (cases "string_of_nat (nat n)") auto
  have "ParseUint (c # cs) = (nat n, None)"
    using ParseUint_string_of_nat [of "nat n"] assms s by simp
  with assms hd_string_of_nat [OF s] s show ?thesis
    by (simp add: Sprint_int_def ParseInt_def Let_def le_nat_iff)
qed

lemma ParseInt_Sprint_int:
  assumes "- (2 ^ 31) \<le> n" and "n < 2 ^ 31"
  shows "ParseInt (Sprint_int n) = (n, None)"
proof (cases "n < 0")
  case True
  with assms show ?thesis
    by (simp add: Sprint_int_def ParseInt_def Let_def ParseUint_string_of_nat maxUint32_def)
next
  case False
  with assms show ?thesis
    by (simp add: ParseInt_Sprint_nonneg maxUint32_def)
qed

lemma ParseInt_range: "ParseInt s = (n, None) \<Longrightarrow> - (2 ^ 31) \<le> n \<and> n < 2 ^ 31"
  by (auto simp: ParseInt_def Let_def split: list.splits if_splits option.splits prod.splits
      num_error.splits)

text \<open>Printing one past the range: the text no longer parses.\<close>

lemma ParseInt_Sprint_overflow: "ParseInt (Sprint_int (2 ^ 31)) = (2 ^ 31 - 1, Some ErrRange)"
  by (subst ParseInt_Sprint_nonneg) (simp_all add: maxUint32_def)

end
