(* ===== verification/Api_Types.thy ===== *)
theory Api_Types
  imports GoStrings
begin

text \<open>
  The data of the operator: the fields of the Kubernetes objects that the code reads or
  writes, the CloudShell resource of \<open>pkg/apis/cloudshell/v1alpha1/types.go\<close> with its
  defaulting (\<open>defaults.go\<close>), the constants of \<open>pkg/constants\<close>, and the helpers of
  controller-runtime on finalizers and owner references.

  Times are nanoseconds since the epoch; a nil or zero time is \<open>None\<close> where the code tests
  for it. Pointer fields are options.
\<close>

section \<open>Object metadata\<close>

record owner_ref =
  APIVersion :: string
  Kind :: string
  RefName :: string
  RefUID :: string
  BlockOwnerDeletion :: bool
  IsController :: bool

record object_meta =
  Name :: string
  GenerateName :: string
  Namespace :: string
  UID :: string
  ResourceVersion :: nat
  Labels :: gomap
  Annotations :: gomap
  Finalizers :: "string list"
  OwnerReferences :: "owner_ref list"
  DeletionTimestamp :: "int option"
  CreationTimestamp :: int

type_synonym nsname = "string \<times> string"

definition blank_meta :: "string \<Rightarrow> string \<Rightarrow> object_meta" where
  "blank_meta ns name =
     \<lparr>Name = name, GenerateName = '''', Namespace = ns, UID = '''', ResourceVersion = 0,
      Labels = None, Annotations = None, Finalizers = [], OwnerReferences = [],
      DeletionTimestamp = None, CreationTimestamp = 0\<rparr>"

definition nsname_of :: "object_meta \<Rightarrow> nsname" where
  "nsname_of m = (Namespace m, Name m)"

lemma nsname_of_blank [simp]: "nsname_of (blank_meta ns name) = (ns, name)"
  by (simp add: nsname_of_def blank_meta_def)

section \<open>Kubernetes objects\<close>

record container =
  CName :: string
  CImage :: string

record pod_condition =
  CondType :: string
  CondStatus :: string
  LastTransitionTime :: "int option"

record pod =
  pmeta :: object_meta
  Containers :: "container list"
  Conditions :: "pod_condition list"

record service_port =
  Port :: int
  NodePort :: int

record service =
  smeta :: object_meta
  Ports :: "service_port list"
  Selector :: gomap
  ServiceType :: string

record ingress_path =
  Path :: string
  PathType :: string
  BackendService :: string
  BackendPort :: int

text \<open>A rule whose \<open>HTTP\<close> is nil has \<open>HTTPPaths = None\<close>.\<close>

record ingress_rule =
  RuleHost :: string
  HTTPPaths :: "ingress_path list option"

record ingress =
  imeta :: object_meta
  IngressClass :: string
  Rules :: "ingress_rule list"

datatype string_match = MatchPrefix string | MatchExact string | MatchRegex string

text \<open>One entry of \<open>Match\<close>; its \<open>Uri\<close> may be nil.\<close>

type_synonym http_match = "string_match option"

record http_route =
  Match :: "http_match list"
  RouteHosts :: "string list"

record virtual_service =
  vmeta :: object_meta
  ExportToList :: "string list"
  Gateways :: "string list"
  Http :: "http_route list"

record secret =
  secmeta :: object_meta
  SecretData :: gomap

record node =
  NodeConditions :: "(string \<times> string) list"
  NodeAddresses :: "(string \<times> string) list"

section \<open>The CloudShell resource\<close>

definition ExposureServiceClusterIP :: string where "ExposureServiceClusterIP = ''ClusterIP''"
definition ExposureServiceNodePort :: string where "ExposureServiceNodePort = ''NodePort''"
definition ExposureIngress :: string where "ExposureIngress = ''Ingress''"
definition ExposureVirtualService :: string where "ExposureVirtualService = ''VirtualService''"

definition PhaseReady :: string where "PhaseReady = ''Ready''"
definition PhaseCompleted :: string where "PhaseCompleted = ''Complete''"
definition PhaseFailed :: string where "PhaseFailed = ''Failed''"

lemmas exposure_modes = ExposureServiceClusterIP_def ExposureServiceNodePort_def
  ExposureIngress_def ExposureVirtualService_def
lemmas phases = PhaseReady_def PhaseCompleted_def PhaseFailed_def

record env_var =
  EnvName :: string
  EnvValue :: string

record VirtualServiceConfig =
  VirtualServiceName :: string
  VsNamespace :: string
  ExportTo :: string
  Gateway :: string

record IngressConfig =
  IngressName :: string
  IngNamespace :: string
  IngressClassName :: string
  IngAnnotations :: gomap
  Host :: string

record ResourceSetting =
  Limits :: gomap
  Requests :: gomap

record CloudShellSpec =
  SecretRef :: "string option"
  Image :: string
  Once :: bool
  CommandAction :: string
  TTLSecondsAfterStarted :: "int option"
  Cleanup :: bool
  ExposeMode :: string
  IngConfig :: "IngressConfig option"
  VsConfig :: "VirtualServiceConfig option"
  PathPrefix :: string
  PathSuffix :: string
  UrlArg :: bool
  Env :: "env_var list"
  TtydClientOptions :: gomap

record CloudShellStatus =
  Phase :: string
  AccessURL :: string
  LastScheduleTime :: "int option"

record CloudShell =
  cmeta :: object_meta
  Spec :: CloudShellSpec
  Status :: CloudShellStatus

section \<open>Objects as interface values\<close>

text \<open>
  What an informer hands to an event handler as \<open>interface{}\<close>: an object, or
  \<open>cache.DeletedFinalStateUnknown\<close> around the last known object when the deletion itself
  was missed.
\<close>

datatype obj = ObjPod pod | ObjCloudShell CloudShell | DeletedFinalStateUnknown string obj | ObjNil

section \<open>Constants\<close>

definition DefaultPathPrefix :: string where
  "DefaultPathPrefix = ''/apis/v1alpha1/cloudshell''"
definition DefaultIngressName :: string where
  "DefaultIngressName = ''cloudshell-ingress''"
definition DefaultVirtualServiceName :: string where
  "DefaultVirtualServiceName = ''cloudshell-virtualService''"
definition DefaultTtydImage :: string where
  "DefaultTtydImage = ''ghcr.io/cloudtty/cloudshell:v0.8.10''"
definition CloudshellPodLabelKey :: string where
  "CloudshellPodLabelKey = ''cloudshell.cloudtty.io/pod-name''"
definition WorkerOwnerLabelKey :: string where
  "WorkerOwnerLabelKey = ''worker.cloudtty.io/owner-name''"
definition WorkerRequestLabelKey :: string where
  "WorkerRequestLabelKey = ''worker.cloudtty.io/request''"
definition WorkerBindingCountLabelKey :: string where
  "WorkerBindingCountLabelKey = ''worker.cloudtty.io/binding-count''"
definition WorkerNameLabelKey :: string where
  "WorkerNameLabelKey = ''worker.cloudtty.io/name''"

lemmas label_keys = WorkerOwnerLabelKey_def WorkerRequestLabelKey_def
  WorkerBindingCountLabelKey_def WorkerNameLabelKey_def CloudshellPodLabelKey_def

lemma label_keys_distinct [simp]:
  "WorkerOwnerLabelKey \<noteq> WorkerRequestLabelKey" "WorkerRequestLabelKey \<noteq> WorkerOwnerLabelKey"
  "WorkerOwnerLabelKey \<noteq> WorkerBindingCountLabelKey" "WorkerBindingCountLabelKey \<noteq> WorkerOwnerLabelKey"
  "WorkerRequestLabelKey \<noteq> WorkerBindingCountLabelKey" "WorkerBindingCountLabelKey \<noteq> WorkerRequestLabelKey"
  "WorkerNameLabelKey \<noteq> WorkerOwnerLabelKey" "WorkerOwnerLabelKey \<noteq> WorkerNameLabelKey"
  "WorkerNameLabelKey \<noteq> WorkerRequestLabelKey" "WorkerRequestLabelKey \<noteq> WorkerNameLabelKey"
  "WorkerNameLabelKey \<noteq> WorkerBindingCountLabelKey" "WorkerBindingCountLabelKey \<noteq> WorkerNameLabelKey"
  by (simp_all add: label_keys)

section \<open>Defaulting\<close>

definition setDefaultsCloudShell :: "CloudShell \<Rightarrow> CloudShell" where
  "setDefaultsCloudShell obj =
     (let s0 = Spec obj;
          s1 = (if length (CommandAction s0) = 0 then s0\<lparr>CommandAction := ''bash''\<rparr> else s0);
          s2 = (if length (ExposeMode s1) = 0 then s1\<lparr>ExposeMode := ExposureServiceNodePort\<rparr> else s1);
          s3 = (if length (Image s2) = 0 then s2\<lparr>Image := DefaultTtydImage\<rparr> else s2)
      in obj\<lparr>Spec := s3\<rparr>)"

text \<open>\<open>scheme.Default\<close> runs the one defaulting function registered for the type.\<close>

definition SetObjectDefaultsCloudShell :: "CloudShell \<Rightarrow> CloudShell" where
  "SetObjectDefaultsCloudShell obj = setDefaultsCloudShell obj"

text \<open>
  \<open>reflect.DeepEqual\<close> on two specs: equality of the fields, maps compared by their
  bindings.
\<close>

definition opt_equal :: "('a \<Rightarrow> 'a \<Rightarrow> bool) \<Rightarrow> 'a option \<Rightarrow> 'a option \<Rightarrow> bool" where
  "opt_equal eq x y =
     (case (x, y) of (None, None) \<Rightarrow> True | (Some a, Some b) \<Rightarrow> eq a b | _ \<Rightarrow> False)"

definition ingress_config_equal :: "IngressConfig \<Rightarrow> IngressConfig \<Rightarrow> bool" where
  "ingress_config_equal a b =
     (a\<lparr>IngAnnotations := None\<rparr> = b\<lparr>IngAnnotations := None\<rparr> \<and>
      gm_equal (IngAnnotations a) (IngAnnotations b))"

definition spec_DeepEqual :: "CloudShellSpec \<Rightarrow> CloudShellSpec \<Rightarrow> bool" where
  "spec_DeepEqual a b =
     (a\<lparr>IngConfig := None, TtydClientOptions := None\<rparr> =
        b\<lparr>IngConfig := None, TtydClientOptions := None\<rparr> \<and>
      opt_equal ingress_config_equal (IngConfig a) (IngConfig b) \<and>
      gm_equal (TtydClientOptions a) (TtydClientOptions b))"

lemma gm_equal_refl [simp]: "gm_equal m m"
  by (simp add: gm_equal_iff)

lemma spec_DeepEqual_refl [simp]: "spec_DeepEqual s s"
  by (simp add: spec_DeepEqual_def opt_equal_def ingress_config_equal_def split: option.split)

lemma spec_DeepEqual_fields:
  assumes "spec_DeepEqual a b"
  shows "Image a = Image b" "CommandAction a = CommandAction b" "ExposeMode a = ExposeMode b"
    "SecretRef a = SecretRef b" "TTLSecondsAfterStarted a = TTLSecondsAfterStarted b"
    "Cleanup a = Cleanup b" "PathPrefix a = PathPrefix b" "PathSuffix a = PathSuffix b"
  using assms by (cases a; cases b; simp add: spec_DeepEqual_def)+

section \<open>Finalizers\<close>

text \<open>
  \<open>controllerutil.AddFinalizer\<close> and \<open>RemoveFinalizer\<close> return whether they changed the
  object; removal deletes every occurrence.
\<close>

definition AddFinalizer :: "string \<Rightarrow> object_meta \<Rightarrow> bool \<times> object_meta" where
  "AddFinalizer finalizer o' =
     (if list_ex (\<lambda>e. e = finalizer) (Finalizers o') then (False, o')
      else (True, o'\<lparr>Finalizers := Finalizers o' @ [finalizer]\<rparr>))"

fun remove_all :: "string \<Rightarrow> string list \<Rightarrow> bool \<times> string list" where
  "remove_all finalizer [] = (False, [])"
| "remove_all finalizer (e # es) =
     (case remove_all finalizer es of (upd, es') \<Rightarrow>
        if e = finalizer then (True, es') else (upd, e # es'))"

definition RemoveFinalizer :: "string \<Rightarrow> object_meta \<Rightarrow> bool \<times> object_meta" where
  "RemoveFinalizer finalizer o' =
     (case remove_all finalizer (Finalizers o') of (upd, f) \<Rightarrow> (upd, o'\<lparr>Finalizers := f\<rparr>))"

lemma remove_all_eq: "remove_all f es = (f \<in> set es, filter (\<lambda>e. e \<noteq> f) es)"
  by (induction es) auto

lemma RemoveFinalizer_eq:
  "RemoveFinalizer f m = (f \<in> set (Finalizers m), m\<lparr>Finalizers := filter (\<lambda>e. e \<noteq> f) (Finalizers m)\<rparr>)"
  by (simp add: RemoveFinalizer_def remove_all_eq)

lemma AddFinalizer_eq:
  "AddFinalizer f m =
     (if f \<in> set (Finalizers m) then (False, m)
      else (True, m\<lparr>Finalizers := Finalizers m @ [f]\<rparr>))"
  by (simp add: AddFinalizer_def list_ex_iff)

lemma AddFinalizer_mem: "f \<in> set (Finalizers (snd (AddFinalizer f m)))"
  by (simp add: AddFinalizer_eq)

section \<open>Owner references\<close>

definition group_of :: "string \<Rightarrow> string" where
  "group_of apiVersion = (case Split apiVersion ''/'' of [g, v] \<Rightarrow> g | _ \<Rightarrow> '''')"

definition referSameObject :: "owner_ref \<Rightarrow> owner_ref \<Rightarrow> bool" where
  "referSameObject a b =
     (group_of (APIVersion a) = group_of (APIVersion b) \<and> Kind a = Kind b \<and> RefName a = RefName b)"

fun upsertOwnerRef :: "owner_ref \<Rightarrow> owner_ref list \<Rightarrow> owner_ref list" where
  "upsertOwnerRef ref [] = [ref]"
| "upsertOwnerRef ref (r # rs) =
     (if referSameObject r ref then ref # rs else r # upsertOwnerRef ref rs)"

definition validateOwner :: "object_meta \<Rightarrow> object_meta \<Rightarrow> unit res" where
  "validateOwner owner object' =
     (if Namespace owner \<noteq> ''''
      then if Namespace object' = ''''
        then Err (Failure ''cluster-scoped resource must not have a namespace-scoped owner'')
        else if Namespace owner \<noteq> Namespace object'
          then Err (Failure ''cross-namespace owner references are disallowed'')
          else Ok ()
      else Ok ())"

text \<open>
  \<open>SetControllerReference(owner, controlled, scheme)\<close>; the group, version and kind that
  the scheme has for the owner's Go type are arguments.
\<close>

definition SetControllerReference ::
  "string \<Rightarrow> string \<Rightarrow> object_meta \<Rightarrow> object_meta \<Rightarrow> object_meta res" where
  "SetControllerReference apiVersion kind owner controlled =
     (case validateOwner owner controlled of
        Inl e \<Rightarrow> Err e
      | Inr _ \<Rightarrow>
          (let ref = \<lparr>APIVersion = apiVersion, Kind = kind, RefName = Name owner,
                      RefUID = UID owner, BlockOwnerDeletion = True, IsController = True\<rparr>
           in case find IsController (OwnerReferences controlled) of
                Some existing \<Rightarrow>
                  (if \<not> referSameObject existing ref
                   then Err (Failure ''already owned by another controller'')
                   else Ok (controlled\<lparr>OwnerReferences :=
                              upsertOwnerRef ref (OwnerReferences controlled)\<rparr>))
              | None \<Rightarrow>
                  Ok (controlled\<lparr>OwnerReferences :=
                        upsertOwnerRef ref (OwnerReferences controlled)\<rparr>)))"

section \<open>Object keys\<close>

text \<open>\<open>cache.MetaNamespaceKeyFunc\<close> and its inverse \<open>cache.SplitMetaNamespaceKey\<close>.\<close>

definition MetaNamespaceKey :: "object_meta \<Rightarrow> string" where
  "MetaNamespaceKey m =
     (if length (Namespace m) > 0 then Namespace m @ ''/'' @ Name m else Name m)"

definition SplitMetaNamespaceKey :: "string \<Rightarrow> nsname res" where
  "SplitMetaNamespaceKey key =
     (case Split key ''/'' of
        [n] \<Rightarrow> Ok ('''', n)
      | [ns, n] \<Rightarrow> Ok (ns, n)
      | _ \<Rightarrow> Err (Failure ''unexpected key format''))"

lemma SplitMetaNamespaceKey_inverse:
  "CHR ''/'' \<notin> set (Namespace m) \<Longrightarrow> CHR ''/'' \<notin> set (Name m) \<Longrightarrow>
   SplitMetaNamespaceKey (MetaNamespaceKey m) = Ok (nsname_of m)"
  by (simp add: SplitMetaNamespaceKey_def MetaNamespaceKey_def nsname_of_def)

lemma SplitMetaNamespaceKey_two:
  "CHR ''/'' \<notin> set ns \<Longrightarrow> CHR ''/'' \<notin> set n \<Longrightarrow> SplitMetaNamespaceKey (ns @ ''/'' @ n) = Ok (ns, n)"
  by (simp add: SplitMetaNamespaceKey_def)

end
