(* ===== verification/Informers.thy ===== *)
theory Informers
  imports Api_Types
begin

text \<open>
  The shared informer factory of \<open>pkg/generated/informers/externalversions\<close>. Every method of the
  factory holds its mutex, so it is one step.

  The informer itself (\<open>cache.SharedIndexInformer\<close>) is client-go's: here it is the pointer
  (\<open>iid\<close>) together with the arguments it was created with. The clientset \<open>'c\<close>, the list
  options \<open>'o\<close> and the stop channels \<open>'ch\<close> are type parameters. \<open>goroutines\<close> are the calls
  of \<open>informer.Run\<close> that have not returned; \<open>launched\<close> and \<open>created\<close> record, for the
  properties, all of them and the number of informers made.

  Shown: a type has one informer for the life time of the factory, whoever asks for it; it
  is run at most once, whatever the calls of \<open>Start\<close>; after \<open>Shutdown\<close> none is started.
\<close>

section \<open>Informers\<close>

record ('c, 'o) SharedIndexInformer =
  iid :: nat
  iobject :: string
  iclient :: 'c
  inamespace :: string
  iresync :: int
  iindexers :: "string list"
  itweak :: "('o \<Rightarrow> 'o) option"

text \<open>The list and watch functions of the informer: the options are tweaked first.\<close>

definition tweak_options :: "('o \<Rightarrow> 'o) option \<Rightarrow> 'o \<Rightarrow> 'o" where
  "tweak_options tweak opts = (case tweak of None \<Rightarrow> opts | Some t \<Rightarrow> t opts)"

definition ListFunc :: "('c \<Rightarrow> string \<Rightarrow> 'o \<Rightarrow> 'r) \<Rightarrow> ('c, 'o) SharedIndexInformer \<Rightarrow> 'o \<Rightarrow> 'r" where
  "ListFunc list_call i opts = list_call (iclient i) (inamespace i) (tweak_options (itweak i) opts)"

definition WatchFunc :: "('c \<Rightarrow> string \<Rightarrow> 'o \<Rightarrow> 'r) \<Rightarrow> ('c, 'o) SharedIndexInformer \<Rightarrow> 'o \<Rightarrow> 'r" where
  "WatchFunc watch_call i opts = watch_call (iclient i) (inamespace i) (tweak_options (itweak i) opts)"

definition NewFilteredCloudShellInformer ::
  "'c \<Rightarrow> string \<Rightarrow> int \<Rightarrow> string list \<Rightarrow> ('o \<Rightarrow> 'o) option \<Rightarrow> nat \<Rightarrow> ('c, 'o) SharedIndexInformer" where
  "NewFilteredCloudShellInformer c ns resyncPeriod indexers tweak fresh =
     \<lparr>iid = fresh, iobject = ''*v1alpha1.CloudShell'', iclient = c, inamespace = ns,
      iresync = resyncPeriod, iindexers = indexers, itweak = tweak\<rparr>"

definition NewCloudShellInformer ::
  "'c \<Rightarrow> string \<Rightarrow> int \<Rightarrow> string list \<Rightarrow> nat \<Rightarrow> ('c, 'o) SharedIndexInformer" where
  "NewCloudShellInformer c ns resyncPeriod indexers fresh =
     NewFilteredCloudShellInformer c ns resyncPeriod indexers None fresh"

section \<open>The factory\<close>

record ('c, 'o, 'ch) sharedInformerFactory =
  client :: 'c
  fnamespace :: string
  tweakListOptions :: "('o \<Rightarrow> 'o) option"
  defaultResync :: int
  customResync :: "(string \<times> int) list"
  informers :: "(string \<times> ('c, 'o) SharedIndexInformer) list"
  startedInformers :: "(string \<times> bool) list"
  wg :: nat
  shuttingDown :: bool
  goroutines :: "(string \<times> ('c, 'o) SharedIndexInformer \<times> 'ch) list"
  launched :: "(string \<times> ('c, 'o) SharedIndexInformer \<times> 'ch) list"
  created :: nat

definition WithCustomResyncConfig ::
  "(string \<times> int) list \<Rightarrow> ('c, 'o, 'ch) sharedInformerFactory \<Rightarrow> ('c, 'o, 'ch) sharedInformerFactory" where
  "WithCustomResyncConfig resyncConfig f =
     f\<lparr>customResync := foldl (\<lambda>m (k, v). AList.update k v m) (customResync f) resyncConfig\<rparr>"

definition WithTweakListOptions ::
  "('o \<Rightarrow> 'o) option \<Rightarrow> ('c, 'o, 'ch) sharedInformerFactory \<Rightarrow> ('c, 'o, 'ch) sharedInformerFactory" where
  "WithTweakListOptions tweak f = f\<lparr>tweakListOptions := tweak\<rparr>"

definition WithNamespace ::
  "string \<Rightarrow> ('c, 'o, 'ch) sharedInformerFactory \<Rightarrow> ('c, 'o, 'ch) sharedInformerFactory" where
  "WithNamespace ns f = f\<lparr>fnamespace := ns\<rparr>"

definition NewSharedInformerFactoryWithOptions ::
  "'c \<Rightarrow> int \<Rightarrow> (('c, 'o, 'ch) sharedInformerFactory \<Rightarrow> ('c, 'o, 'ch) sharedInformerFactory) list \<Rightarrow>
   ('c, 'o, 'ch) sharedInformerFactory" where
  "NewSharedInformerFactoryWithOptions c resync options =
     foldl (\<lambda>factory opt. opt factory)
       \<lparr>client = c, fnamespace = '''', tweakListOptions = None, defaultResync = resync, customResync = [],
        informers = [], startedInformers = [], wg = 0, shuttingDown = False,
        goroutines = [], launched = [], created = 0\<rparr> options"

definition NewSharedInformerFactory :: "'c \<Rightarrow> int \<Rightarrow> ('c, 'o, 'ch) sharedInformerFactory" where
  "NewSharedInformerFactory c resync = NewSharedInformerFactoryWithOptions c resync []"

definition NewFilteredSharedInformerFactory ::
  "'c \<Rightarrow> int \<Rightarrow> string \<Rightarrow> ('o \<Rightarrow> 'o) option \<Rightarrow> ('c, 'o, 'ch) sharedInformerFactory" where
  "NewFilteredSharedInformerFactory c resync ns tweak =
     NewSharedInformerFactoryWithOptions c resync [WithNamespace ns, WithTweakListOptions tweak]"

text \<open>\<open>f.startedInformers[informerType]\<close>: false where the key is absent.\<close>

definition is_started :: "('c, 'o, 'ch) sharedInformerFactory \<Rightarrow> string \<Rightarrow> bool" where
  "is_started f ty = (map_of (startedInformers f) ty = Some True)"

definition start_one ::
  "'ch \<Rightarrow> string \<Rightarrow> ('c, 'o) SharedIndexInformer \<Rightarrow> ('c, 'o, 'ch) sharedInformerFactory \<Rightarrow>
   ('c, 'o, 'ch) sharedInformerFactory" where
  "start_one stopCh ty informer f =
     (if \<not> is_started f ty
      then f\<lparr>wg := Suc (wg f), goroutines := goroutines f @ [(ty, informer, stopCh)],
             launched := launched f @ [(ty, informer, stopCh)],
             startedInformers := AList.update ty True (startedInformers f)\<rparr>
      else f)"

fun start_loop ::
  "'ch \<Rightarrow> (string \<times> ('c, 'o) SharedIndexInformer) list \<Rightarrow> ('c, 'o, 'ch) sharedInformerFactory \<Rightarrow>
   ('c, 'o, 'ch) sharedInformerFactory" where
  "start_loop stopCh [] f = f"
| "start_loop stopCh ((ty, informer) # rest) f = start_loop stopCh rest (start_one stopCh ty informer f)"

definition factory_Start :: "'ch \<Rightarrow> ('c, 'o, 'ch) sharedInformerFactory \<Rightarrow> ('c, 'o, 'ch) sharedInformerFactory" where
  "factory_Start stopCh f = (if shuttingDown f then f else start_loop stopCh (informers f) f)"

text \<open>
  \<open>Shutdown\<close> sets the flag under the lock and then waits for the goroutines; it returns when
  \<open>Shutdown_returns\<close> holds. \<open>run_ends n\<close> is the end of the \<open>n\<close>-th running goroutine.
\<close>

definition factory_Shutdown :: "('c, 'o, 'ch) sharedInformerFactory \<Rightarrow> ('c, 'o, 'ch) sharedInformerFactory" where
  "factory_Shutdown f = f\<lparr>shuttingDown := True\<rparr>"

definition Shutdown_returns :: "('c, 'o, 'ch) sharedInformerFactory \<Rightarrow> bool" where
  "Shutdown_returns f = (wg f = 0)"

definition run_ends :: "nat \<Rightarrow> ('c, 'o, 'ch) sharedInformerFactory \<Rightarrow> ('c, 'o, 'ch) sharedInformerFactory" where
  "run_ends n f = f\<lparr>wg := wg f - 1, goroutines := take n (goroutines f) @ drop (Suc n) (goroutines f)\<rparr>"

text \<open>\<open>synced\<close> is what \<open>cache.WaitForCacheSync\<close> answers for an informer.\<close>

definition factory_WaitForCacheSync ::
  "(('c, 'o) SharedIndexInformer \<Rightarrow> bool) \<Rightarrow> ('c, 'o, 'ch) sharedInformerFactory \<Rightarrow> (string \<times> bool) list" where
  "factory_WaitForCacheSync synced f =
     map (\<lambda>(ty, informer). (ty, synced informer)) (filter (\<lambda>(ty, _). is_started f ty) (informers f))"

definition InformerFor ::
  "string \<Rightarrow> ('c \<Rightarrow> int \<Rightarrow> nat \<Rightarrow> ('c, 'o) SharedIndexInformer) \<Rightarrow> ('c, 'o, 'ch) sharedInformerFactory \<Rightarrow>
   ('c, 'o) SharedIndexInformer \<times> ('c, 'o, 'ch) sharedInformerFactory" where
  "InformerFor informerType newFunc f =
     (case map_of (informers f) informerType of
        Some informer \<Rightarrow> (informer, f)
      | None \<Rightarrow>
          (let resyncPeriod = (case map_of (customResync f) informerType of
                                 None \<Rightarrow> defaultResync f | Some r \<Rightarrow> r);
               informer = newFunc (client f) resyncPeriod (created f)
           in (informer, f\<lparr>informers := AList.update informerType informer (informers f),
                           created := Suc (created f)\<rparr>)))"

section \<open>Access by group, version and resource\<close>

text \<open>
  \<open>group\<close>, \<open>version\<close> and \<open>cloudShellInformer\<close> all hold the factory, a namespace and the
  tweak; the factory, a pointer, is passed separately.
\<close>

record 'o access =
  anamespace :: string
  atweak :: "('o \<Rightarrow> 'o) option"

definition factory_Cloudshell :: "('c, 'o, 'ch) sharedInformerFactory \<Rightarrow> 'o access" where
  "factory_Cloudshell f = \<lparr>anamespace = fnamespace f, atweak = tweakListOptions f\<rparr>"

definition group_V1alpha1 :: "'o access \<Rightarrow> 'o access" where
  "group_V1alpha1 g = \<lparr>anamespace = anamespace g, atweak = atweak g\<rparr>"

definition version_CloudShells :: "'o access \<Rightarrow> 'o access" where
  "version_CloudShells v = \<lparr>anamespace = anamespace v, atweak = atweak v\<rparr>"

definition defaultInformer :: "'o access \<Rightarrow> 'c \<Rightarrow> int \<Rightarrow> nat \<Rightarrow> ('c, 'o) SharedIndexInformer" where
  "defaultInformer a c resyncPeriod fresh =
     NewFilteredCloudShellInformer c (anamespace a) resyncPeriod [''namespace''] (atweak a) fresh"

definition CloudShell_Informer ::
  "'o access \<Rightarrow> ('c, 'o, 'ch) sharedInformerFactory \<Rightarrow>
   ('c, 'o) SharedIndexInformer \<times> ('c, 'o, 'ch) sharedInformerFactory" where
  "CloudShell_Informer a f = InformerFor ''*v1alpha1.CloudShell'' (defaultInformer a) f"

text \<open>\<open>register.go\<close>: the group and version of the resource.\<close>

definition GroupName :: string where "GroupName = ''cloudshell.cloudtty.io''"

definition SchemeGroupVersion :: "string \<times> string" where
  "SchemeGroupVersion = (GroupName, ''v1alpha1'')"

record ('c, 'o) genericInformer =
  ginformer :: "('c, 'o) SharedIndexInformer"
  gresource :: "string \<times> string"

definition generic_Informer :: "('c, 'o) genericInformer \<Rightarrow> ('c, 'o) SharedIndexInformer" where
  "generic_Informer g = ginformer g"

definition ForResource ::
  "(string \<times> string) \<times> string \<Rightarrow> ('c, 'o, 'ch) sharedInformerFactory \<Rightarrow>
   ('c, 'o) genericInformer res \<times> ('c, 'o, 'ch) sharedInformerFactory" where
  "ForResource resource f =
     (if resource = (SchemeGroupVersion, ''cloudshells'')
      then (case CloudShell_Informer (version_CloudShells (group_V1alpha1 (factory_Cloudshell f))) f of
              (i, f') \<Rightarrow> (Ok \<lparr>ginformer = i, gresource = (fst (fst resource), snd resource)\<rparr>, f'))
      else (Err (Failure ''no informer found''), f))"

section \<open>One informer per type, run at most once\<close>

inductive_set factory_options ::
  "(('c, 'o, 'ch) sharedInformerFactory \<Rightarrow> ('c, 'o, 'ch) sharedInformerFactory) set"
where
  "WithCustomResyncConfig cfg \<in> factory_options"
| "WithTweakListOptions tweak \<in> factory_options"
| "WithNamespace ns \<in> factory_options"

inductive factory_step ::
  "('c, 'o, 'ch) sharedInformerFactory \<Rightarrow> ('c, 'o, 'ch) sharedInformerFactory \<Rightarrow> bool"
where
  Inform: "factory_step f (snd (InformerFor ty newFunc f))"
| Start: "factory_step f (factory_Start stopCh f)"
| Shutdown: "factory_step f (factory_Shutdown f)"
| RunEnds: "n < length (goroutines f) \<Longrightarrow> factory_step f (run_ends n f)"

abbreviation factory_steps ::
  "('c, 'o, 'ch) sharedInformerFactory \<Rightarrow> ('c, 'o, 'ch) sharedInformerFactory \<Rightarrow> bool"
where "factory_steps \<equiv> factory_step\<^sup>*\<^sup>*"

definition new_factory :: "('c, 'o, 'ch) sharedInformerFactory \<Rightarrow> bool" where
  "new_factory f \<longleftrightarrow>
     (\<exists>c resync options. set options \<subseteq> factory_options \<and>
        f = NewSharedInformerFactoryWithOptions c resync options)"

definition factory_inv :: "('c, 'o, 'ch) sharedInformerFactory \<Rightarrow> bool" where
  "factory_inv f \<longleftrightarrow>
     distinct (map fst (launched f)) \<and> wg f = length (goroutines f) \<and>
     (\<forall>(ty, i, ch) \<in> set (launched f). map_of (informers f) ty = Some i) \<and>
     fst ` set (launched f) = {ty. is_started f ty} \<and> set (goroutines f) \<subseteq> set (launched f)"

lemma new_factory_fields:
  assumes "new_factory f"
  shows "informers f = [] \<and> startedInformers f = [] \<and> wg f = 0 \<and> \<not> shuttingDown f \<and>
    goroutines f = [] \<and> launched f = [] \<and> created f = 0"
proof -
  have "informers (foldl (\<lambda>f opt. opt f) f os) = informers f \<and>
      startedInformers (foldl (\<lambda>f opt. opt f) f os) = startedInformers f \<and>
      wg (foldl (\<lambda>f opt. opt f) f os) = wg f \<and> shuttingDown (foldl (\<lambda>f opt. opt f) f os) = shuttingDown f \<and>
      goroutines (foldl (\<lambda>f opt. opt f) f os) = goroutines f \<and>
      launched (foldl (\<lambda>f opt. opt f) f os) = launched f \<and> created (foldl (\<lambda>f opt. opt f) f os) = created f"
    if "set os \<subseteq> factory_options" for os and f :: "('a, 'b, 'c) sharedInformerFactory"
    using that
  proof (induction os arbitrary: f)
    case (Cons opt os)
    then have "opt \<in> factory_options" by simp
    then have "informers (opt f) = informers f \<and> startedInformers (opt f) = startedInformers f \<and> wg (opt f) = wg f \<and>
        shuttingDown (opt f) = shuttingDown f \<and> goroutines (opt f) = goroutines f \<and>
        launched (opt f) = launched f \<and> created (opt f) = created f"
      by cases (simp_all add: WithCustomResyncConfig_def WithTweakListOptions_def WithNamespace_def)
    with Cons show ?case by simp
  qed simp
  with assms show ?thesis
    by (auto simp: new_factory_def NewSharedInformerFactoryWithOptions_def)
qed

lemma is_started_start_one [simp]: "is_started (start_one ch ty i f) t \<longleftrightarrow> t = ty \<or> is_started f t"
  by (auto simp: start_one_def is_started_def update_conv')

lemma start_one_frame [simp]:
  "informers (start_one ch ty i f) = informers f" "shuttingDown (start_one ch ty i f) = shuttingDown f"
  by (simp_all add: start_one_def)

lemma start_one_inv:
  assumes "factory_inv f" "map_of (informers f) ty = Some i"
  shows "factory_inv (start_one ch ty i f)"
proof (cases "is_started f ty")
  case True
  with assms show ?thesis by (simp add: start_one_def)
next
  case False
  let ?f = "start_one ch ty i f"
  have new: "launched ?f = launched f @ [(ty, i, ch)]" "goroutines ?f = goroutines f @ [(ty, i, ch)]" "wg ?f = Suc (wg f)"
    using False by (simp_all add: start_one_def)
  have "ty \<notin> fst ` set (launched f)" using assms(1) False by (simp add: factory_inv_def)
  with assms show ?thesis by (auto simp: factory_inv_def new)
qed

lemma start_loop_started: "is_started (start_loop ch xs f) t \<longleftrightarrow> t \<in> fst ` set xs \<or> is_started f t"
  by (induction ch xs f rule: start_loop.induct) auto

lemma start_loop_inv:
  assumes "factory_inv f" "\<forall>(ty, i) \<in> set xs. map_of (informers f) ty = Some i"
  shows "factory_inv (start_loop ch xs f) \<and> informers (start_loop ch xs f) = informers f \<and>
    shuttingDown (start_loop ch xs f) = shuttingDown f"
  using assms by (induction ch xs f rule: start_loop.induct) (auto simp: start_one_inv)

text \<open>What later steps cannot change: the informer of a type, and, once shut down, what was run.\<close>

definition factory_le ::
  "('c, 'o, 'ch) sharedInformerFactory \<Rightarrow> ('c, 'o, 'ch) sharedInformerFactory \<Rightarrow> bool" where
  "factory_le f f' \<longleftrightarrow>
     map_of (informers f) \<subseteq>\<^sub>m map_of (informers f') \<and>
     (shuttingDown f \<longrightarrow> shuttingDown f' \<and> launched f' = launched f)"

lemma factory_step_keeps:
  assumes "factory_step f f'" "factory_inv f" "distinct (map fst (informers f))"
  shows "factory_inv f' \<and> distinct (map fst (informers f')) \<and> factory_le f f'"
  using assms
proof cases
  case (Inform ty newFunc)
  show ?thesis
  proof (cases "map_of (informers f) ty")
    case None
    let ?i = "fst (InformerFor ty newFunc f)"
    have f': "f' = f\<lparr>informers := AList.update ty ?i (informers f), created := Suc (created f)\<rparr>"
      using Inform None by (simp add: InformerFor_def Let_def)
    have "\<forall>(t, i, ch) \<in> set (launched f). t \<noteq> ty"
      using assms(2) None by (auto simp: factory_inv_def)
    with assms(2,3) None show ?thesis
      by (auto simp: f' factory_inv_def is_started_def factory_le_def update_conv' map_le_def distinct_update)
  next
    case (Some i)
    with Inform have "f' = f" by (simp add: InformerFor_def)
    with assms show ?thesis by (simp add: factory_le_def)
  qed
next
  case (Start ch)
  have "\<forall>(ty, i) \<in> set (informers f). map_of (informers f) ty = Some i"
    using assms(3) by auto
  from start_loop_inv [OF assms(2) this, of ch] Start assms show ?thesis
    by (simp add: factory_Start_def factory_le_def split: if_splits)
next
  case Shutdown
  with assms show ?thesis
    by (simp add: factory_Shutdown_def factory_inv_def factory_le_def is_started_def)
next
  case (RunEnds n)
  have "set (take n (goroutines f) @ drop (Suc n) (goroutines f)) \<subseteq> set (goroutines f)"
    by (auto dest: in_set_takeD in_set_dropD)
  with RunEnds assms show ?thesis
    by (auto simp: run_ends_def factory_inv_def factory_le_def is_started_def)
qed

lemma factory_le_trans: "factory_le f g \<Longrightarrow> factory_le g h \<Longrightarrow> factory_le f h"
  by (auto simp: factory_le_def intro: map_le_trans)

lemma factory_steps_keep:
  assumes "factory_steps f f'" "factory_inv f" "distinct (map fst (informers f))"
  shows "factory_inv f' \<and> distinct (map fst (informers f')) \<and> factory_le f f'"
  using assms
proof (induction rule: rtranclp_induct)
  case (step g h)
  then have g: "factory_inv g" "distinct (map fst (informers g))" "factory_le f g" by simp_all
  with factory_step_keeps [OF step(2)] show ?case by (blast intro: factory_le_trans)
qed (simp add: factory_le_def)

lemma new_factory_inv: "new_factory f \<Longrightarrow> factory_inv f \<and> distinct (map fst (informers f))"
  by (simp add: new_factory_fields factory_inv_def is_started_def)

lemma started_informers:
  assumes "factory_inv f" "is_started f t" shows "t \<in> fst ` set (informers f)"
proof -
  have "t \<in> fst ` set (launched f)" using assms by (simp add: factory_inv_def)
  then obtain i ch where "(t, i, ch) \<in> set (launched f)" by (metis imageE prod.collapse)
  then have "map_of (informers f) t = Some i" using assms(1) by (auto simp: factory_inv_def)
  then show ?thesis by (force dest: map_of_SomeD)
qed

text \<open>
  Property C24. In every state a factory can reach, an informer of a type is run at most
  once however often \<open>Start\<close> is called, and the wait group counts the runs that have not
  ended. Once a type has an informer every later request, from whatever part of the program
  and with whatever constructor, gets the same one; \<open>Start\<close> starts every informer that was
  requested so far unless the factory is shutting down; and after \<open>Shutdown\<close> no informer is
  ever started.
\<close>

theorem informer_factory_sound:
  assumes "new_factory f0" "factory_steps f0 f"
  shows "distinct (map fst (launched f)) \<and> wg f = length (goroutines f) \<and>
    (\<forall>(ty, i, ch) \<in> set (launched f). map_of (informers f) ty = Some i) \<and>
    (\<forall>ty newFunc i f1 f2 newFunc'. InformerFor ty newFunc f = (i, f1) \<longrightarrow> factory_steps f1 f2 \<longrightarrow>
       fst (InformerFor ty newFunc' f2) = i) \<and>
    (\<forall>ch. \<not> shuttingDown f \<longrightarrow> fst ` set (launched (factory_Start ch f)) = fst ` set (informers f)) \<and>
    (\<forall>f1. factory_steps (factory_Shutdown f) f1 \<longrightarrow> launched f1 = launched f)"
proof (intro conjI allI impI)
  have inv: "factory_inv f" "distinct (map fst (informers f))"
    using factory_steps_keep [OF assms(2)] new_factory_inv [OF assms(1)] by blast+
  show "distinct (map fst (launched f))" "wg f = length (goroutines f)"
    "\<forall>(ty, i, ch) \<in> set (launched f). map_of (informers f) ty = Some i"
    using inv(1) by (simp_all add: factory_inv_def)
  show "fst (InformerFor ty newFunc' f2) = i"
    if i: "InformerFor ty newFunc f = (i, f1)" and "factory_steps f1 f2" for ty newFunc newFunc' i f1 f2
  proof -
    have "factory_step f f1" using Inform [of f ty newFunc] i by simp
    note f1 = factory_step_keeps [OF this inv]
    have "map_of (informers f1) ty = Some i"
      using i by (auto simp: InformerFor_def Let_def update_conv' split: option.splits)
    moreover have "factory_le f1 f2" using factory_steps_keep [OF that(2)] f1 by blast
    ultimately have "map_of (informers f2) ty = Some i"
      unfolding factory_le_def map_le_def by (metis domI)
    then show ?thesis by (simp add: InformerFor_def)
  qed
  show "fst ` set (launched (factory_Start ch f)) = fst ` set (informers f)" if "\<not> shuttingDown f" for ch
  proof -
    have "factory_inv (factory_Start ch f)" using factory_step_keeps [OF Start inv] by blast
    then have "fst ` set (launched (factory_Start ch f)) = {t. is_started (factory_Start ch f) t}"
      by (simp add: factory_inv_def)
    also have "\<dots> = fst ` set (informers f) \<union> {t. is_started f t}"
      using that by (auto simp: factory_Start_def start_loop_started)
    also have "\<dots> = fst ` set (informers f)"
      using started_informers [OF inv(1)] by auto
    finally show ?thesis .
  qed
  show "launched f1 = launched f" if "factory_steps (factory_Shutdown f) f1" for f1
  proof -
    have "factory_le (factory_Shutdown f) f1"
      using factory_steps_keep [OF that] factory_step_keeps [OF Shutdown inv] by blast
    then show ?thesis by (simp add: factory_le_def factory_Shutdown_def)
  qed
qed

text \<open>Two requests for the cloudshell informer, two starts, and a start after the shutdown.\<close>

definition sample_factory :: "(nat, nat, nat) sharedInformerFactory" where
  "sample_factory = NewSharedInformerFactory 7 0"

definition used_factory :: "(nat, nat, nat) sharedInformerFactory" where
  "used_factory =
     factory_Start 1 (factory_Start 0 (snd (CloudShell_Informer (factory_Cloudshell sample_factory) sample_factory)))"

theorem informer_factory_sound_witness:
  "length (launched used_factory) = 1 \<and> distinct (map fst (launched used_factory)) \<and>
   launched (factory_Start 2 (factory_Shutdown used_factory)) = launched used_factory"
proof -
  have new: "new_factory sample_factory"
    unfolding new_factory_def sample_factory_def NewSharedInformerFactory_def
    by (rule exI [of _ 7], rule exI [of _ 0], rule exI [of _ "[]"]) simp
  let ?f1 = "snd (CloudShell_Informer (factory_Cloudshell sample_factory) sample_factory)"
  have "factory_step sample_factory ?f1" unfolding CloudShell_Informer_def by (rule Inform)
  then have "factory_steps sample_factory ?f1" by (rule r_into_rtranclp)
  then have "factory_steps sample_factory (factory_Start 0 ?f1)"
    by (rule rtranclp.rtrancl_into_rtrancl) (rule Start)
  then have steps: "factory_steps sample_factory used_factory"
    unfolding used_factory_def by (rule rtranclp.rtrancl_into_rtrancl) (rule Start)
  note sound = informer_factory_sound [OF new steps]
  have "length (launched used_factory) = 1" by code_simp
  moreover have "distinct (map fst (launched used_factory))" using sound by (rule conjunct1)
  moreover have "factory_steps (factory_Shutdown used_factory) (factory_Start 2 (factory_Shutdown used_factory))"
    by (rule r_into_rtranclp) (rule Start)
  then have "launched (factory_Start 2 (factory_Shutdown used_factory)) = launched used_factory"
    using sound [THEN conjunct2, THEN conjunct2, THEN conjunct2, THEN conjunct2, THEN conjunct2]
    by simp
  ultimately show ?thesis by (intro conjI)
qed

end
