(* ===== verification/Queue.thy ===== *)
theory Queue
  imports Prelude
begin

text \<open>
  The deduplicating FIFO of \<open>pkg/workerpool/queue.go\<close>. The struct \<open>Type\<close> keeps a slice
  \<open>queue\<close> and a set \<open>dirty\<close>; every method runs under the read or write lock, so each is
  one atomic step of the model (the locks themselves are in \<open>Queue_Locks\<close>).

  The two equalities of the source are kept apart: the set is a Go map and compares keys
  with \<open>==\<close>, which is equality in the model; \<open>Remove\<close> looks the item up in the slice with
  \<open>reflect.DeepEqual\<close>, which is the parameter \<open>deep_eq\<close> of the model's \<open>Remove\<close>.

  The locale \<open>ordered_set\<close> states what the users of \<open>Interface\<close> rely on: a queue is a list
  without repetitions. It is interpreted on this implementation for strings (the worker
  queue) here and for requests in \<open>Worker_Pool\<close>.
\<close>

section \<open>The implementation\<close>

record 'a qtype =
  queue :: "'a list"
  dirty :: "'a set"

definition newQueue :: "'a qtype" where
  "newQueue = \<lparr>queue = [], dirty = {}\<rparr>"

definition set_has :: "'a set \<Rightarrow> 'a \<Rightarrow> bool" where
  "set_has s item = (item \<in> s)"

definition set_insert :: "'a set \<Rightarrow> 'a \<Rightarrow> 'a set" where
  "set_insert s item = insert item s"

definition set_delete :: "'a set \<Rightarrow> 'a \<Rightarrow> 'a set" where
  "set_delete s item = s - {item}"

definition Add :: "'a \<Rightarrow> 'a qtype \<Rightarrow> 'a qtype" where
  "Add item q =
     (if set_has (dirty q) item then q
      else q\<lparr>dirty := set_insert (dirty q) item, queue := queue q @ [item]\<rparr>)"

definition Len :: "'a qtype \<Rightarrow> nat" where
  "Len q = length (queue q)"

text \<open>\<open>Get\<close> returns nil on an empty queue.\<close>

definition Get :: "'a qtype \<Rightarrow> 'a option \<times> 'a qtype" where
  "Get q =
     (case queue q of
        [] \<Rightarrow> (None, q)
      | item # rest \<Rightarrow>
          (Some item, q\<lparr>queue := rest, dirty := set_delete (dirty q) item\<rparr>))"

text \<open>The loop of \<open>Remove\<close>: cut out the first deeply equal element and break.\<close>

fun remove_first :: "('a \<Rightarrow> 'a \<Rightarrow> bool) \<Rightarrow> 'a \<Rightarrow> 'a list \<Rightarrow> 'a list" where
  "remove_first deep_eq item [] = []"
| "remove_first deep_eq item (obj # rest) =
     (if deep_eq obj item then rest else obj # remove_first deep_eq item rest)"

definition Remove :: "('a \<Rightarrow> 'a \<Rightarrow> bool) \<Rightarrow> 'a \<Rightarrow> 'a qtype \<Rightarrow> 'a qtype" where
  "Remove deep_eq item q =
     (if length (queue q) = 0 then q
      else if \<not> set_has (dirty q) item then q
      else q\<lparr>queue := remove_first deep_eq item (queue q),
             dirty := set_delete (dirty q) item\<rparr>)"

definition Has :: "'a qtype \<Rightarrow> 'a \<Rightarrow> bool" where
  "Has q item = set_has (dirty q) item"

definition All :: "'a qtype \<Rightarrow> 'a list" where
  "All q = foldl (\<lambda>items item. items @ [item]) [] (queue q)"

lemmas queue_defs = newQueue_def set_has_def set_insert_def set_delete_def Add_def Len_def
  Get_def Remove_def Has_def

lemma foldl_snoc: "foldl (\<lambda>items item. items @ [item]) acc xs = acc @ xs"
  by (induction xs arbitrary: acc) simp_all

lemma All_eq_queue [simp]: "All q = queue q"
  by (simp add: All_def foldl_snoc)

section \<open>The well-formedness invariant\<close>

text \<open>
  The slice has no repetition, its elements are exactly the dirty ones, and on the items
  that occur the two equalities agree (\<open>items\<close> is the set of values a client may add).
\<close>

definition queue_inv :: "'a set \<Rightarrow> 'a qtype \<Rightarrow> bool" where
  "queue_inv items q = (distinct (queue q) \<and> set (queue q) = dirty q \<and> dirty q \<subseteq> items)"

definition deep_eq_on :: "'a set \<Rightarrow> ('a \<Rightarrow> 'a \<Rightarrow> bool) \<Rightarrow> bool" where
  "deep_eq_on items deep_eq = (\<forall>x \<in> items. \<forall>y \<in> items. deep_eq x y = (x = y))"

lemma remove_first_remove1:
  "deep_eq_on items deep_eq \<Longrightarrow> x \<in> items \<Longrightarrow> set xs \<subseteq> items \<Longrightarrow>
   remove_first deep_eq x xs = remove1 x xs"
  by (induction xs) (auto simp: deep_eq_on_def)

lemma newQueue_inv: "queue_inv items newQueue"
  by (simp add: queue_inv_def newQueue_def)

lemma Add_inv: "queue_inv items q \<Longrightarrow> x \<in> items \<Longrightarrow> queue_inv items (Add x q)"
  by (auto simp: queue_inv_def queue_defs)

lemma Get_inv: "queue_inv items q \<Longrightarrow> queue_inv items (snd (Get q))"
  by (auto simp: queue_inv_def queue_defs split: list.splits)

lemma Remove_inv:
  assumes "deep_eq_on items deep_eq" "queue_inv items q" "x \<in> items"
  shows "queue_inv items (Remove deep_eq x q)"
proof -
  have "remove_first deep_eq x (queue q) = remove1 x (queue q)"
    using assms by (intro remove_first_remove1) (auto simp: queue_inv_def)
  with assms show ?thesis
    by (auto simp: queue_inv_def queue_defs)
qed

lemma Remove_All:
  assumes "deep_eq_on items deep_eq" "queue_inv items q" "x \<in> items"
  shows "All (Remove deep_eq x q) = remove1 x (All q)"
proof -
  have "remove_first deep_eq x (queue q) = remove1 x (queue q)"
    using assms by (intro remove_first_remove1) (auto simp: queue_inv_def)
  moreover have "x \<notin> dirty q \<Longrightarrow> remove1 x (queue q) = queue q"
    using assms by (intro remove1_idem) (auto simp: queue_inv_def)
  ultimately show ?thesis
    by (auto simp: Remove_def set_has_def)
qed

section \<open>The interface\<close>

locale ordered_set =
  fixes items :: "'a set"
    and new :: "'q"
    and add :: "'a \<Rightarrow> 'q \<Rightarrow> 'q"
    and get :: "'q \<Rightarrow> 'a option \<times> 'q"
    and remove :: "'a \<Rightarrow> 'q \<Rightarrow> 'q"
    and has :: "'q \<Rightarrow> 'a \<Rightarrow> bool"
    and len :: "'q \<Rightarrow> nat"
    and all :: "'q \<Rightarrow> 'a list"
    and inv :: "'q \<Rightarrow> bool"
  assumes inv_new: "inv new"
    and inv_add: "inv q \<Longrightarrow> x \<in> items \<Longrightarrow> inv (add x q)"
    and inv_get: "inv q \<Longrightarrow> inv (snd (get q))"
    and inv_remove: "inv q \<Longrightarrow> x \<in> items \<Longrightarrow> inv (remove x q)"
    and all_new: "all new = []"
    and all_add: "inv q \<Longrightarrow> all (add x q) = (if x \<in> set (all q) then all q else all q @ [x])"
    and all_get: "inv q \<Longrightarrow> all (snd (get q)) = tl (all q)"
    and get_result: "inv q \<Longrightarrow> fst (get q) = (case all q of [] \<Rightarrow> None | x # _ \<Rightarrow> Some x)"
    and all_remove: "inv q \<Longrightarrow> x \<in> items \<Longrightarrow> all (remove x q) = remove1 x (all q)"
    and has_iff: "inv q \<Longrightarrow> has q x = (x \<in> set (all q))"
    and len_eq: "inv q \<Longrightarrow> len q = length (all q)"
    and distinct_all: "inv q \<Longrightarrow> distinct (all q)"
    and all_items: "inv q \<Longrightarrow> set (all q) \<subseteq> items"
begin

lemmas all_simps = all_new all_add all_get all_remove has_iff len_eq
lemmas inv_rules = inv_new inv_add inv_get inv_remove

lemma set_all_add: "inv q \<Longrightarrow> set (all (add x q)) = insert x (set (all q))"
  by (auto simp: all_add)

lemma set_all_remove: "inv q \<Longrightarrow> x \<in> items \<Longrightarrow> set (all (remove x q)) = set (all q) - {x}"
  by (simp add: all_remove distinct_all set_remove1_eq)

lemma has_add: "inv q \<Longrightarrow> x \<in> items \<Longrightarrow> has (add x q) y = (y = x \<or> has q y)"
  by (auto simp: has_iff inv_add set_all_add)

lemma has_remove: "inv q \<Longrightarrow> x \<in> items \<Longrightarrow> has (remove x q) y = (y \<noteq> x \<and> has q y)"
  by (auto simp: has_iff inv_remove set_all_remove)

lemma len_add_le: "inv q \<Longrightarrow> x \<in> items \<Longrightarrow> len (add x q) \<le> Suc (len q)"
  by (simp add: len_eq inv_add all_add)

lemma add_remove_cancel:
  "inv q \<Longrightarrow> x \<in> items \<Longrightarrow> \<not> has q x \<Longrightarrow> all (remove x (add x q)) = all q"
  by (simp add: all_remove all_add inv_add has_iff remove1_append)

end

lemma ordered_set_qtype:
  assumes "deep_eq_on items deep_eq"
  shows "ordered_set items newQueue Add Get (Remove deep_eq) Has Len All (queue_inv items)"
proof unfold_locales
  show "queue_inv items newQueue" by (rule newQueue_inv)
  show "All (newQueue :: 'a qtype) = []" by (simp add: newQueue_def)
next
  fix q :: "'a qtype" and x assume q: "queue_inv items q"
  show "queue_inv items (snd (Get q))" using q by (rule Get_inv)
  show "All (Add x q) = (if x \<in> set (All q) then All q else All q @ [x])"
    using q by (auto simp: queue_inv_def queue_defs)
  show "All (snd (Get q)) = tl (All q)"
    by (simp add: Get_def split: list.split)
  show "fst (Get q) = (case All q of [] \<Rightarrow> None | x # _ \<Rightarrow> Some x)"
    by (simp add: Get_def split: list.split)
  show "Has q x = (x \<in> set (All q))" using q by (simp add: queue_inv_def queue_defs)
  show "Len q = length (All q)" by (simp add: Len_def)
  show "distinct (All q)" and "set (All q) \<subseteq> items" using q by (auto simp: queue_inv_def)
  assume x: "x \<in> items"
  show "queue_inv items (Add x q)" using q x by (rule Add_inv)
  show "queue_inv items (Remove deep_eq x q)" using assms q x by (rule Remove_inv)
  show "All (Remove deep_eq x q) = remove1 x (All q)" using assms q x by (rule Remove_All)
qed

text \<open>On strings \<open>reflect.DeepEqual\<close> is equality; the worker queue holds worker keys.\<close>

interpretation wq: ordered_set "UNIV :: string set" newQueue Add Get "Remove (=)" Has Len All
  "queue_inv UNIV"
  by (rule ordered_set_qtype) (simp add: deep_eq_on_def)

lemma queue_Remove_string:
  "queue_inv UNIV (q :: string qtype) \<Longrightarrow> queue (Remove (=) x q) = remove1 x (queue q)"
  using wq.all_remove [of q x] by simp

lemma queue_Add:
  "queue_inv items q \<Longrightarrow>
   queue (Add x q) = (if x \<in> set (queue q) then queue q else queue q @ [x])"
  by (auto simp: queue_inv_def queue_defs)

section \<open>Refinement: every run agrees with the list specification\<close>

datatype 'a qop = OpAdd 'a | OpGet | OpRemove 'a | OpHas 'a | OpLen | OpAll

datatype 'a qres = RUnit | RItem "'a option" | RBool bool | RLen nat | RAll "'a list"

fun queue_step :: "('a \<Rightarrow> 'a \<Rightarrow> bool) \<Rightarrow> 'a qop \<Rightarrow> 'a qtype \<Rightarrow> 'a qres \<times> 'a qtype" where
  "queue_step deep_eq (OpAdd x) q = (RUnit, Add x q)"
| "queue_step deep_eq OpGet q = (case Get q of (r, q') \<Rightarrow> (RItem r, q'))"
| "queue_step deep_eq (OpRemove x) q = (RUnit, Remove deep_eq x q)"
| "queue_step deep_eq (OpHas x) q = (RBool (Has q x), q)"
| "queue_step deep_eq OpLen q = (RLen (Len q), q)"
| "queue_step deep_eq OpAll q = (RAll (All q), q)"

fun queue_run :: "('a \<Rightarrow> 'a \<Rightarrow> bool) \<Rightarrow> 'a qop list \<Rightarrow> 'a qtype \<Rightarrow> 'a qres list \<times> 'a qtype" where
  "queue_run deep_eq [] q = ([], q)"
| "queue_run deep_eq (x # xs) q =
     (case queue_step deep_eq x q of (r, q') \<Rightarrow>
        (case queue_run deep_eq xs q' of (rs, q'') \<Rightarrow> (r # rs, q'')))"

text \<open>The specification: an ordered list of distinct items.\<close>

fun spec_step :: "'a qop \<Rightarrow> 'a list \<Rightarrow> 'a qres \<times> 'a list" where
  "spec_step (OpAdd x) xs = (RUnit, if x \<in> set xs then xs else xs @ [x])"
| "spec_step OpGet xs = (RItem (case xs of [] \<Rightarrow> None | x # _ \<Rightarrow> Some x), tl xs)"
| "spec_step (OpRemove x) xs = (RUnit, remove1 x xs)"
| "spec_step (OpHas x) xs = (RBool (x \<in> set xs), xs)"
| "spec_step OpLen xs = (RLen (length xs), xs)"
| "spec_step OpAll xs = (RAll xs, xs)"

fun spec_run :: "'a qop list \<Rightarrow> 'a list \<Rightarrow> 'a qres list \<times> 'a list" where
  "spec_run [] s = ([], s)"
| "spec_run (x # xs) s =
     (case spec_step x s of (r, s') \<Rightarrow>
        (case spec_run xs s' of (rs, s'') \<Rightarrow> (r # rs, s'')))"

fun op_item_ok :: "'a set \<Rightarrow> 'a qop \<Rightarrow> bool" where
  "op_item_ok items (OpAdd x) = (x \<in> items)"
| "op_item_ok items (OpRemove x) = (x \<in> items)"
| "op_item_ok items _ = True"

lemma queue_step_simulates:
  assumes "deep_eq_on items deep_eq" "queue_inv items q" "op_item_ok items x"
    and "queue_step deep_eq x q = (r, q')"
  shows "queue_inv items q' \<and> spec_step x (All q) = (r, All q')"
proof -
  note os = ordered_set_qtype [OF assms(1)]
  note laws = ordered_set.all_add [OF os] ordered_set.all_get [OF os] ordered_set.get_result [OF os]
    ordered_set.all_remove [OF os] ordered_set.has_iff [OF os] ordered_set.len_eq [OF os]
  note invs = ordered_set.inv_add [OF os] ordered_set.inv_get [OF os] ordered_set.inv_remove [OF os]
  show ?thesis
    using assms(2-) laws [OF assms(2)] invs [OF assms(2)]
    by (cases x) (auto split: prod.splits)
qed

lemma queue_run_simulates:
  assumes "deep_eq_on items deep_eq" "queue_inv items q" "list_all (op_item_ok items) xs"
  shows "queue_inv items (snd (queue_run deep_eq xs q)) \<and>
    spec_run xs (All q) = (fst (queue_run deep_eq xs q), All (snd (queue_run deep_eq xs q)))"
  using assms(2,3)
proof (induction xs arbitrary: q)
  case Nil
  then show ?case by simp
next
  case (Cons x xs)
  obtain r q' where step: "queue_step deep_eq x q = (r, q')" by fastforce
  from Cons.prems have "queue_inv items q'" and "spec_step x (All q) = (r, All q')"
    using queue_step_simulates [OF assms(1) Cons.prems(1) _ step] by auto
  with Cons.IH [of q'] Cons.prems step show ?case
    by (auto split: prod.splits)
qed

text \<open>
  Property C4. In every sequence of queue operations on a fresh queue, each operation
  returns exactly what the same sequence returns on a list without repetitions (\<open>Add\<close>
  appends what is not there, \<open>Get\<close> takes the head, \<open>Remove\<close> deletes, \<open>Has\<close>, \<open>Len\<close> and
  \<open>All\<close> read), provided the deep equality used by \<open>Remove\<close> agrees with the map equality
  on the items used; and the slice and the set of the implementation stay in step.
\<close>

theorem queue_refines_list:
  assumes "deep_eq_on items deep_eq" and "list_all (op_item_ok items) ops"
  shows "fst (queue_run deep_eq ops newQueue) = fst (spec_run ops []) \<and>
    All (snd (queue_run deep_eq ops newQueue)) = snd (spec_run ops []) \<and>
    queue_inv items (snd (queue_run deep_eq ops newQueue))"
  using queue_run_simulates [OF assms(1) newQueue_inv assms(2)]
  by (simp add: newQueue_def)

theorem queue_refines_list_witness:
  "fst (queue_run (=) [OpAdd ''a'', OpAdd ''b'', OpAdd ''a'', OpRemove ''a'', OpLen, OpGet] newQueue)
     = [RUnit, RUnit, RUnit, RUnit, RLen 1, RItem (Some ''b'')]"
  using queue_refines_list [of UNIV "(=)"
      "[OpAdd ''a'', OpAdd ''b'', OpAdd ''a'', OpRemove ''a'', OpLen, OpGet]"]
  by (simp add: deep_eq_on_def)

section \<open>Draining a queue\<close>

text \<open>\<open>k\<close> calls of \<open>Get\<close>, by whichever goroutines: the items handed out, in order.\<close>

fun drain :: "nat \<Rightarrow> 'a qtype \<Rightarrow> 'a list \<times> 'a qtype" where
  "drain 0 q = ([], q)"
| "drain (Suc k) q =
     (case Get q of
        (None, q') \<Rightarrow> ([], q')
      | (Some x, q') \<Rightarrow> (case drain k q' of (xs, q'') \<Rightarrow> (x # xs, q'')))"

lemma drain_take:
  "queue_inv items q \<Longrightarrow>
   fst (drain k q) = take k (All q) \<and> All (snd (drain k q)) = drop k (All q) \<and>
   queue_inv items (snd (drain k q))"
proof (induction k arbitrary: q)
  case 0
  then show ?case by simp
next
  case (Suc k)
  show ?case
  proof (cases "queue q")
    case Nil
    with Suc.prems show ?thesis by (simp add: Get_def)
  next
    case (Cons x xs)
    have "queue_inv items (snd (Get q))" using Suc.prems by (rule Get_inv)
    from Suc.IH [OF this] Cons show ?thesis
      by (auto simp: Get_def split: prod.splits)
  qed
qed

text \<open>
  However many calls of \<open>Get\<close> a well-formed queue serves, no item is handed
  out twice, the items come out in the order they were added, and as soon as there have
  been as many calls as items each item has been handed out exactly once and the queue
  is empty (what \<open>TestQueueGetIsExclusive\<close> samples).
\<close>

theorem Get_is_exclusive:
  assumes "queue_inv items q"
  shows "distinct (fst (drain k q)) \<and>
    fst (drain k q) @ All (snd (drain k q)) = All q \<and>
    (Len q \<le> k \<longrightarrow> fst (drain k q) = All q \<and> Len (snd (drain k q)) = 0)"
proof -
  have d: "fst (drain k q) = take k (All q)" "All (snd (drain k q)) = drop k (All q)"
    using drain_take [OF assms, of k] by auto
  have "distinct (All q)" using assms by (simp add: queue_inv_def)
  with d show ?thesis by (simp add: Len_def)
qed

theorem Get_is_exclusive_witness:
  "fst (drain 5 (Add ''b'' (Add ''a'' newQueue))) = [''a'', ''b''] \<and>
   Len (snd (drain 5 (Add ''b'' (Add ''a'' newQueue)))) = 0"
proof -
  have "queue_inv UNIV (Add ''b'' (Add ''a'' newQueue))"
    by (simp add: Add_inv newQueue_inv)
  from Get_is_exclusive [OF this, of 5] show ?thesis
    by (simp add: queue_defs)
qed

end
