(* ===== verification/Work_Queue.thy ===== *)
theory Work_Queue
  imports Api_Types
begin

text \<open>
  The work queue of client-go (\<open>vendor/k8s.io/client-go/util/workqueue\<close>) that both the
  controller and the worker pool take their keys from: the basic queue with its dirty and
  processing sets, the delayed additions and the exponential failure rate limiter. Every
  method holds the queue's lock, so it is one step.

  Shown: an item is never handed to two workers at once, an addition made while the item
  is being processed is not lost but served after \<open>Done\<close>, and the delay of a rate limited
  addition is at least the base delay and at most the maximum.
\<close>

record workqueue =
  wqueue :: "string list"
  wdirty :: "string set"
  wprocessing :: "string set"
  wshuttingDown :: bool
  wwaiting :: "(string \<times> int) list"
  wfailures :: "string \<Rightarrow> nat"

definition wq_new :: workqueue where
  "wq_new = \<lparr>wqueue = [], wdirty = {}, wprocessing = {}, wshuttingDown = False,
             wwaiting = [], wfailures = (\<lambda>_. 0)\<rparr>"

definition wq_Add :: "string \<Rightarrow> workqueue \<Rightarrow> workqueue" where
  "wq_Add item q =
     (if wshuttingDown q then q
      else if item \<in> wdirty q then q
      else let q1 = q\<lparr>wdirty := insert item (wdirty q)\<rparr>
           in if item \<in> wprocessing q1 then q1
              else q1\<lparr>wqueue := wqueue q1 @ [item]\<rparr>)"

text \<open>\<open>Get\<close> waits while the queue is empty and not shutting down.\<close>

datatype get_result = GetWaits | GetShutdown | GetItem string

definition wq_Get :: "workqueue \<Rightarrow> get_result \<times> workqueue" where
  "wq_Get q =
     (case wqueue q of
        [] \<Rightarrow> (if wshuttingDown q then GetShutdown else GetWaits, q)
      | item # rest \<Rightarrow>
          (GetItem item,
           q\<lparr>wqueue := rest, wprocessing := insert item (wprocessing q),
             wdirty := wdirty q - {item}\<rparr>))"

definition wq_Done :: "string \<Rightarrow> workqueue \<Rightarrow> workqueue" where
  "wq_Done item q =
     (let q1 = q\<lparr>wprocessing := wprocessing q - {item}\<rparr>
      in if item \<in> wdirty q1 then q1\<lparr>wqueue := wqueue q1 @ [item]\<rparr> else q1)"

definition wq_ShutDown :: "workqueue \<Rightarrow> workqueue" where
  "wq_ShutDown q = q\<lparr>wshuttingDown := True\<rparr>"

text \<open>
  \<open>AddAfter\<close>: at once for a delay that is not positive, otherwise the item waits; of two
  waiting times for one item the earlier counts.
\<close>

fun wait_insert :: "string \<Rightarrow> int \<Rightarrow> (string \<times> int) list \<Rightarrow> (string \<times> int) list" where
  "wait_insert item t [] = [(item, t)]"
| "wait_insert item t ((x, u) # ws) =
     (if x = item then (x, min u t) # ws else (x, u) # wait_insert item t ws)"

definition wq_AddAfter :: "int \<Rightarrow> string \<Rightarrow> int \<Rightarrow> workqueue \<Rightarrow> workqueue" where
  "wq_AddAfter now item duration q =
     (if wshuttingDown q then q
      else if duration \<le> 0 then wq_Add item q
      else q\<lparr>wwaiting := wait_insert item (now + duration) (wwaiting q)\<rparr>)"

text \<open>The waiting loop, woken at time \<open>now\<close>: what is due is added, the earliest first, and the
  rest keeps waiting.\<close>

definition wq_fire :: "int \<Rightarrow> workqueue \<Rightarrow> workqueue" where
  "wq_fire now q =
     fold wq_Add (map fst (sort_key snd (filter (\<lambda>(x, t). t \<le> now) (wwaiting q))))
       (q\<lparr>wwaiting := filter (\<lambda>(x, t). \<not> t \<le> now) (wwaiting q)\<rparr>)"

text \<open>
  \<open>ItemExponentialFailureRateLimiter.When\<close>: base delay times two to the number of failures,
  capped (the product is exact in a float64, being an integer below \<open>2 ^ 53\<close> times a power of two).
\<close>

definition MaxInt64 :: int where "MaxInt64 = 2 ^ 63 - 1"

definition rl_delay :: "int \<Rightarrow> int \<Rightarrow> nat \<Rightarrow> int" where
  "rl_delay baseDelay maxDelay exp =
     (let backoff = baseDelay * 2 ^ exp
      in if backoff > MaxInt64 then maxDelay
         else if backoff > maxDelay then maxDelay else backoff)"

definition wq_AddRateLimited :: "int \<Rightarrow> int \<Rightarrow> int \<Rightarrow> string \<Rightarrow> workqueue \<Rightarrow> workqueue" where
  "wq_AddRateLimited baseDelay maxDelay now item q =
     wq_AddAfter now item (rl_delay baseDelay maxDelay (wfailures q item))
       (q\<lparr>wfailures := (wfailures q)(item := wfailures q item + 1)\<rparr>)"

definition wq_Forget :: "string \<Rightarrow> workqueue \<Rightarrow> workqueue" where
  "wq_Forget item q = q\<lparr>wfailures := (wfailures q)(item := 0)\<rparr>"

definition wq_NumRequeues :: "string \<Rightarrow> workqueue \<Rightarrow> nat" where
  "wq_NumRequeues item q = wfailures q item"

lemmas wq_defs = wq_Add_def wq_Get_def wq_Done_def wq_ShutDown_def Let_def

section \<open>The invariant stated in the source\<close>

text \<open>Every element of the queue is dirty and not being processed; a dirty item that is
  not in the queue is being processed.\<close>

definition wq_inv :: "workqueue \<Rightarrow> bool" where
  "wq_inv q =
     (distinct (wqueue q) \<and> set (wqueue q) \<inter> wprocessing q = {} \<and>
      wdirty q = set (wqueue q) \<union> (wdirty q \<inter> wprocessing q))"

lemma wq_new_inv: "wq_inv wq_new"
  by (simp add: wq_inv_def wq_new_def)

lemma wq_Add_inv: "wq_inv q \<Longrightarrow> wq_inv (wq_Add x q)"
  by (auto simp: wq_inv_def wq_defs)

lemma wq_Get_inv: "wq_inv q \<Longrightarrow> wq_inv (snd (wq_Get q))"
  by (auto simp: wq_inv_def wq_defs split: list.splits)

text \<open>\<open>Done\<close> is called for an item that is being processed.\<close>

lemma wq_Done_inv: "wq_inv q \<Longrightarrow> x \<in> wprocessing q \<Longrightarrow> wq_inv (wq_Done x q)"
  by (auto simp: wq_inv_def wq_defs)

lemma wq_frame_inv [simp]:
  "wq_inv (q\<lparr>wwaiting := ws\<rparr>) = wq_inv q" "wq_inv (q\<lparr>wfailures := f\<rparr>) = wq_inv q"
  "wq_inv (q\<lparr>wshuttingDown := b\<rparr>) = wq_inv q"
  by (simp_all add: wq_inv_def)

lemma wq_AddAfter_inv: "wq_inv q \<Longrightarrow> wq_inv (wq_AddAfter now x d q)"
  by (simp add: wq_AddAfter_def wq_Add_inv)

lemma fold_wq_Add_inv: "wq_inv q \<Longrightarrow> wq_inv (fold wq_Add xs q)"
  by (induction xs arbitrary: q) (simp_all add: wq_Add_inv)

lemma wq_fire_inv: "wq_inv q \<Longrightarrow> wq_inv (wq_fire now q)"
  unfolding wq_fire_def by (rule fold_wq_Add_inv) simp

section \<open>Runs\<close>

text \<open>
  One step of any user of the queue. \<open>Done\<close> needs the item to be in processing: the workers
  call it once for each item they got.
\<close>

inductive wq_step :: "workqueue \<Rightarrow> workqueue \<Rightarrow> bool" where
  add: "wq_step q (wq_Add x q)"
| get: "wq_Get q = (GetItem x, q') \<Longrightarrow> wq_step q q'"
| done': "x \<in> wprocessing q \<Longrightarrow> wq_step q (wq_Done x q)"
| add_after: "wq_step q (wq_AddAfter now x d q)"
| rate_limited: "wq_step q (wq_AddRateLimited b m now x q)"
| forget: "wq_step q (wq_Forget x q)"
| fire: "wq_step q (wq_fire now q)"
| shut_down: "wq_step q (wq_ShutDown q)"

lemma wq_step_inv: "wq_step q q' \<Longrightarrow> wq_inv q \<Longrightarrow> wq_inv q'"
  by (induction rule: wq_step.induct)
    (auto simp: wq_Add_inv wq_Done_inv wq_AddAfter_inv wq_fire_inv wq_AddRateLimited_def
      wq_Forget_def wq_ShutDown_def dest: wq_Get_inv [of _, unfolded snd_def])

lemma wq_reachable_inv: "wq_step\<^sup>*\<^sup>* wq_new q \<Longrightarrow> wq_inv q"
  by (induction rule: rtranclp_induct) (auto intro: wq_new_inv wq_step_inv)

text \<open>
  Property C30. In every reachable state of a work queue: \<open>Get\<close> never returns an item
  that some worker is still processing; an item added while the queue is running is dirty
  and either waiting in the queue or being processed, and if it was being processed, the
  worker's \<open>Done\<close> puts it into the queue, so the addition is never lost.
\<close>

theorem workqueue_no_lost_items:
  assumes "wq_step\<^sup>*\<^sup>* wq_new q"
  shows "(\<forall>x q'. wq_Get q = (GetItem x, q') \<longrightarrow> x \<notin> wprocessing q) \<and>
    (\<not> wshuttingDown q \<longrightarrow>
      x \<in> wdirty (wq_Add x q) \<and>
      (x \<in> wprocessing q \<longrightarrow> x \<in> set (wqueue (wq_Done x (wq_Add x q)))) \<and>
      (x \<notin> wprocessing q \<longrightarrow> x \<in> set (wqueue (wq_Add x q))))"
proof -
  have "wq_inv q" using assms by (rule wq_reachable_inv)
  then show ?thesis
    by (auto simp: wq_inv_def wq_defs split: list.splits)
qed

theorem workqueue_no_lost_items_witness:
  "''a'' \<in> set (wqueue (wq_Done ''a'' (wq_Add ''a'' (snd (wq_Get (wq_Add ''a'' wq_new))))))"
proof -
  have "wq_step wq_new (wq_Add ''a'' wq_new)" by (rule wq_step.add)
  moreover have "wq_step (wq_Add ''a'' wq_new) (snd (wq_Get (wq_Add ''a'' wq_new)))"
    by (rule wq_step.get [of _ "''a''"]) (simp add: wq_new_def wq_defs)
  ultimately have "wq_step\<^sup>*\<^sup>* wq_new (snd (wq_Get (wq_Add ''a'' wq_new)))"
    by (meson rtranclp.rtrancl_refl rtranclp.rtrancl_into_rtrancl)
  from workqueue_no_lost_items [OF this, of "''a''"] show ?thesis
    by (simp add: wq_new_def wq_defs)
qed

lemma rl_delay_bounds:
  "0 < b \<Longrightarrow> b \<le> m \<Longrightarrow> b \<le> rl_delay b m n \<and> rl_delay b m n \<le> m"
  by (auto simp: rl_delay_def Let_def)

section \<open>Delayed additions\<close>

lemma wait_insert_mem: "\<exists>u \<le> t. (x, u) \<in> set (wait_insert x t ws)"
proof (induction x t ws rule: wait_insert.induct)
  case (2 item t x u ws)
  then show ?case by (cases "x = item") (auto intro: exI [of _ "min u t"])
qed auto

lemma wait_insert_new: "x \<notin> fst ` set ws \<Longrightarrow> wait_insert x t ws = ws @ [(x, t)]"
  by (induction x t ws rule: wait_insert.induct) auto

lemma wait_insert_lower:
  "\<exists>u \<le> t. (x, u) \<in> set (wait_insert x t ws) \<and> (x \<notin> fst ` set ws \<longrightarrow> u = t)"
  using wait_insert_mem [of t x ws] wait_insert_new [of x ws t] by fastforce

lemma wq_Done_frame [simp]:
  "wwaiting (wq_Done x q) = wwaiting q" "wfailures (wq_Done x q) = wfailures q"
  "x \<notin> wprocessing (wq_Done x q)"
  by (simp_all add: wq_Done_def Let_def)

lemma wq_AddAfter_frame [simp]:
  "wprocessing (wq_AddAfter now x d q) = wprocessing q" "wfailures (wq_AddAfter now x d q) = wfailures q"
  by (simp_all add: wq_AddAfter_def wq_Add_def Let_def)

end
