(* ===== verification/Kube.thy ===== *)
theory Kube
  imports Api_Types Queue Work_Queue "HOL-Library.Multiset"
begin

text \<open>
  The state of the operator process and its environment.

  The cluster (the API server, the nodes, the clock, the file system) is not part of the
  sources: its state is a type variable \<open>'w\<close>, and what the code calls on it is a record of
  functions \<open>'w kube\<close> that every definition below takes as an argument. The YAML decoder
  and the sorting routine of the Go library, whose order of equal elements is not
  specified, are fields of that record, too. The locales \<open>pod_writes\<close> and
  \<open>cloudshell_writes\<close> state what the code relies on when it writes an object; they are
  interpreted on the in-memory cluster of \<open>Mem_Cluster\<close>.

  The process state \<open>'w sys\<close> holds the two informer caches, the worker pool
  (\<open>WorkerPool\<close> in \<open>pkg/workerpool/worker_pool.go\<close>), the controller (\<open>Controller\<close> in
  \<open>pkg/controllers/cloudshell_controller.go\<close>) and, for the properties only, the list of the
  writing calls made so far with their success. A lister returns a pointer into its cache
  and the code modifies some objects through that pointer; the model keeps the aliasing by
  naming such an object by its cache key and writing the modified object back to the cache.
\<close>

section \<open>Requests, pool and controller\<close>

text \<open>
  \<open>Resources\<close> is a pointer (an address), \<open>CloudShellQueue\<close> an interface holding a pointer.
\<close>

record Request =
  rCloudshell :: string
  rNamespace :: string
  rImage :: string
  rNodeSelector :: string
  rResources :: "nat option"
  rCloudShellQueue :: nat

record WorkerPool =
  coreWorkerLimit :: int
  maxWorkerLimit :: int
  workerQueue :: "string qtype"
  requestQueue :: "Request qtype"
  matchRequestSignal :: nat
  pqueue :: workqueue

record Controller =
  cqueue :: workqueue
  ttydServiceBufferSize :: string
  ttydPingInterval :: string
  cloudshellImage :: string
  nodeSelector :: gomap
  resources :: "nat option"

section \<open>Writing calls\<close>

datatype call =
    CreatePod pod | UpdatePod pod | DeletePod nsname
  | CreateService service | UpdateService service
  | CreateIngress ingress | UpdateIngress ingress | DeleteIngress nsname
  | CreateVirtualService virtual_service | UpdateVirtualService virtual_service
  | DeleteVirtualService nsname
  | CreateSecret secret
  | UpdateCloudShell CloudShell | UpdateCloudShellStatus CloudShell | DeleteCloudShell nsname
  | ExecPod nsname "string list"

record 'w sys =
  cluster :: 'w
  podIndexer :: "(nsname \<times> pod) list"
  csIndexer :: "(nsname \<times> CloudShell) list"
  pool :: WorkerPool
  ctrl :: Controller
  calls :: "(call \<times> bool) list"

record 'w kube =
  getPod :: "nsname \<Rightarrow> 'w \<Rightarrow> pod res \<times> 'w"
  createPod :: "pod \<Rightarrow> 'w \<Rightarrow> pod res \<times> 'w"
  updatePod :: "pod \<Rightarrow> 'w \<Rightarrow> pod res \<times> 'w"
  deletePod :: "nsname \<Rightarrow> 'w \<Rightarrow> unit res \<times> 'w"
  getCloudShell :: "nsname \<Rightarrow> 'w \<Rightarrow> CloudShell res \<times> 'w"
  updateCloudShell :: "CloudShell \<Rightarrow> 'w \<Rightarrow> CloudShell res \<times> 'w"
  updateCloudShellStatus :: "CloudShell \<Rightarrow> 'w \<Rightarrow> CloudShell res \<times> 'w"
  deleteCloudShell :: "nsname \<Rightarrow> 'w \<Rightarrow> unit res \<times> 'w"
  getService :: "nsname \<Rightarrow> 'w \<Rightarrow> service res \<times> 'w"
  createService :: "service \<Rightarrow> 'w \<Rightarrow> service res \<times> 'w"
  updateService :: "service \<Rightarrow> 'w \<Rightarrow> service res \<times> 'w"
  getIngress :: "nsname \<Rightarrow> 'w \<Rightarrow> ingress res \<times> 'w"
  createIngress :: "ingress \<Rightarrow> 'w \<Rightarrow> ingress res \<times> 'w"
  updateIngress :: "ingress \<Rightarrow> 'w \<Rightarrow> ingress res \<times> 'w"
  deleteIngress :: "nsname \<Rightarrow> 'w \<Rightarrow> unit res \<times> 'w"
  getVirtualService :: "nsname \<Rightarrow> 'w \<Rightarrow> virtual_service res \<times> 'w"
  createVirtualService :: "virtual_service \<Rightarrow> 'w \<Rightarrow> virtual_service res \<times> 'w"
  updateVirtualService :: "virtual_service \<Rightarrow> 'w \<Rightarrow> virtual_service res \<times> 'w"
  deleteVirtualService :: "nsname \<Rightarrow> 'w \<Rightarrow> unit res \<times> 'w"
  getSecret :: "nsname \<Rightarrow> 'w \<Rightarrow> secret res \<times> 'w"
  createSecret :: "secret \<Rightarrow> 'w \<Rightarrow> secret res \<times> 'w"
  listNodes :: "string \<Rightarrow> 'w \<Rightarrow> node list res \<times> 'w"
  listConfigMaps :: "string \<Rightarrow> string \<Rightarrow> 'w \<Rightarrow> gomap list res \<times> 'w"
  execPod :: "nsname \<Rightarrow> string list \<Rightarrow> 'w \<Rightarrow> unit res \<times> 'w"
  timeNow :: "'w \<Rightarrow> int \<times> 'w"
  randString :: "nat \<Rightarrow> 'w \<Rightarrow> string \<times> 'w"
  getenv :: "string \<Rightarrow> 'w \<Rightarrow> string"
  readFile :: "string \<Rightarrow> 'w \<Rightarrow> string res"
  decodePod :: "string \<Rightarrow> pod res"
  decodeService :: "string \<Rightarrow> service res"
  decodeIngress :: "string \<Rightarrow> ingress res"
  decodeVirtualService :: "string \<Rightarrow> virtual_service res"
  sortSlice :: "(pod \<Rightarrow> pod \<Rightarrow> bool) \<Rightarrow> pod list \<Rightarrow> pod list"
  deref :: "nat \<Rightarrow> ResourceSetting"

section \<open>Calling the cluster\<close>

definition client_read :: "('w \<Rightarrow> 'a res \<times> 'w) \<Rightarrow> ('w sys, 'a res) state" where
  "client_read f = State (\<lambda>s. case f (cluster s) of (r, w) \<Rightarrow> (r, s\<lparr>cluster := w\<rparr>))"

definition client_write :: "call \<Rightarrow> ('w \<Rightarrow> 'a res \<times> 'w) \<Rightarrow> ('w sys, 'a res) state" where
  "client_write c f =
     State (\<lambda>s. case f (cluster s) of (r, w) \<Rightarrow>
       (r, s\<lparr>cluster := w, calls := calls s @ [(c, is_ok r)]\<rparr>))"

definition time_Now :: "'w kube \<Rightarrow> ('w sys, int) state" where
  "time_Now K = State (\<lambda>s. case timeNow K (cluster s) of (t, w) \<Rightarrow> (t, s\<lparr>cluster := w\<rparr>))"

definition rand_String :: "'w kube \<Rightarrow> nat \<Rightarrow> ('w sys, string) state" where
  "rand_String K n = State (\<lambda>s. case randString K n (cluster s) of (t, w) \<Rightarrow> (t, s\<lparr>cluster := w\<rparr>))"

lemma run_client_read [run_simps]:
  "run_state (client_read f) s = (case f (cluster s) of (r, w) \<Rightarrow> (r, s\<lparr>cluster := w\<rparr>))"
  by (simp add: client_read_def)

lemma run_client_write [run_simps]:
  "run_state (client_write c f) s =
     (case f (cluster s) of (r, w) \<Rightarrow> (r, s\<lparr>cluster := w, calls := calls s @ [(c, is_ok r)]\<rparr>))"
  by (simp add: client_write_def)

lemma run_time_Now [run_simps]:
  "run_state (time_Now K) s = (case timeNow K (cluster s) of (t, w) \<Rightarrow> (t, s\<lparr>cluster := w\<rparr>))"
  by (simp add: time_Now_def)

lemma run_rand_String [run_simps]:
  "run_state (rand_String K n) s = (case randString K n (cluster s) of (t, w) \<Rightarrow> (t, s\<lparr>cluster := w\<rparr>))"
  by (simp add: rand_String_def)

text \<open>An invariant that does not look at the cluster or at the calls is kept by every call.\<close>

definition local_inv :: "('w sys \<Rightarrow> bool) \<Rightarrow> bool" where
  "local_inv I \<longleftrightarrow> (\<forall>s w cs. I s \<longrightarrow> I (s\<lparr>cluster := w, calls := cs\<rparr>))"

lemma local_invD: "local_inv I \<Longrightarrow> I s \<Longrightarrow> I (s\<lparr>cluster := w, calls := cs\<rparr>)"
  by (simp add: local_inv_def)

lemma local_inv_cluster: "local_inv I \<Longrightarrow> I s \<Longrightarrow> I (s\<lparr>cluster := w\<rparr>)"
  using local_invD [where I = I and s = s and w = w and cs = "calls s"] by simp

lemma keeps_client_read [keeps_rules]: "local_inv I \<Longrightarrow> keeps I (client_read f)"
  by (rule keepsI) (auto simp: run_simps local_inv_cluster split: prod.splits)

lemma keeps_client_write [keeps_rules]: "local_inv I \<Longrightarrow> keeps I (client_write c f)"
  by (rule keepsI) (auto simp: run_simps local_invD split: prod.splits)

lemma keeps_time_Now [keeps_rules]: "local_inv I \<Longrightarrow> keeps I (time_Now K)"
  by (rule keepsI) (auto simp: run_simps local_inv_cluster split: prod.splits)

lemma keeps_rand_String [keeps_rules]: "local_inv I \<Longrightarrow> keeps I (rand_String K n)"
  by (rule keepsI) (auto simp: run_simps local_inv_cluster split: prod.splits)

section \<open>Listers\<close>

text \<open>\<open>Pods(ns).Get(name)\<close>, \<open>Pods(ns).List(selector)\<close> and \<open>CloudShells(ns).Get(name)\<close> on the caches.\<close>

definition podLister_Get :: "nsname \<Rightarrow> ('w sys, pod res) state" where
  "podLister_Get k =
     gets (\<lambda>s. case map_of (podIndexer s) k of None \<Rightarrow> Err NotFound | Some p \<Rightarrow> Ok p)"

definition label_matches :: "string \<Rightarrow> string \<Rightarrow> pod \<Rightarrow> bool" where
  "label_matches key val p = (gm_lookup (Labels (pmeta p)) key = Some val)"

definition podLister_List :: "string \<Rightarrow> string \<Rightarrow> string \<Rightarrow> ('w sys, pod list) state" where
  "podLister_List ns key val =
     gets (\<lambda>s. filter (label_matches key val)
       (map snd (filter (\<lambda>((n, _), _). ns = '''' \<or> n = ns) (podIndexer s))))"

definition csLister_Get :: "nsname \<Rightarrow> ('w sys, CloudShell res) state" where
  "csLister_Get k =
     gets (\<lambda>s. case map_of (csIndexer s) k of None \<Rightarrow> Err NotFound | Some c \<Rightarrow> Ok c)"

text \<open>A modification through a pointer into a cache.\<close>

definition set_cached_pod :: "nsname \<Rightarrow> pod \<Rightarrow> 'w sys \<Rightarrow> 'w sys" where
  "set_cached_pod k p s = s\<lparr>podIndexer := AList.update k p (podIndexer s)\<rparr>"

definition set_cached_cs :: "nsname \<Rightarrow> CloudShell \<Rightarrow> 'w sys \<Rightarrow> 'w sys" where
  "set_cached_cs k c s = s\<lparr>csIndexer := AList.update k c (csIndexer s)\<rparr>"

lemma cached_pod_set [simp]:
  "map_of (podIndexer (set_cached_pod k p s)) k' =
     (if k' = k then Some p else map_of (podIndexer s) k')"
  by (simp add: set_cached_pod_def update_conv)

lemma cached_cs_set [simp]:
  "map_of (csIndexer (set_cached_cs k c s)) k' =
     (if k' = k then Some c else map_of (csIndexer s) k')"
  by (simp add: set_cached_cs_def update_conv)

lemma set_cached_pod_frame [simp]:
  "cluster (set_cached_pod k p s) = cluster s" "csIndexer (set_cached_pod k p s) = csIndexer s"
  "pool (set_cached_pod k p s) = pool s" "ctrl (set_cached_pod k p s) = ctrl s"
  "calls (set_cached_pod k p s) = calls s"
  by (simp_all add: set_cached_pod_def)

lemma set_cached_cs_frame [simp]:
  "cluster (set_cached_cs k c s) = cluster s" "podIndexer (set_cached_cs k c s) = podIndexer s"
  "pool (set_cached_cs k c s) = pool s" "ctrl (set_cached_cs k c s) = ctrl s"
  "calls (set_cached_cs k c s) = calls s"
  by (simp_all add: set_cached_cs_def)

lemma run_podLister_Get [run_simps]:
  "run_state (podLister_Get k) s =
     (case map_of (podIndexer s) k of None \<Rightarrow> Err NotFound | Some p \<Rightarrow> Ok p, s)"
  by (simp add: podLister_Get_def)

lemma run_podLister_List [run_simps]:
  "run_state (podLister_List ns key val) s =
     (filter (label_matches key val)
       (map snd (filter (\<lambda>((n, _), _). ns = '''' \<or> n = ns) (podIndexer s))), s)"
  by (simp add: podLister_List_def)

lemma run_csLister_Get [run_simps]:
  "run_state (csLister_Get k) s =
     (case map_of (csIndexer s) k of None \<Rightarrow> Err NotFound | Some c \<Rightarrow> Ok c, s)"
  by (simp add: csLister_Get_def)

lemma keeps_listers [keeps_rules]:
  "keeps I (podLister_Get k)" "keeps I (podLister_List ns key val)" "keeps I (csLister_Get k)"
  by (simp_all add: podLister_Get_def podLister_List_def csLister_Get_def keeps_gets)

section \<open>State updates of the pool and of the controller\<close>

definition upd_pool :: "(WorkerPool \<Rightarrow> WorkerPool) \<Rightarrow> ('w sys, unit) state" where
  "upd_pool f = State_Monad.update (\<lambda>s. s\<lparr>pool := f (pool s)\<rparr>)"

definition upd_ctrl :: "(Controller \<Rightarrow> Controller) \<Rightarrow> ('w sys, unit) state" where
  "upd_ctrl f = State_Monad.update (\<lambda>s. s\<lparr>ctrl := f (ctrl s)\<rparr>)"

lemma run_upd_pool [run_simps]: "run_state (upd_pool f) s = ((), s\<lparr>pool := f (pool s)\<rparr>)"
  by (simp add: upd_pool_def)

lemma run_upd_ctrl [run_simps]: "run_state (upd_ctrl f) s = ((), s\<lparr>ctrl := f (ctrl s)\<rparr>)"
  by (simp add: upd_ctrl_def)

section \<open>What a write must preserve\<close>

text \<open>
  Writing an object through the API server returns the object as stored: what the client
  sent, except for the fields the server manages (here the resource version). A stale
  resource version is refused with a conflict and stores nothing.
\<close>

locale pod_writes =
  fixes K :: "'w kube"
  assumes update_returns:
    "updatePod K p w = (Inr p', w') \<Longrightarrow> \<exists>rv. p' = p\<lparr>pmeta := (pmeta p)\<lparr>ResourceVersion := rv\<rparr>\<rparr>"
begin

lemma update_same:
  assumes "updatePod K p w = (Inr p', w')"
  shows "Containers p' = Containers p" "Conditions p' = Conditions p"
    "Name (pmeta p') = Name (pmeta p)" "Namespace (pmeta p') = Namespace (pmeta p)"
    "Labels (pmeta p') = Labels (pmeta p)" "Finalizers (pmeta p') = Finalizers (pmeta p)"
    "DeletionTimestamp (pmeta p') = DeletionTimestamp (pmeta p)"
  using update_returns [OF assms] by auto

end

locale cloudshell_writes =
  fixes K :: "'w kube"
  assumes update_cs_returns:
    "updateCloudShell K c w = (Inr c', w') \<Longrightarrow>
     \<exists>rv st. c' = c\<lparr>cmeta := (cmeta c)\<lparr>ResourceVersion := rv\<rparr>, Status := st\<rparr>"
begin

lemma update_cs_same:
  assumes "updateCloudShell K c w = (Inr c', w')"
  shows "Spec c' = Spec c" "Labels (cmeta c') = Labels (cmeta c)"
    "Finalizers (cmeta c') = Finalizers (cmeta c)" "nsname_of (cmeta c') = nsname_of (cmeta c)"
    "DeletionTimestamp (cmeta c') = DeletionTimestamp (cmeta c)"
  using update_cs_returns [OF assms] by (auto simp: nsname_of_def)

end

text \<open>
  \<open>sort.Slice\<close>: the slice is permuted, and for a comparison that is a strict weak order no
  element is less than one before it. Nothing is promised about equal elements.
\<close>

definition strict_weak :: "('a \<Rightarrow> 'a \<Rightarrow> bool) \<Rightarrow> bool" where
  "strict_weak lt \<longleftrightarrow>
     (\<forall>x y. lt x y \<longrightarrow> \<not> lt y x) \<and>
     (\<forall>x y z. lt x z \<longrightarrow> lt x y \<or> lt y z)"

locale slice_sort =
  fixes K :: "'w kube"
  assumes sort_perm: "mset (sortSlice K lt xs) = mset xs"
    and sort_sorted: "strict_weak lt \<Longrightarrow> sorted_wrt (\<lambda>x y. \<not> lt y x) (sortSlice K lt xs)"
begin

lemma sort_length: "length (sortSlice K lt xs) = length xs"
  by (metis sort_perm size_mset)

lemma sort_set: "set (sortSlice K lt xs) = set xs"
  by (metis sort_perm set_mset_mset)

text \<open>Splitting the sorted slice: nothing behind the cut is less than anything before it.\<close>

lemma sort_cut:
  assumes "strict_weak lt" "x \<in> set (take n (sortSlice K lt xs))"
    "y \<in> set (drop n (sortSlice K lt xs))"
  shows "\<not> lt y x"
proof -
  let ?l = "sortSlice K lt xs"
  have "sorted_wrt (\<lambda>x y. \<not> lt y x) (take n ?l @ drop n ?l)"
    using sort_sorted [OF assms(1)] by simp
  with assms(2,3) show ?thesis unfolding sorted_wrt_append by blast
qed

end

end
