(* ===== verification/Worker_Key.thy ===== *)
theory Worker_Key
  imports Api_Types
begin

text \<open>
  The worker keys of \<open>pkg/workerpool/worker_pool.go\<close>: a worker is filed in the worker queue
  under \<open>namespace//image//name\<close>, and \<open>SplitWorkerKey\<close> takes the key apart again when a
  request is matched. Shown: splitting inverts key building, so a key determines its
  worker, for every namespace, image and name in which the separator cannot hide.
\<close>

definition SplitWorkerKey :: "string \<Rightarrow> (string \<times> string \<times> string) res" where
  "SplitWorkerKey key =
     (let parts = Split key ''//''
      in if length parts = 2 then Ok ('''', parts ! 1, parts ! 0)
         else if length parts = 3 then Ok (parts ! 0, parts ! 2, parts ! 1)
         else Err (Failure ''unexpected key format''))"

definition web_tty_image :: "container list \<Rightarrow> string" where
  "web_tty_image cs =
     (case find (\<lambda>c. CName c = ''web-tty'') cs of None \<Rightarrow> '''' | Some c \<Rightarrow> CImage c)"

definition WorkerKeyFunc :: "obj \<Rightarrow> string res" where
  "WorkerKeyFunc obj =
     (case obj of
        ObjPod worker \<Rightarrow>
          (let img = web_tty_image (Containers worker);
               ns = Namespace (pmeta worker);
               name = Name (pmeta worker)
           in if length img = 0 then Err (Failure ''web-tty container image not found'')
              else if length ns > 0 then Ok (ns @ ''//'' @ img @ ''//'' @ name)
              else Ok (img @ ''//'' @ name))
      | _ \<Rightarrow> Err (Failure ''no support the type struct''))"

text \<open>The callers drop the error: \<open>key, _ := WorkerKeyFunc(worker)\<close>.\<close>

definition worker_key :: "pod \<Rightarrow> string" where
  "worker_key worker = (case WorkerKeyFunc (ObjPod worker) of Inl _ \<Rightarrow> '''' | Inr k \<Rightarrow> k)"

definition split_key :: "string \<Rightarrow> string \<times> string \<times> string" where
  "split_key key = (case SplitWorkerKey key of Inl _ \<Rightarrow> ('''', '''', '''') | Inr p \<Rightarrow> p)"

section \<open>Keys that can be taken apart\<close>

definition key_parts_ok :: "string \<Rightarrow> string \<Rightarrow> string \<Rightarrow> bool" where
  "key_parts_ok ns img name =
     (segment_ok ns \<and> segment_ok img \<and> img \<noteq> '''' \<and> \<not> Contains name ''//'')"

definition worker_ok :: "pod \<Rightarrow> bool" where
  "worker_ok p =
     key_parts_ok (Namespace (pmeta p)) (web_tty_image (Containers p)) (Name (pmeta p))"

lemma no_slash_segment_ok: "CHR ''/'' \<notin> set a \<Longrightarrow> segment_ok a"
  by (auto simp: segment_ok_def Contains_def HasSuffix_def sublist_def suffix_def)

lemma no_slash_no_double: "CHR ''/'' \<notin> set a \<Longrightarrow> \<not> Contains a ''//''"
  by (auto simp: Contains_def sublist_def)

lemma SplitWorkerKey_three:
  "key_parts_ok ns img name \<Longrightarrow>
   SplitWorkerKey (ns @ ''//'' @ img @ ''//'' @ name) = Ok (ns, name, img)"
  by (simp add: SplitWorkerKey_def key_parts_ok_def Split_double [simplified]
      Split_double_end)

lemma SplitWorkerKey_two:
  "key_parts_ok ns img name \<Longrightarrow> SplitWorkerKey (img @ ''//'' @ name) = Ok ('''', name, img)"
  by (simp add: SplitWorkerKey_def key_parts_ok_def Split_double [simplified]
      Split_double_end)

text \<open>
  Property C31. For a worker pod whose web-tty image is not empty and in whose namespace,
  image and name the separator \<open>//\<close> cannot hide, \<open>WorkerKeyFunc\<close> succeeds and
  \<open>SplitWorkerKey\<close> returns exactly the namespace, the name and the image of the pod; hence
  two such workers with the same key agree in all three.
\<close>

theorem worker_key_roundtrip:
  assumes "worker_ok p"
  shows "WorkerKeyFunc (ObjPod p) = Ok (worker_key p) \<and>
    SplitWorkerKey (worker_key p) =
      Ok (Namespace (pmeta p), Name (pmeta p), web_tty_image (Containers p)) \<and>
    (\<forall>p'. worker_ok p' \<and> worker_key p' = worker_key p \<longrightarrow>
       nsname_of (pmeta p') = nsname_of (pmeta p) \<and>
       web_tty_image (Containers p') = web_tty_image (Containers p))"
proof -
  have split: "SplitWorkerKey (worker_key q) =
      Ok (Namespace (pmeta q), Name (pmeta q), web_tty_image (Containers q))" if "worker_ok q" for q
    using that SplitWorkerKey_three SplitWorkerKey_two
    by (auto simp: worker_ok_def worker_key_def WorkerKeyFunc_def Let_def key_parts_ok_def)
  have "WorkerKeyFunc (ObjPod p) = Ok (worker_key p)"
    using assms by (simp add: worker_ok_def worker_key_def WorkerKeyFunc_def Let_def key_parts_ok_def)
  with split [OF assms] show ?thesis by (auto dest: split simp: nsname_of_def)
qed

lemma split_worker_key:
  assumes "worker_ok p"
  shows "split_key (worker_key p) = (Namespace (pmeta p), Name (pmeta p), web_tty_image (Containers p))"
proof -
  have "SplitWorkerKey (worker_key p) =
      Ok (Namespace (pmeta p), Name (pmeta p), web_tty_image (Containers p))"
    using assms SplitWorkerKey_three SplitWorkerKey_two
    by (auto simp: worker_ok_def worker_key_def WorkerKeyFunc_def Let_def key_parts_ok_def)
  then show ?thesis by (simp add: split_key_def)
qed

definition sample_worker :: pod where
  "sample_worker =
     \<lparr>pmeta = blank_meta ''default'' ''cloudshell-worker-abc'',
      Containers = [\<lparr>CName = ''web-tty'', CImage = DefaultTtydImage\<rparr>],
      Conditions = [\<lparr>CondType = ''Ready'', CondStatus = ''True'', LastTransitionTime = Some 0\<rparr>]\<rparr>"

lemma sample_worker_ok: "worker_ok sample_worker"
  by code_simp

theorem worker_key_roundtrip_witness:
  "SplitWorkerKey (worker_key sample_worker) =
     Ok (''default'', ''cloudshell-worker-abc'', ''ghcr.io/cloudtty/cloudshell:v0.8.10'')"
  using worker_key_roundtrip [OF sample_worker_ok]
  by (simp add: sample_worker_def blank_meta_def web_tty_image_def DefaultTtydImage_def)

text \<open>Where the separator can hide, the key is not taken apart correctly.\<close>

lemma key_with_final_slash:
  "split_key (''ns'' @ ''//'' @ ''img/'' @ ''//'' @ ''w'') = (''ns'', ''/w'', ''img'')"
  by code_simp

end
