(* ===== verification/Pod_Utils.thy ===== *)
theory Pod_Utils
  imports Api_Types
begin

text \<open>
  Readiness of pods, \<open>pkg/utils/pod.go\<close>. The current time is an argument. A nil condition
  that the code dereferences is a panic of the model.
\<close>

fun getPodConditionFromList_from :: "nat \<Rightarrow> pod_condition list \<Rightarrow> string \<Rightarrow> int \<times> pod_condition option"
  where
  "getPodConditionFromList_from i [] ty = (-1, None)"
| "getPodConditionFromList_from i (c # cs) ty =
     (if CondType c = ty then (int i, Some c) else getPodConditionFromList_from (Suc i) cs ty)"

definition getPodConditionFromList :: "pod_condition list \<Rightarrow> string \<Rightarrow> int \<times> pod_condition option" where
  "getPodConditionFromList conditions ty = getPodConditionFromList_from 0 conditions ty"

definition getPodCondition :: "pod_condition list \<Rightarrow> string \<Rightarrow> int \<times> pod_condition option" where
  "getPodCondition conditions ty = getPodConditionFromList conditions ty"

definition GetPodReadyCondition :: "pod_condition list \<Rightarrow> pod_condition option" where
  "GetPodReadyCondition conditions = snd (getPodCondition conditions ''Ready'')"

definition IsPodReadyConditionTrue :: "pod_condition list \<Rightarrow> bool" where
  "IsPodReadyConditionTrue conditions =
     (case GetPodReadyCondition conditions of
        None \<Rightarrow> False
      | Some condition \<Rightarrow> CondStatus condition = ''True'')"

definition IsPodReady :: "pod \<Rightarrow> bool" where
  "IsPodReady pod' = IsPodReadyConditionTrue (Conditions pod')"

definition getPodReadyCondition :: "pod_condition list \<Rightarrow> pod_condition option" where
  "getPodReadyCondition conditions = snd (getPodCondition conditions ''Ready'')"

definition IsPodNotAvailable :: "int \<Rightarrow> pod \<Rightarrow> int \<Rightarrow> bool res" where
  "IsPodNotAvailable now pod' minNotReadySeconds =
     (if IsPodReady pod' then Ok False
      else if minNotReadySeconds = 0 then Ok True
      else case getPodReadyCondition (Conditions pod') of
             None \<Rightarrow> Err (GoPanic ''nil pointer dereference'')
           | Some c \<Rightarrow>
               (case LastTransitionTime c of
                  None \<Rightarrow> Ok False
                | Some t \<Rightarrow> Ok (t + minNotReadySeconds * 10 ^ 9 < now)))"

lemma getPodReadyCondition_alike [simp]: "getPodReadyCondition = GetPodReadyCondition"
  by (simp add: fun_eq_iff getPodReadyCondition_def GetPodReadyCondition_def)

lemma getPodConditionFromList_find:
  "snd (getPodConditionFromList_from i cs ty) = find (\<lambda>c. CondType c = ty) cs"
  by (induction cs arbitrary: i) simp_all

lemma GetPodReadyCondition_find: "GetPodReadyCondition cs = find (\<lambda>c. CondType c = ''Ready'') cs"
  by (simp add: GetPodReadyCondition_def getPodCondition_def getPodConditionFromList_def
      getPodConditionFromList_find)

lemma getPodConditionFromList_index:
  "getPodConditionFromList_from i cs ty = (j, r) \<Longrightarrow>
   (case r of
      None \<Rightarrow> j = -1 \<and> (\<forall>c \<in> set cs. CondType c \<noteq> ty)
    | Some c \<Rightarrow> int i \<le> j \<and> nat j - i < length cs \<and> cs ! (nat j - i) = c \<and> CondType c = ty \<and>
        (\<forall>k < nat j - i. CondType (cs ! k) \<noteq> ty))"
proof (induction cs arbitrary: i)
  case Nil
  then show ?case by auto
next
  case (Cons d cs)
  show ?case
  proof (cases "CondType d = ty")
    case True
    with Cons.prems show ?thesis by auto
  next
    case False
    with Cons.prems have rest: "getPodConditionFromList_from (Suc i) cs ty = (j, r)" by simp
    show ?thesis
    proof (cases r)
      case None
      with Cons.IH [OF rest] False show ?thesis by simp
    next
      case (Some c)
      with Cons.IH [OF rest] have h: "int (Suc i) \<le> j" "nat j - Suc i < length cs"
        "cs ! (nat j - Suc i) = c" "CondType c = ty"
        "\<forall>k < nat j - Suc i. CondType (cs ! k) \<noteq> ty" by simp_all
      then have eq: "nat j - i = Suc (nat j - Suc i)" by linarith
      have "\<forall>k < nat j - i. CondType ((d # cs) ! k) \<noteq> ty"
        unfolding eq using h(5) False by (auto simp: less_Suc_eq_0_disj)
      with h eq Some show ?thesis by simp
    qed
  qed
qed

text \<open>
  \<open>getPodConditionFromList\<close> returns \<open>-1\<close> and nil exactly when no condition
  has the wanted type, and otherwise the first condition of that type together with its
  index; a pod is ready if and only if its first \<open>Ready\<close> condition has status \<open>True\<close>.
\<close>

theorem pod_condition_lookup:
  "(case getPodConditionFromList cs ty of
      (j, None) \<Rightarrow> j = -1 \<and> (\<forall>c \<in> set cs. CondType c \<noteq> ty)
    | (j, Some c) \<Rightarrow> 0 \<le> j \<and> nat j < length cs \<and> cs ! nat j = c \<and> CondType c = ty \<and>
        (\<forall>k < nat j. CondType (cs ! k) \<noteq> ty)) \<and>
   (IsPodReady p \<longleftrightarrow>
      (\<exists>c. find (\<lambda>c. CondType c = ''Ready'') (Conditions p) = Some c \<and> CondStatus c = ''True''))"
proof -
  have "IsPodReady p \<longleftrightarrow>
      (\<exists>c. find (\<lambda>c. CondType c = ''Ready'') (Conditions p) = Some c \<and> CondStatus c = ''True'')"
    by (simp add: IsPodReady_def IsPodReadyConditionTrue_def GetPodReadyCondition_find split: option.split)
  moreover obtain j r where jr: "getPodConditionFromList_from 0 cs ty = (j, r)" by fastforce
  ultimately show ?thesis
    using getPodConditionFromList_index [OF jr]
    by (auto simp: getPodConditionFromList_def split: option.splits)
qed

theorem pod_condition_lookup_witness:
  "(let cs = [\<lparr>CondType = ''PodScheduled'', CondStatus = ''True'', LastTransitionTime = None\<rparr>,
              \<lparr>CondType = ''Ready'', CondStatus = ''True'', LastTransitionTime = Some 3\<rparr>]
    in case getPodConditionFromList cs ''Ready'' of
         (j, Some c) \<Rightarrow> 0 \<le> j \<and> cs ! nat j = c \<and> CondStatus c = ''True''
       | (j, None) \<Rightarrow> False)"
  using pod_condition_lookup [where ty = "''Ready''" and
      cs = "[\<lparr>CondType = ''PodScheduled'', CondStatus = ''True'', LastTransitionTime = None\<rparr>,
             \<lparr>CondType = ''Ready'', CondStatus = ''True'', LastTransitionTime = Some 3\<rparr>]"]
  by (simp add: getPodConditionFromList_def)

text \<open>
  \<open>IsPodNotAvailable\<close>, asked with a positive grace period, answers true
  exactly for a pod that is not ready and whose \<open>Ready\<close> condition changed longer ago than
  the period; it panics exactly on a pod that has no \<open>Ready\<close> condition at all, since the
  condition it dereferences is then nil.
\<close>

theorem IsPodNotAvailable_spec:
  assumes "0 < secs"
  shows "(IsPodNotAvailable now p secs = Ok True \<longleftrightarrow>
      \<not> IsPodReady p \<and>
      (\<exists>c t. find (\<lambda>c. CondType c = ''Ready'') (Conditions p) = Some c \<and>
         LastTransitionTime c = Some t \<and> t + secs * 10 ^ 9 < now)) \<and>
    ((\<exists>m. IsPodNotAvailable now p secs = Err (GoPanic m)) \<longleftrightarrow>
      (\<forall>c \<in> set (Conditions p). CondType c \<noteq> ''Ready''))"
proof -
  have none: "(\<forall>c \<in> set (Conditions p). CondType c \<noteq> ''Ready'') \<longleftrightarrow>
      find (\<lambda>c. CondType c = ''Ready'') (Conditions p) = None"
    by (auto simp: find_None_iff)
  show ?thesis
    unfolding none using assms
    by (auto simp: IsPodNotAvailable_def GetPodReadyCondition_find IsPodReady_def
        IsPodReadyConditionTrue_def split: option.splits)
qed

theorem IsPodNotAvailable_spec_witness:
  "(\<exists>m. IsPodNotAvailable 0
      \<lparr>pmeta = blank_meta ''d'' ''w'', Containers = [],
       Conditions = [\<lparr>CondType = ''PodScheduled'', CondStatus = ''False'', LastTransitionTime = Some 0\<rparr>]\<rparr>
      1800 = Err (GoPanic m))"
  using IsPodNotAvailable_spec [where secs = 1800 and now = 0 and
      p = "\<lparr>pmeta = blank_meta ''d'' ''w'', Containers = [],
       Conditions = [\<lparr>CondType = ''PodScheduled'', CondStatus = ''False'', LastTransitionTime = Some 0\<rparr>]\<rparr>"]
  by simp

lemma ready_is_available: "IsPodReady p \<Longrightarrow> IsPodNotAvailable now p secs = Ok False"
  by (simp add: IsPodNotAvailable_def)

end
