(* ===== verification/Manifests.thy ===== *)
theory Manifests
  imports Api_Types "HOL-Library.List_Lexorder" "HOL-Library.Char_ord"
begin

text \<open>
  The manifests of \<open>pkg/manifests/manifests.go\<close> as \<open>util.ParseTemplate\<close>
  (\<open>pkg/utils/util.go\<close>, Go's \<open>text/template\<close>) renders them: the text of each template with
  its fields filled in, the white space that a trimming action drops left out, and maps
  ranged over in the order of their keys. Rendering these constant templates over these
  structs has no error path; \<open>Templates\<close> proves both from the templates themselves. Nothing is
  escaped: a value is copied as it is.
\<close>

definition nl :: string where "nl = [CHR 0x0A]"

definition dq :: string where "dq = [CHR 0x22]"

definition quote :: "string \<Rightarrow> string" where "quote s = dq @ s @ dq"

text \<open>Every line is preceded by a newline; the templates begin with one.\<close>

definition lines :: "string list \<Rightarrow> string" where
  "lines ls = concat (map (\<lambda>l. nl @ l) ls)"

definition sorted_entries :: "gomap \<Rightarrow> (string \<times> string) list" where
  "sorted_entries m =
     map (\<lambda>k. (k, gm_get m k)) (sort (remdups (map fst (entries m))))"

text \<open>\<open>ResourceList.Cpu\<close> and \<open>Memory\<close>: the zero quantity where the resource is not listed.\<close>

definition quantity :: "gomap \<Rightarrow> string \<Rightarrow> string" where
  "quantity rl name = (case gm_lookup rl name of None \<Rightarrow> ''0'' | Some q \<Rightarrow> q)"

definition render_resource_list :: "string \<Rightarrow> gomap \<Rightarrow> string" where
  "render_resource_list title rl =
     (if gm_len rl > 0
      then lines [''      '' @ title @ '':'',
                  ''        cpu: '' @ quantity rl ''cpu'',
                  ''        memory: '' @ quantity rl ''memory'']
      else '''')"

definition PodTmplV1 :: "string \<Rightarrow> string \<Rightarrow> string \<Rightarrow> gomap \<Rightarrow> ResourceSetting option \<Rightarrow> string" where
  "PodTmplV1 name ns img nodeSelector resources =
     lines [''apiVersion: v1'', ''kind: Pod'', ''metadata:'',
            ''  namespace: '' @ quote ns,
            ''  name: '' @ quote name,
            ''spec:'', ''  containers:'', ''  - name: web-tty'',
            ''    image: '' @ quote img,
            ''    imagePullPolicy: IfNotPresent'',
            ''    command:'', ''    - /bin/bash'', ''    - -ec'', ''    - |'',
            ''      while :; do sleep 2073600; done'',
            ''    ports:'', ''    - containerPort: 7681'', ''      name: tty-ui'',
            ''      protocol: TCP''] @
     (case resources of
        None \<Rightarrow> ''''
      | Some r \<Rightarrow> lines [''    resources:''] @
                  render_resource_list ''requests'' (Requests r) @
                  render_resource_list ''limits'' (Limits r)) @
     lines [''  nodeSelector:'', ''  ''] @
     concat (map (\<lambda>(k, v). lines [''    '' @ k @ '': '' @ quote v, ''  ''])
       (sorted_entries nodeSelector)) @
     lines [''  restartPolicy: Never'', '''']"

definition ServiceTmplV1 :: "string \<Rightarrow> string \<Rightarrow> string \<Rightarrow> string \<Rightarrow> string" where
  "ServiceTmplV1 name ns worker type =
     lines [''apiVersion: v1'', ''kind: Service'', ''metadata:'',
            ''  name: '' @ quote name,
            ''  namespace: '' @ quote ns,
            ''spec:'', ''  ports:'', ''  - name: ttyd'', ''    port: 7681'',
            ''    protocol: TCP'', ''    targetPort: 7681'', ''  selector:'',
            ''    worker.cloudtty.io/name: '' @ quote worker,
            ''  type: '' @ type, '''']"

definition IngressTmplV1 ::
  "string \<Rightarrow> string \<Rightarrow> string \<Rightarrow> string \<Rightarrow> string \<Rightarrow> gomap \<Rightarrow> string \<Rightarrow> string" where
  "IngressTmplV1 name ns ingressClassName path serviceName annotations host =
     lines [''apiVersion: networking.k8s.io/v1'', ''kind: Ingress'', ''metadata:'',
            ''  name: '' @ quote name,
            ''  namespace: '' @ quote ns,
            ''  annotations:'',
            ''    nginx.ingress.kubernetes.io/rewrite-target: /''] @
     concat (map (\<lambda>(k, v). lines [''    '' @ k @ '': '' @ quote v]) (sorted_entries annotations)) @
     lines [''spec:'',
            ''  ingressClassName: '' @ quote ingressClassName,
            ''  rules:'', ''  - http:'', ''      paths:'',
            ''      - path: '' @ quote path,
            ''        pathType: Prefix'', ''        backend:'', ''          service:'',
            ''            name: '' @ quote serviceName,
            ''            port:'', ''              number: 7681''] @
     (if host \<noteq> '''' then lines [''    host: '' @ quote host] else '''') @
     lines ['''']"

definition VirtualServiceV1Beta1 ::
  "string \<Rightarrow> string \<Rightarrow> string \<Rightarrow> string \<Rightarrow> string \<Rightarrow> string \<Rightarrow> string" where
  "VirtualServiceV1Beta1 name ns exportTo gateway path serviceName =
     lines [''apiVersion: networking.istio.io/v1beta1'', ''kind: VirtualService'', ''metadata:'',
            ''  name: '' @ quote name,
            ''  namespace: '' @ quote ns,
            ''spec:'', ''  exportTo:'', ''  - '' @ quote exportTo,
            ''  gateways:'', ''  - '' @ quote gateway,
            ''  hosts:'', ''  - '' @ [CHR 0x27] @ ''*'' @ [CHR 0x27],
            ''  http:'', ''  - match:'', ''    - uri:'',
            ''        prefix: '' @ quote path,
            ''    rewrite:'', ''      uri: /'', ''    route:'', ''    - destination:'',
            ''        host: '' @ quote (serviceName @ ''.'' @ ns @ ''.svc.cluster.local''),
            ''        port:'', ''          number: 7681'', '''']"

definition KubeconfigTmplV1 :: "string \<Rightarrow> string \<Rightarrow> string \<Rightarrow> string" where
  "KubeconfigTmplV1 caData server token =
     lines [''apiVersion: v1'', ''clusters:'', ''- cluster:'',
            ''    certificate-authority-data: '' @ quote caData,
            ''    server: '' @ server,
            ''  name: kubernetes'', ''contexts:'', ''- context:'', ''    cluster: kubernetes'',
            ''    user: cloudtty-controller-manager'',
            ''  name: cloudtty-controller-manager@kubernetes'',
            ''current-context: cloudtty-controller-manager@kubernetes'',
            ''kind: Config'', ''users:'', ''- name: cloudtty-controller-manager'',
            ''  user: '', ''    token: '' @ quote token, '''']"

lemma map_of_tabulate: "map_of (map (\<lambda>k. (k, f k)) xs) k = (if k \<in> set xs then Some (f k) else None)"
  by (induction xs) auto

lemma sorted_entries_lookup: "map_of (sorted_entries m) k = gm_lookup m k"
proof -
  have "k \<in> fst ` set (entries m) \<longleftrightarrow> gm_lookup m k \<noteq> None"
    by (simp add: gm_lookup_def map_of_eq_None_iff)
  then show ?thesis
    by (simp add: sorted_entries_def map_of_tabulate gm_get_def split: option.split)
qed

end
