(* ===== verification/GoEncoding.thy ===== *)
theory GoEncoding
  imports GoStrings "HOL-Library.Word"
begin

unbundle bit_operations_syntax

text \<open>
  The encodings of Go's standard library that the controller uses, on strings as lists of
  bytes: \<open>encoding/hex\<close>, \<open>encoding/base64\<close> and \<open>crypto/md5\<close> (RFC 1321).
\<close>

section \<open>Hexadecimal\<close>

definition hex_digit :: "nat \<Rightarrow> char" where
  "hex_digit d = (if d < 10 then char_of (48 + d) else char_of (87 + d))"

definition hex_byte :: "nat \<Rightarrow> string" where
  "hex_byte b = [hex_digit (b div 16), hex_digit (b mod 16)]"

definition hex_EncodeToString :: "nat list \<Rightarrow> string" where
  "hex_EncodeToString bs = concat (map hex_byte bs)"

lemma length_hex [simp]: "length (hex_EncodeToString bs) = 2 * length bs"
  by (induction bs) (simp_all add: hex_EncodeToString_def hex_byte_def)

section \<open>Base64\<close>

definition base64_alphabet :: string where
  "base64_alphabet = ''ABCDEFGHIJKLMNOPQRSTUVWXYZabcdefghijklmnopqrstuvwxyz0123456789+/''"

fun base64_bytes :: "nat list \<Rightarrow> string" where
  "base64_bytes [] = ''''"
| "base64_bytes [a] =
     [base64_alphabet ! (a div 4), base64_alphabet ! (16 * (a mod 4)), CHR ''='', CHR ''='']"
| "base64_bytes [a, b] =
     [base64_alphabet ! (a div 4), base64_alphabet ! (16 * (a mod 4) + b div 16),
      base64_alphabet ! (4 * (b mod 16)), CHR ''='']"
| "base64_bytes (a # b # c # rest) =
     [base64_alphabet ! (a div 4), base64_alphabet ! (16 * (a mod 4) + b div 16),
      base64_alphabet ! (4 * (b mod 16) + c div 64), base64_alphabet ! (c mod 64)] @ base64_bytes rest"

definition base64_EncodeToString :: "string \<Rightarrow> string" where
  "base64_EncodeToString s = base64_bytes (map of_char s)"

section \<open>MD5\<close>

type_synonym word32 = "32 word"

definition md5_table :: "word32 list" where
  "md5_table =
     [
      0xD76AA478, 0xE8C7B756, 0x242070DB, 0xC1BDCEEE,
      0xF57C0FAF, 0x4787C62A, 0xA8304613, 0xFD469501,
      0x698098D8, 0x8B44F7AF, 0xFFFF5BB1, 0x895CD7BE,
      0x6B901122, 0xFD987193, 0xA679438E, 0x49B40821,
      0xF61E2562, 0xC040B340, 0x265E5A51, 0xE9B6C7AA,
      0xD62F105D, 0x02441453, 0xD8A1E681, 0xE7D3FBC8,
      0x21E1CDE6, 0xC33707D6, 0xF4D50D87, 0x455A14ED,
      0xA9E3E905, 0xFCEFA3F8, 0x676F02D9, 0x8D2A4C8A,
      0xFFFA3942, 0x8771F681, 0x6D9D6122, 0xFDE5380C,
      0xA4BEEA44, 0x4BDECFA9, 0xF6BB4B60, 0xBEBFBC70,
      0x289B7EC6, 0xEAA127FA, 0xD4EF3085, 0x04881D05,
      0xD9D4D039, 0xE6DB99E5, 0x1FA27CF8, 0xC4AC5665,
      0xF4292244, 0x432AFF97, 0xAB9423A7, 0xFC93A039,
      0x655B59C3, 0x8F0CCC92, 0xFFEFF47D, 0x85845DD1,
      0x6FA87E4F, 0xFE2CE6E0, 0xA3014314, 0x4E0811A1,
      0xF7537E82, 0xBD3AF235, 0x2AD7D2BB, 0xEB86D391]"

definition md5_shift :: "nat \<Rightarrow> nat" where
  "md5_shift i =
     [7, 12, 17, 22, 5, 9, 14, 20, 4, 11, 16, 23, 6, 10, 15, 21] ! (4 * (i div 16) + i mod 4)"

definition md5_mix :: "nat \<Rightarrow> word32 \<Rightarrow> word32 \<Rightarrow> word32 \<Rightarrow> word32" where
  "md5_mix i b c d =
     (if i < 16 then (b AND c) OR (NOT b AND d)
      else if i < 32 then (d AND b) OR (NOT d AND c)
      else if i < 48 then b XOR c XOR d
      else c XOR (b OR NOT d))"

definition md5_index :: "nat \<Rightarrow> nat" where
  "md5_index i =
     (if i < 16 then i else if i < 32 then (5 * i + 1) mod 16
      else if i < 48 then (3 * i + 5) mod 16 else (7 * i) mod 16)"

type_synonym md5_state = "word32 \<times> word32 \<times> word32 \<times> word32"

definition md5_round :: "word32 list \<Rightarrow> md5_state \<Rightarrow> nat \<Rightarrow> md5_state" where
  "md5_round m st i =
     (case st of (a, b, c, d) \<Rightarrow>
        (d, b + word_rotl (md5_shift i)
                 (a + md5_mix i b c d + md5_table ! i + m ! md5_index i), b, c))"

definition md5_block :: "md5_state \<Rightarrow> word32 list \<Rightarrow> md5_state" where
  "md5_block st m =
     (case (st, foldl (md5_round m) st [0..<64]) of
        ((a0, b0, c0, d0), (a, b, c, d)) \<Rightarrow> (a0 + a, b0 + b, c0 + c, d0 + d))"

text \<open>Little-endian bytes of a number, and words of four bytes.\<close>

fun le_bytes :: "nat \<Rightarrow> nat \<Rightarrow> nat list" where
  "le_bytes 0 n = []"
| "le_bytes (Suc k) n = (n mod 256) # le_bytes k (n div 256)"

fun le_words :: "nat list \<Rightarrow> word32 list" where
  "le_words (a # b # c # d # rest) =
     of_nat (a + 256 * (b + 256 * (c + 256 * d))) # le_words rest"
| "le_words _ = []"

definition md5_pad :: "nat list \<Rightarrow> nat list" where
  "md5_pad bs =
     bs @ [128] @ replicate ((119 - length bs mod 64) mod 64) 0 @ le_bytes 8 (8 * length bs)"

fun blocks :: "nat \<Rightarrow> word32 list \<Rightarrow> word32 list list" where
  "blocks 0 ws = []"
| "blocks (Suc n) ws = take 16 ws # blocks n (drop 16 ws)"

definition md5_Sum :: "string \<Rightarrow> nat list" where
  "md5_Sum s =
     (let ws = le_words (md5_pad (map of_char s))
      in case foldl md5_block (0x67452301, 0xEFCDAB89, 0x98BADCFE, 0x10325476)
                (blocks (length ws div 16) ws) of
           (a, b, c, d) \<Rightarrow> concat (map (\<lambda>w. le_bytes 4 (unat w)) [a, b, c, d]))"

lemma length_le_bytes [simp]: "length (le_bytes k n) = k"
  by (induction k arbitrary: n) simp_all

lemma length_md5_Sum [simp]: "length (md5_Sum s) = 16"
  by (simp add: md5_Sum_def Let_def split: prod.split)

end
