(* ===== verification/GoJSON.thy ===== *)
theory GoJSON
  imports Manifests GoEncoding
begin

text \<open>
  \<open>MapToJSONString\<close> and \<open>JSONStringToMap\<close> of \<open>pkg/utils/util.go\<close>, with what they use of Go's
  \<open>encoding/json\<close> and \<open>unicode/utf8\<close>: strings are sequences of bytes, \<open>Marshal\<close> escapes them
  for HTML and replaces bytes that are no UTF-8, and \<open>Unmarshal\<close> into a \<open>map[string]string\<close>
  accepts \<open>null\<close> and objects whose values are strings or \<open>null\<close>. Everything else, be it no
  JSON or JSON of another shape, is an error.

  Shown: reading undoes writing, and two maps are written alike exactly if they are equal,
  whatever the iteration order of the Go maps.
\<close>

section \<open>UTF-8\<close>

type_synonym bytes = "nat list"

abbreviation RuneError :: nat where "RuneError \<equiv> 0xFFFD"

text \<open>The table \<open>first\<close> of \<open>unicode/utf8\<close>: size and range of the second byte, by the first one.\<close>

definition utf8_lead :: "nat \<Rightarrow> (nat \<times> nat \<times> nat) option" where
  "utf8_lead b =
     (if b < 0xC2 then None
      else if b < 0xE0 then Some (2, 0x80, 0xBF)
      else if b = 0xE0 then Some (3, 0xA0, 0xBF)
      else if b = 0xED then Some (3, 0x80, 0x9F)
      else if b < 0xF0 then Some (3, 0x80, 0xBF)
      else if b = 0xF0 then Some (4, 0x90, 0xBF)
      else if b < 0xF4 then Some (4, 0x80, 0xBF)
      else if b = 0xF4 then Some (4, 0x80, 0x8F)
      else None)"

definition is_cont :: "nat \<Rightarrow> bool" where
  "is_cont b \<longleftrightarrow> 0x80 \<le> b \<and> b \<le> 0xBF"

text \<open>
  \<open>utf8.DecodeRune\<close>: the rune and its size; \<open>RuneError\<close> of size 1 where there is none, of
  size 0 at the end.
\<close>

definition rune_at :: "bytes \<Rightarrow> (nat \<times> nat) option" where
  "rune_at bs =
     (case bs of
        [] \<Rightarrow> None
      | b0 # r0 \<Rightarrow>
          if b0 < 0x80 then Some (b0, 1)
          else (case (utf8_lead b0, r0) of
            (Some (n, lo, hi), b1 # r1) \<Rightarrow>
              if b1 < lo \<or> hi < b1 then None
              else if n = 2 then Some ((b0 - 0xC0) * 64 + (b1 - 0x80), 2)
              else (case r1 of
                b2 # r2 \<Rightarrow>
                  if \<not> is_cont b2 then None
                  else if n = 3 then Some (((b0 - 0xE0) * 64 + (b1 - 0x80)) * 64 + (b2 - 0x80), 3)
                  else (case r2 of
                    b3 # _ \<Rightarrow>
                      if \<not> is_cont b3 then None
                      else Some ((((b0 - 0xF0) * 64 + (b1 - 0x80)) * 64 + (b2 - 0x80)) * 64 + (b3 - 0x80), 4)
                  | [] \<Rightarrow> None)
              | [] \<Rightarrow> None)
          | _ \<Rightarrow> None))"

definition DecodeRune :: "bytes \<Rightarrow> nat \<times> nat" where
  "DecodeRune bs =
     (case rune_at bs of None \<Rightarrow> (RuneError, if bs = [] then 0 else 1) | Some cn \<Rightarrow> cn)"

definition is_surrogate :: "nat \<Rightarrow> bool" where
  "is_surrogate c \<longleftrightarrow> 0xD800 \<le> c \<and> c < 0xE000"

text \<open>\<open>utf8.EncodeRune\<close>.\<close>

definition EncodeRune :: "nat \<Rightarrow> bytes" where
  "EncodeRune c =
     (if c < 0x80 then [c]
      else if c < 0x800 then [0xC0 + c div 64, 0x80 + c mod 64]
      else if 0x10FFFF < c \<or> is_surrogate c then [0xEF, 0xBF, 0xBD]
      else if c < 0x10000 then [0xE0 + c div 4096, 0x80 + c div 64 mod 64, 0x80 + c mod 64]
      else [0xF0 + c div 262144, 0x80 + c div 4096 mod 64, 0x80 + c div 64 mod 64, 0x80 + c mod 64])"

text \<open>\<open>utf8.Valid\<close>, and the bytes with every byte that starts no rune replaced by U+FFFD.\<close>

fun utf8_Valid :: "bytes \<Rightarrow> bool" where
  "utf8_Valid [] = True"
| "utf8_Valid (b # r) =
     (case rune_at (b # r) of None \<Rightarrow> False | Some (c, n) \<Rightarrow> utf8_Valid (drop (n - 1) r))"

fun to_valid :: "bytes \<Rightarrow> bytes" where
  "to_valid [] = []"
| "to_valid (b # r) =
     (case DecodeRune (b # r) of (c, n) \<Rightarrow> EncodeRune c @ to_valid (drop (n - 1) r))"

lemma rune_at_multi:
  assumes "rune_at (b0 # r0) = Some (c, n)" "\<not> b0 < 0x80"
  obtains lo hi b1 r1 where "utf8_lead b0 = Some (2, lo, hi)" "r0 = b1 # r1" "lo \<le> b1" "b1 \<le> hi"
      "n = 2" "c = (b0 - 0xC0) * 64 + (b1 - 0x80)"
  | lo hi b1 b2 r2 where "utf8_lead b0 = Some (3, lo, hi)" "r0 = b1 # b2 # r2" "lo \<le> b1" "b1 \<le> hi" "is_cont b2"
      "n = 3" "c = ((b0 - 0xE0) * 64 + (b1 - 0x80)) * 64 + (b2 - 0x80)"
  | lo hi b1 b2 b3 r3 where "utf8_lead b0 = Some (4, lo, hi)" "r0 = b1 # b2 # b3 # r3" "lo \<le> b1" "b1 \<le> hi"
      "is_cont b2" "is_cont b3" "n = 4"
      "c = (((b0 - 0xF0) * 64 + (b1 - 0x80)) * 64 + (b2 - 0x80)) * 64 + (b3 - 0x80)"
proof -
  obtain m lo hi b1 r1 where lead: "utf8_lead b0 = Some (m, lo, hi)" and r0: "r0 = b1 # r1"
    using assms by (auto simp: rune_at_def split: option.splits list.splits)
  have m: "m = 2 \<or> m = 3 \<or> m = 4"
    using lead by (simp add: utf8_lead_def split: if_splits)
  have b1: "lo \<le> b1" "b1 \<le> hi"
    using assms by (auto simp: rune_at_def lead r0 split: if_splits)
  show thesis
  proof (cases "m = 2")
    case True
    with assms show thesis by (intro that(1) [of lo hi b1 r1]) (auto simp: rune_at_def lead r0 b1 split: if_splits)
  next
    case False
    with assms b1 obtain b2 r2 where r1: "r1 = b2 # r2" and b2: "is_cont b2"
      by (cases r1) (auto simp: rune_at_def lead r0 split: if_splits)
    show thesis
    proof (cases "m = 3")
      case True
      with assms b1 b2 show thesis by (intro that(2) [of lo hi b1 b2 r2]) (auto simp: rune_at_def lead r0 r1 split: if_splits)
    next
      case False
      with \<open>m \<noteq> 2\<close> m have m4: "m = 4" by simp
      with assms b1 b2 obtain b3 r3 where r2: "r2 = b3 # r3" and b3: "is_cont b3"
        by (cases r2) (auto simp: rune_at_def lead r0 r1 split: if_splits)
      show thesis
        using assms b1 b2 b3 m4 by (intro that(3) [of lo hi b1 b2 b3 r3]) (auto simp: rune_at_def lead r0 r1 r2 split: if_splits)
    qed
  qed
qed

lemma rune_at_prefix:
  assumes "rune_at (b # r) = Some (c, n)"
  shows "rune_at (take n (b # r) @ r') = Some (c, n)"
proof (cases "b < 0x80")
  case True
  with assms show ?thesis by (auto simp: rune_at_def)
next
  case False
  from assms False show ?thesis
    by (cases rule: rune_at_multi) (use False in \<open>simp_all add: rune_at_def\<close>)
qed

lemma rune_at_size: "rune_at (b # r) = Some (c, n) \<Longrightarrow> 0 < n \<and> n \<le> length (b # r)"
proof (cases "b < 0x80")
  case True
  assume "rune_at (b # r) = Some (c, n)"
  with True show ?thesis by (simp add: rune_at_def)
next
  case False
  assume "rune_at (b # r) = Some (c, n)"
  then show ?thesis
    using False by (cases rule: rune_at_multi) simp_all
qed

lemma cont_split:
  assumes "0x80 \<le> b" "b \<le> 0xBF" obtains y where "b = 0x80 + y" "y < (64 :: nat)"
  using assms by (intro that [of "b - 0x80"]) auto

lemma digits64:
  fixes a z c :: nat
  assumes "c = a * 64 + z" "z < 64" shows "c div 64 = a" "c mod 64 = z"
  using assms by auto

lemma div64_twice: "(c :: nat) div 4096 = c div 64 div 64" "c div 262144 = c div 64 div 64 div 64"
  by (simp_all add: div_mult2_eq [symmetric])

text \<open>Runes of three and of four bytes, from the digits that the bytes carry.\<close>

lemma EncodeRune_three:
  assumes "(x :: nat) < 16" "y < 64" "z < 64" "x = 0 \<longrightarrow> 32 \<le> y" "x = 13 \<longrightarrow> y < 32"
    and c: "c = (x * 64 + y) * 64 + z"
  shows "EncodeRune c = [0xE0 + x, 0x80 + y, 0x80 + z]"
proof -
  have c': "c = 4096 * x + 64 * y + z" using c by simp
  have "0x800 \<le> c" using assms(4) c' by (cases "x = 0") auto
  then have "\<not> c < 0x80" "\<not> c < 0x800" by linarith+
  moreover have "\<not> is_surrogate c"
  proof
    assume "is_surrogate c"
    then have D: "0xD800 \<le> 4096 * x + 64 * y + z" "4096 * x + 64 * y + z < 0xE000"
      using c' by (simp_all add: is_surrogate_def)
    then have "x = 13" using assms(2,3) by linarith
    with D assms(3,5) show False by simp
  qed
  moreover have "c < 0x10000" "\<not> 0x10FFFF < c" using c' assms(1-3) by linarith+
  moreover have "c div 4096 = x" "c div 64 mod 64 = y" "c mod 64 = z"
    unfolding div64_twice digits64 [OF c assms(3)] digits64 [OF refl assms(2)] by (rule refl)+
  ultimately show ?thesis unfolding EncodeRune_def by (simp only: if_False if_True simp_thms)
qed

lemma EncodeRune_four:
  assumes "(x :: nat) \<le> 4" "y < 64" "z < 64" "t < 64" "x = 0 \<longrightarrow> 16 \<le> y" "x = 4 \<longrightarrow> y \<le> 15"
    and c: "c = ((x * 64 + y) * 64 + z) * 64 + t"
  shows "EncodeRune c = [0xF0 + x, 0x80 + y, 0x80 + z, 0x80 + t]"
proof -
  have c': "c = 262144 * x + 4096 * y + 64 * z + t" using c by simp
  have big: "0x10000 \<le> c" using assms(5) c' by (cases "x = 0") auto
  have top: "c \<le> 0x10FFFF"
  proof (cases "x = 4")
    case True
    with assms(3,4,6) c' show ?thesis by linarith
  next
    case False
    then have "x \<le> 3" using assms(1) by simp
    with c' assms(2-4) show ?thesis by linarith
  qed
  have "\<not> c < 0x80" "\<not> c < 0x800" "\<not> c < 0x10000" using big by linarith+
  moreover have "\<not> is_surrogate c" using big by (simp add: is_surrogate_def)
  moreover have "\<not> 0x10FFFF < c" using top by linarith
  moreover have "c div 262144 = x" "c div 4096 mod 64 = y" "c div 64 mod 64 = z" "c mod 64 = t"
    unfolding div64_twice digits64 [OF c assms(4)] digits64 [OF refl assms(3)] digits64 [OF refl assms(2)]
    by (rule refl)+
  ultimately show ?thesis unfolding EncodeRune_def by (simp only: if_False if_True simp_thms)
qed

lemma EncodeRune_rune_at:
  assumes "rune_at (b # r) = Some (c, n)"
  shows "EncodeRune c = take n (b # r)"
proof (cases "b < 0x80")
  case True
  with assms show ?thesis by (auto simp: rune_at_def EncodeRune_def)
next
  case False
  from assms False show ?thesis
  proof (cases rule: rune_at_multi)
    case (1 lo hi b1 r1)
    then have lead: "0xC2 \<le> b" "b < 0xE0" and b1: "0x80 \<le> b1" "b1 \<le> 0xBF"
      by (simp_all add: utf8_lead_def split: if_splits)
    obtain y where y: "b1 = 0x80 + y" "y < 64" by (rule cont_split [OF b1])
    obtain x where x: "b = 0xC0 + x" "2 \<le> x" "x < 32" using lead by (intro that [of "b - 0xC0"]) auto
    show ?thesis using 1 x y by (simp add: EncodeRune_def)
  next
    case (2 lo hi b1 b2 r2)
    then have lead: "0xE0 \<le> b" "b < 0xF0" and b1: "0x80 \<le> b1" "b1 \<le> 0xBF"
      and lim: "b = 0xE0 \<longrightarrow> 0xA0 \<le> b1" "b = 0xED \<longrightarrow> b1 \<le> 0x9F"
      by (simp_all add: utf8_lead_def split: if_splits)
    obtain y where y: "b1 = 0x80 + y" "y < 64" by (rule cont_split [OF b1])
    obtain z where z: "b2 = 0x80 + z" "z < 64" using 2 by (auto simp: is_cont_def elim: cont_split)
    obtain x where x: "b = 0xE0 + x" "x < 16" using lead by (intro that [of "b - 0xE0"]) auto
    show ?thesis using 2 EncodeRune_three [OF x(2) y(2) z(2), of c] lim x(1) y(1) z(1) by auto
  next
    case (3 lo hi b1 b2 b3 r3)
    then have lead: "0xF0 \<le> b" "b \<le> 0xF4" and b1: "0x80 \<le> b1" "b1 \<le> 0xBF"
      and lim: "b = 0xF0 \<longrightarrow> 0x90 \<le> b1" "b = 0xF4 \<longrightarrow> b1 \<le> 0x8F"
      by (simp_all add: utf8_lead_def split: if_splits)
    obtain y where y: "b1 = 0x80 + y" "y < 64" by (rule cont_split [OF b1])
    obtain z where z: "b2 = 0x80 + z" "z < 64" using 3 by (auto simp: is_cont_def elim: cont_split)
    obtain t where t: "b3 = 0x80 + t" "t < 64" using 3 by (auto simp: is_cont_def elim: cont_split)
    obtain x where x: "b = 0xF0 + x" "x \<le> 4" using lead by (intro that [of "b - 0xF0"]) auto
    show ?thesis using 3 EncodeRune_four [OF x(2) y(2) z(2) t(2), of c] lim x(1) y(1) z(1) t(1) by auto
  qed
qed

lemma to_valid_id: "utf8_Valid bs \<Longrightarrow> to_valid bs = bs"
proof (induction bs rule: utf8_Valid.induct)
  case (2 b r)
  then obtain c n where rune: "rune_at (b # r) = Some (c, n)" and v: "utf8_Valid (drop (n - 1) r)"
    by (auto split: option.splits)
  have "to_valid (drop (n - 1) r) = drop (n - 1) r"
    by (rule "2.IH" [OF rune refl v])
  moreover have "drop (n - 1) r = drop n (b # r)"
    using rune_at_size [OF rune] by (cases n) auto
  ultimately show ?case
    by (simp add: DecodeRune_def rune EncodeRune_rune_at [OF rune] del: take_Suc_Cons)
qed simp

section \<open>Writing\<close>

abbreviation bytes_of :: "string \<Rightarrow> bytes" where "bytes_of s \<equiv> map of_char s"

abbreviation string_of :: "bytes \<Rightarrow> string" where "string_of bs \<equiv> map char_of bs"

definition hex_nibble :: "nat \<Rightarrow> nat" where
  "hex_nibble d = (if d < 10 then 48 + d else 87 + d)"

text \<open>\<open>htmlSafeSet\<close>: printable ASCII without the quote, the backslash and the three HTML characters.\<close>

definition html_safe :: "nat \<Rightarrow> bool" where
  "html_safe b \<longleftrightarrow> 0x20 \<le> b \<and> b < 0x80 \<and> b \<notin> {0x22, 0x5C, 0x3C, 0x3E, 0x26}"

definition quote_ascii :: "nat \<Rightarrow> bytes" where
  "quote_ascii b =
     (if html_safe b then [b]
      else if b = 0x5C \<or> b = 0x22 then [0x5C, b]
      else if b = 10 then bytes_of [CHR 0x5C, CHR ''n'']
      else if b = 13 then bytes_of [CHR 0x5C, CHR ''r'']
      else if b = 9 then bytes_of [CHR 0x5C, CHR ''t'']
      else bytes_of ([CHR 0x5C] @ ''u00'') @ [hex_nibble (b div 16), hex_nibble (b mod 16)])"

fun quote_body :: "bytes \<Rightarrow> bytes" where
  "quote_body [] = []"
| "quote_body (b # r) =
     (if b < 0x80 then quote_ascii b @ quote_body r
      else (case DecodeRune (b # r) of (c, n) \<Rightarrow>
        (if c = RuneError \<and> n = 1 then bytes_of ([CHR 0x5C] @ ''ufffd'')
         else if c = 0x2028 \<or> c = 0x2029 then bytes_of ([CHR 0x5C] @ ''u202'') @ [hex_nibble (c mod 16)]
         else take n (b # r)) @ quote_body (drop (n - 1) r)))"

definition quote_string :: "string \<Rightarrow> bytes" where
  "quote_string s = [0x22] @ quote_body (bytes_of s) @ [0x22]"

text \<open>The fields of an object, in the order of the keys, separated by commas.\<close>

definition quote_field :: "string \<times> string \<Rightarrow> bytes" where
  "quote_field kv = quote_string (fst kv) @ [0x3A] @ quote_string (snd kv)"

fun quote_fields :: "(string \<times> string) list \<Rightarrow> bytes" where
  "quote_fields [] = [0x7D]"
| "quote_fields [kv] = quote_field kv @ [0x7D]"
| "quote_fields (kv # kvs) = quote_field kv @ [0x2C] @ quote_fields kvs"

text \<open>Marshalling a map of strings does not fail.\<close>

definition MapToJSONString :: "gomap \<Rightarrow> string res" where
  "MapToJSONString m =
     Ok (case m of None \<Rightarrow> ''null''
         | Some _ \<Rightarrow> string_of ([0x7B] @ quote_fields (sorted_entries m)))"

section \<open>Reading\<close>

definition hex_value :: "nat \<Rightarrow> nat option" where
  "hex_value b =
     (if 48 \<le> b \<and> b \<le> 57 then Some (b - 48)
      else if 97 \<le> b \<and> b \<le> 102 then Some (b - 87)
      else if 65 \<le> b \<and> b \<le> 70 then Some (b - 55)
      else None)"

definition getu4 :: "bytes \<Rightarrow> nat option" where
  "getu4 bs =
     (case bs of
        a # b # c # d # _ \<Rightarrow>
          (case (hex_value a, hex_value b, hex_value c, hex_value d) of
             (Some w, Some x, Some y, Some z) \<Rightarrow> Some (((w * 16 + x) * 16 + y) * 16 + z)
           | _ \<Rightarrow> None)
      | _ \<Rightarrow> None)"

text \<open>
  The rune written by \<open>\u\<close> and four digits, with the bytes after the \<open>u\<close> it takes: a high
  surrogate needs a low one in a second escape, else it is replaced.
\<close>

definition escaped_rune :: "bytes \<Rightarrow> (nat \<times> nat) option" where
  "escaped_rune bs =
     (case getu4 bs of
        None \<Rightarrow> None
      | Some c \<Rightarrow>
          if \<not> is_surrogate c then Some (c, 4)
          else Some (case (take 2 (drop 4 bs) = [0x5C, 117], getu4 (drop 6 bs)) of
             (True, Some d) \<Rightarrow>
               if c < 0xDC00 \<and> 0xDC00 \<le> d \<and> d < 0xE000
               then (0x10000 + (c - 0xD800) * 1024 + (d - 0xDC00), 10) else (RuneError, 4)
           | _ \<Rightarrow> (RuneError, 4)))"

text \<open>What an escape after its backslash stands for, and its length.\<close>

definition escape :: "bytes \<Rightarrow> (bytes \<times> nat) option" where
  "escape bs =
     (case bs of
        [] \<Rightarrow> None
      | e # r \<Rightarrow>
          if e = 0x22 \<or> e = 0x5C \<or> e = 0x2F then Some ([e], 1)
          else if e = 98 then Some ([8], 1)
          else if e = 102 then Some ([12], 1)
          else if e = 110 then Some ([10], 1)
          else if e = 114 then Some ([13], 1)
          else if e = 116 then Some ([9], 1)
          else if e = 117
          then map_option (\<lambda>(c, n). (EncodeRune c, Suc n)) (escaped_rune r)
          else None)"

definition consing :: "bytes \<Rightarrow> (bytes \<times> bytes) option \<Rightarrow> (bytes \<times> bytes) option" where
  "consing x = map_option (\<lambda>(y, r). (x @ y, r))"

text \<open>A string literal after its opening quote: what it stands for and what follows it.\<close>

fun unquote_body :: "bytes \<Rightarrow> (bytes \<times> bytes) option" where
  "unquote_body [] = None"
| "unquote_body (b # r) =
     (if b = 0x22 then Some ([], r)
      else if b < 0x20 then None
      else if b = 0x5C
      then (case escape r of None \<Rightarrow> None | Some (x, n) \<Rightarrow> consing x (unquote_body (drop n r)))
      else if b < 0x80 then consing [b] (unquote_body r)
      else (case DecodeRune (b # r) of (c, n) \<Rightarrow> consing (EncodeRune c) (unquote_body (drop (n - 1) r))))"

definition skip_ws :: "bytes \<Rightarrow> bytes" where
  "skip_ws = dropWhile (\<lambda>b. b \<in> {9, 10, 13, 32})"

definition json_null :: "bytes \<Rightarrow> bytes option" where
  "json_null bs = (if take 4 bs = bytes_of ''null'' then Some (drop 4 bs) else None)"

definition json_string :: "bytes \<Rightarrow> (bytes \<times> bytes) option" where
  "json_string bs = (case bs of [] \<Rightarrow> None | b # r \<Rightarrow> if b = 0x22 then unquote_body r else None)"

text \<open>A value of the map: a string, or \<open>null\<close>, which is stored as the zero value.\<close>

definition json_value :: "bytes \<Rightarrow> (bytes \<times> bytes) option" where
  "json_value bs = (case json_null bs of Some r \<Rightarrow> Some ([], r) | None \<Rightarrow> json_string bs)"

definition json_field :: "bytes \<Rightarrow> ((bytes \<times> bytes) \<times> bytes) option" where
  "json_field bs =
     Option.bind (json_string (skip_ws bs)) (\<lambda>(k, r).
       case skip_ws r of
         [] \<Rightarrow> None
       | c # r1 \<Rightarrow>
           if c = 0x3A then map_option (\<lambda>(v, r2). ((k, v), skip_ws r2)) (json_value (skip_ws r1))
           else None)"

lemma consing_Some: "consing x o' = Some (y, r) \<longleftrightarrow> (\<exists>z. o' = Some (z, r) \<and> y = x @ z)"
  by (auto simp: consing_def)

lemma unquote_body_length: "unquote_body bs = Some (x, r) \<Longrightarrow> length r < length bs"
proof (induction bs arbitrary: x rule: unquote_body.induct)
  case (2 b bs)
  then show ?case
    by (fastforce simp: consing_Some split: if_splits option.splits prod.splits)
qed simp

text \<open>The fields after the opening brace of an object that is not empty.\<close>

lemma json_string_length: "json_string bs = Some (x, r) \<Longrightarrow> length r < length bs"
  by (auto simp: json_string_def dest: unquote_body_length split: list.splits if_splits)

lemma length_skip_ws: "length (skip_ws bs) \<le> length bs"
  by (simp add: skip_ws_def length_dropWhile_le)

lemma json_value_length: "json_value bs = Some (x, r) \<Longrightarrow> length r \<le> length bs"
  by (auto simp: json_value_def json_null_def dest!: json_string_length split: option.splits if_splits)

lemma json_field_length:
  assumes "json_field bs = Some (kv, r)" shows "length r < length bs"
proof -
  obtain k r0 where k: "json_string (skip_ws bs) = Some (k, r0)"
    using assms by (auto simp: json_field_def bind_eq_Some_conv)
  obtain c r1 where c: "skip_ws r0 = c # r1"
    using assms k by (cases "skip_ws r0") (auto simp: json_field_def)
  obtain v r2 where "json_value (skip_ws r1) = Some (v, r2)" "r = skip_ws r2"
    using assms k c by (auto simp: json_field_def split: if_splits)
  with k c show ?thesis
    using json_string_length [of "skip_ws bs" k r0] json_value_length [of "skip_ws r1" v r2]
      length_skip_ws [of bs] length_skip_ws [of r0] length_skip_ws [of r1] length_skip_ws [of r2]
    by simp
qed

function json_fields :: "(bytes \<times> bytes) list \<Rightarrow> bytes \<Rightarrow> ((bytes \<times> bytes) list \<times> bytes) option" where
  "json_fields acc bs =
     (case json_field bs of
        None \<Rightarrow> None
      | Some ((k, v), r) \<Rightarrow>
          (case r of
             [] \<Rightarrow> None
           | c # r' \<Rightarrow>
               if c = 0x2C then json_fields (AList.update k v acc) r'
               else if c = 0x7D then Some (AList.update k v acc, r')
               else None))"
  by pat_completeness auto
termination
  by (relation "measure (\<lambda>(acc, bs). length bs)") (auto dest: json_field_length)

declare json_fields.simps [simp del]

definition json_object :: "bytes \<Rightarrow> ((bytes \<times> bytes) list \<times> bytes) option" where
  "json_object bs =
     (case bs of
        [] \<Rightarrow> None
      | b # r \<Rightarrow>
          if b \<noteq> 0x7B then None
          else (case skip_ws r of
                  [] \<Rightarrow> None
                | c # r' \<Rightarrow> if c = 0x7D then Some ([], r') else json_fields [] r))"

text \<open>The text of a JSON error is not modelled further: the callers wrap or log it.\<close>

definition json_error :: err where "json_error = Failure ''json''"

definition Unmarshal_map :: "bytes \<Rightarrow> ((bytes \<times> bytes) list option) res" where
  "Unmarshal_map bs =
     (let r = skip_ws bs
      in case json_null r of
           Some r' \<Rightarrow> (if skip_ws r' = [] then Ok None else Err json_error)
         | None \<Rightarrow>
             (case json_object r of
                Some (kvs, r') \<Rightarrow> (if skip_ws r' = [] then Ok (Some kvs) else Err json_error)
              | None \<Rightarrow> Err json_error))"

definition JSONStringToMap :: "string \<Rightarrow> gomap res" where
  "JSONStringToMap s =
     (case Unmarshal_map (bytes_of s) of
        Inl e \<Rightarrow> Err e
      | Inr m \<Rightarrow> Ok (map_option (map (\<lambda>(k, v). (string_of k, string_of v))) m))"

section \<open>Reading what was written\<close>

lemma hex_value_nibble: "d < 16 \<Longrightarrow> hex_value (hex_nibble d) = Some d"
  by (simp add: hex_value_def hex_nibble_def)

lemma unquote_ascii:
  assumes "b < 0x80"
  shows "unquote_body (quote_ascii b @ r) = consing [b] (unquote_body r)"
proof -
  have "getu4 (48 # 48 # hex_nibble (b div 16) # hex_nibble (b mod 16) # r) = Some b"
    using assms hex_value_nibble [of "b div 16"] hex_value_nibble [of "b mod 16"]
    by (simp add: getu4_def hex_value_def)
  moreover have "\<not> is_surrogate b" "EncodeRune b = [b]"
    using assms by (simp_all add: is_surrogate_def EncodeRune_def)
  ultimately show ?thesis
    using assms
    by (auto simp: quote_ascii_def html_safe_def escape_def escaped_rune_def)
qed

lemma consing_append: "consing x (Some (y, r)) = Some (x @ y, r)"
  by (simp add: consing_def)

lemma to_valid_ascii: "b < 0x80 \<Longrightarrow> to_valid (b # r) = b # to_valid r"
  by (simp add: DecodeRune_def rune_at_def EncodeRune_def)

lemma unquote_escaped_replacement:
  "unquote_body (bytes_of ([CHR 0x5C] @ ''ufffd'') @ r) = consing (EncodeRune RuneError) (unquote_body r)"
  by (simp add: escape_def escaped_rune_def getu4_def hex_value_def is_surrogate_def)

lemma unquote_escaped_separator:
  assumes "c = 0x2028 \<or> c = 0x2029"
  shows "unquote_body (bytes_of ([CHR 0x5C] @ ''u202'') @ [hex_nibble (c mod 16)] @ r) =
    consing (EncodeRune c) (unquote_body r)"
  using assms
  by (auto simp: escape_def escaped_rune_def getu4_def hex_value_def hex_nibble_def is_surrogate_def)

lemma unquote_rune:
  assumes "rune_at (b # r) = Some (c, n)" "\<not> b < 0x80"
  shows "unquote_body (take n (b # r) @ r') = consing (EncodeRune c) (unquote_body r')"
proof -
  obtain k where n: "n = Suc k" "k \<le> length r"
    using rune_at_size [OF assms(1)] by (cases n) auto
  have "DecodeRune (take n (b # r) @ r') = (c, n)"
    by (simp add: DecodeRune_def rune_at_prefix [OF assms(1)] del: take_Suc_Cons)
  then show ?thesis using n assms(2) by simp
qed

lemma unquote_quote: "unquote_body (quote_body bs @ 0x22 # r) = Some (to_valid bs, r)"
proof (induction bs rule: quote_body.induct)
  case (2 b bs)
  obtain c n where d: "DecodeRune (b # bs) = (c, n)" by (cases "DecodeRune (b # bs)")
  show ?case
  proof (cases "b < 0x80")
    case True
    with 2(1) show ?thesis
      by (simp add: unquote_ascii consing_append to_valid_ascii del: to_valid.simps(2) unquote_body.simps(2))
  next
    case False
    have IH: "unquote_body (quote_body (drop (n - 1) bs) @ 0x22 # r) = Some (to_valid (drop (n - 1) bs), r)"
      by (rule 2(2) [OF False d [symmetric]])
    have "unquote_body ((if c = RuneError \<and> n = 1 then bytes_of ([CHR 0x5C] @ ''ufffd'')
         else if c = 0x2028 \<or> c = 0x2029 then bytes_of ([CHR 0x5C] @ ''u202'') @ [hex_nibble (c mod 16)]
         else take n (b # bs)) @ r') = consing (EncodeRune c) (unquote_body r')" for r'
    proof (cases "rune_at (b # bs)")
      case None
      with d have cn: "c = RuneError" "n = 1" by (simp_all add: DecodeRune_def)
      show ?thesis unfolding cn using unquote_escaped_replacement [of r'] by simp
    next
      case (Some cn)
      with d have rune: "rune_at (b # bs) = Some (c, n)" by (simp add: DecodeRune_def)
      then have "\<not> (c = RuneError \<and> n = 1)"
        using False by (auto elim: rune_at_multi)
      then show ?thesis
        using unquote_rune [OF rune False] unquote_escaped_separator [of c r']
        by (simp only: if_False append_assoc simp_thms split: if_splits) blast
    qed
    from this [of "quote_body (drop (n - 1) bs) @ 0x22 # r"] show ?thesis
      using False d IH by (simp add: consing_append del: unquote_body.simps(2))
  qed
qed simp

lemma json_string_quote:
  "json_string (quote_string s @ r) = Some (to_valid (bytes_of s), r)"
  by (simp add: json_string_def quote_string_def unquote_quote)

lemma skip_ws_quote [simp]: "skip_ws (quote_string s @ r) = quote_string s @ r"
  by (simp add: skip_ws_def quote_string_def)

lemma json_null_quote: "json_null (quote_string s @ r) = None"
  by (simp add: json_null_def quote_string_def)

lemma json_field_quote:
  assumes "skip_ws r = r"
  shows "json_field (quote_field (k, v) @ r) = Some ((to_valid (bytes_of k), to_valid (bytes_of v)), r)"
proof -
  have "skip_ws (0x3A # x) = 0x3A # x" for x by (simp add: skip_ws_def)
  then show ?thesis
    using assms by (simp add: json_field_def quote_field_def json_string_quote json_value_def json_null_quote)
qed

definition valid_string :: "string \<Rightarrow> bool" where
  "valid_string s = utf8_Valid (bytes_of s)"

lemma json_fields_quote:
  assumes "kvs \<noteq> []" "\<forall>(k, v) \<in> set kvs. valid_string k \<and> valid_string v" "skip_ws r = r"
  shows "json_fields acc (quote_fields kvs @ r) =
    Some (foldl (\<lambda>a (k, v). AList.update (bytes_of k) (bytes_of v) a) acc kvs, r)"
  using assms
proof (induction kvs arbitrary: acc rule: quote_fields.induct)
  case (2 kv)
  obtain k v where kv: "kv = (k, v)" by (cases kv)
  have "skip_ws (0x7D # r) = 0x7D # r" by (simp add: skip_ws_def)
  then have "json_field (quote_fields [kv] @ r) = Some ((bytes_of k, bytes_of v), 0x7D # r)"
    using 2 kv by (simp add: json_field_quote valid_string_def to_valid_id)
  then show ?case
    by (subst json_fields.simps) (simp add: kv)
next
  case (3 kv kv' kvs)
  obtain k v where kv: "kv = (k, v)" by (cases kv)
  have "skip_ws (0x2C # x) = 0x2C # x" for x by (simp add: skip_ws_def)
  then have "json_field (quote_fields (kv # kv' # kvs) @ r) =
      Some ((bytes_of k, bytes_of v), 0x2C # quote_fields (kv' # kvs) @ r)"
    using 3 kv by (simp add: json_field_quote valid_string_def to_valid_id)
  then show ?case
    using 3 by (subst json_fields.simps) (simp add: kv)
qed simp

lemma fst_sorted_entries: "map fst (sorted_entries m) = sort (remdups (map fst (entries m)))"
  by (simp add: sorted_entries_def comp_def)

lemma map_of_sorted_entries: "map_of (sorted_entries m) = gm_lookup m"
proof
  fix k
  show "map_of (sorted_entries m) k = gm_lookup m k"
  proof (cases "k \<in> fst ` set (entries m)")
    case True
    then obtain v where "gm_lookup m k = Some v"
      by (auto simp: gm_lookup_def dest: weak_map_of_SomeI)
    with True show ?thesis
      by (simp add: sorted_entries_def map_of_map_restrict gm_get_def)
  next
    case False
    then show ?thesis
      by (simp add: sorted_entries_def map_of_map_restrict gm_lookup_def map_of_eq_None_iff [THEN iffD2])
  qed
qed

lemma foldl_update_distinct:
  assumes "inj f" "distinct (map fst kvs)" "f ` fst ` set kvs \<inter> fst ` set acc = {}"
  shows "foldl (\<lambda>a (k, v). AList.update (f k) (g v) a) acc kvs = acc @ map (\<lambda>(k, v). (f k, g v)) kvs"
  using assms(2,3)
proof (induction kvs arbitrary: acc)
  case (Cons kv kvs)
  obtain k v where kv: "kv = (k, v)" by (cases kv)
  have "f k \<notin> fst ` set acc" using Cons.prems kv by auto
  then have "AList.update (f k) (g v) acc = acc @ [(f k, g v)]"
    by (induction acc) auto
  with Cons kv \<open>inj f\<close> show ?case by (auto simp: inj_image_mem_iff)
qed simp

lemma string_of_bytes_of [simp]: "string_of (bytes_of s) = s"
  by (simp add: comp_def)

lemma inj_bytes_of: "inj bytes_of"
  by (rule inj_on_inverseI [of _ string_of]) simp

lemma bytes_of_byte: "b \<in> set (bytes_of s) \<Longrightarrow> b < 256"
  using range_nat_of_char by auto

lemma bytes_of_string_of: "\<forall>b \<in> set bs. b < 256 \<Longrightarrow> bytes_of (string_of bs) = bs"
  by (induction bs) (simp_all add: of_char_of)

lemma hex_nibble_byte: "d < 16 \<Longrightarrow> hex_nibble d < 256"
  by (simp add: hex_nibble_def)

lemma quote_ascii_byte: "b < 0x80 \<Longrightarrow> x \<in> set (quote_ascii b) \<Longrightarrow> x < 256"
  using hex_nibble_byte [of "b div 16"] hex_nibble_byte [of "b mod 16"]
  by (auto simp: quote_ascii_def split: if_splits)

lemma quote_body_byte: "\<forall>b \<in> set bs. b < 256 \<Longrightarrow> \<forall>x \<in> set (quote_body bs). x < 256"
proof (induction bs rule: quote_body.induct)
  case (2 b bs)
  obtain c n where d: "DecodeRune (b # bs) = (c, n)" by (cases "DecodeRune (b # bs)")
  show ?case
  proof (cases "b < 0x80")
    case True
    with 2 show ?thesis by (auto dest: quote_ascii_byte)
  next
    case False
    have "\<forall>x \<in> set (quote_body (drop (n - 1) bs)). x < 256"
      using 2(2) [OF False d [symmetric]] 2(3) by (auto dest: in_set_dropD)
    moreover have "\<forall>x \<in> set (take n (b # bs)). x < 256"
      using 2(3) by (meson in_set_takeD)
    ultimately show ?thesis
      using False d hex_nibble_byte [of "c mod 16"] by auto
  qed
qed simp

lemma quote_string_byte: "x \<in> set (quote_string s) \<Longrightarrow> x < 256"
  using quote_body_byte [of "bytes_of s"] bytes_of_byte [of _ s]
  by (auto simp: quote_string_def)

lemma quote_fields_byte: "x \<in> set (quote_fields kvs) \<Longrightarrow> x < 256"
  by (induction kvs rule: quote_fields.induct) (auto simp: quote_field_def dest: quote_string_byte)

lemma read_written_map:
  assumes "\<forall>(k, v) \<in> set (sorted_entries m). valid_string k \<and> valid_string v"
  shows "\<exists>s. MapToJSONString m = Ok s \<and> JSONStringToMap s = Ok (map_option (\<lambda>_. sorted_entries m) m)"
proof (cases m)
  case None
  have "JSONStringToMap ''null'' = Ok None" by code_simp
  with None show ?thesis by (simp add: MapToJSONString_def)
next
  case (Some xs)
  let ?es = "sorted_entries m"
  let ?t = "[0x7B] @ quote_fields ?es"
  have ws: "skip_ws ?t = ?t" "skip_ws [] = []" "skip_ws (0x7B # x) = 0x7B # x" "skip_ws (0x7D # x) = 0x7D # x"
    for x by (simp_all add: skip_ws_def)
  have "distinct (map fst ?es)" by (simp add: fst_sorted_entries)
  then have fold: "foldl (\<lambda>a (k, v). AList.update (bytes_of k) (bytes_of v) a) [] ?es =
      map (\<lambda>(k, v). (bytes_of k, bytes_of v)) ?es"
    using foldl_update_distinct [OF inj_bytes_of, of ?es "[]"] by simp
  have obj: "json_object ?t = Some (map (\<lambda>(k, v). (bytes_of k, bytes_of v)) ?es, [])"
  proof (cases ?es)
    case Nil
    then show ?thesis by (simp add: json_object_def ws)
  next
    case (Cons kv kvs)
    have "json_fields [] (quote_fields ?es) = Some (map (\<lambda>(k, v). (bytes_of k, bytes_of v)) ?es, [])"
      using json_fields_quote [of ?es "[]" "[]"] Cons assms fold ws(2) by simp
    moreover have "\<exists>r. quote_fields ?es = quote_string (fst kv) @ r"
      using Cons by (cases kvs) (auto simp: quote_field_def)
    ultimately show ?thesis
      by (auto simp: json_object_def quote_string_def skip_ws_def)
  qed
  have "bytes_of (string_of ?t) = ?t"
    by (rule bytes_of_string_of) (auto dest: quote_fields_byte)
  moreover have "json_null ?t = None" by (simp add: json_null_def)
  ultimately have "Unmarshal_map (bytes_of (string_of ?t)) = Ok (Some (map (\<lambda>(k, v). (bytes_of k, bytes_of v)) ?es))"
    using obj ws(1,2) by (simp only: Unmarshal_map_def Let_def) simp
  then show ?thesis
    using Some by (simp add: MapToJSONString_def JSONStringToMap_def comp_def case_prod_beta)
qed

lemma gm_lookup_entries: "gm_lookup m = map_of (entries m)"
  by (simp add: fun_eq_iff gm_lookup_def)

lemma gm_equal_sorted_entries: "gm_equal m (map_option (\<lambda>_. sorted_entries m) m)"
  using map_of_sorted_entries [of m]
  by (cases m) (simp_all add: gm_equal_iff gm_lookup_entries entries_def)

lemma sorted_entries_cong:
  assumes "gm_equal m n" shows "sorted_entries m = sorted_entries n"
proof -
  have lookup: "gm_lookup m = gm_lookup n" using assms by (simp add: gm_equal_iff)
  have "set (map fst (entries m)) = dom (gm_lookup m)" for m
    by (simp add: gm_lookup_entries dom_map_of_conv_image_fst)
  then have "set (map fst (entries m)) = set (map fst (entries n))" by (simp only: lookup)
  then have "sort (remdups (map fst (entries m))) = sort (remdups (map fst (entries n)))"
    by (simp only: sorted_list_of_set_sort_remdups [symmetric])
  then show ?thesis by (simp add: sorted_entries_def gm_get_def lookup)
qed

definition valid_map :: "gomap \<Rightarrow> bool" where
  "valid_map m = list_all (\<lambda>(k, v). valid_string k \<and> valid_string v) (sorted_entries m)"

text \<open>
  Property C21. For maps whose keys and values are UTF-8, the text that \<open>MapToJSONString\<close>
  writes is read back by \<open>JSONStringToMap\<close> as an equal map, nil staying nil; and two maps are
  written as the same text exactly if they are equal, whatever the iteration order of the
  maps. So the node selector reaches a new worker unchanged, and the requests of cloudshells
  with equal node selectors compare as equal.
\<close>

theorem json_map_roundtrip:
  assumes "valid_map m" "valid_map n"
  shows "(\<exists>s m'. MapToJSONString m = Ok s \<and> JSONStringToMap s = Ok m' \<and> gm_equal m m') \<and>
    (MapToJSONString m = MapToJSONString n \<longleftrightarrow> gm_equal m n)"
proof -
  have read: "\<exists>s. MapToJSONString m = Ok s \<and> JSONStringToMap s = Ok (map_option (\<lambda>_. sorted_entries m) m)"
    if "valid_map m" for m
    using read_written_map [of m] that by (simp add: valid_map_def list_all_iff)
  have "gm_equal m n" if "MapToJSONString m = MapToJSONString n"
  proof -
    have "map_option (\<lambda>_. sorted_entries m) m = map_option (\<lambda>_. sorted_entries n) n"
      using read [OF assms(1)] read [OF assms(2)] that by auto
    then show ?thesis
      using gm_equal_sorted_entries [of m] gm_equal_sorted_entries [of n] by (simp add: gm_equal_iff)
  qed
  moreover have "MapToJSONString m = MapToJSONString n" if "gm_equal m n"
    using that sorted_entries_cong [OF that]
    by (cases m; cases n) (simp_all add: MapToJSONString_def gm_equal_iff)
  ultimately show ?thesis
    using read [OF assms(1)] gm_equal_sorted_entries [of m] by blast
qed

theorem json_map_roundtrip_witness:
  "(let m = Some [(''zone'', ''a<b''), (''disk'', [CHR 0xC3, CHR 0xA9, CHR 0x0A])];
        n = Some [(''disk'', [CHR 0xC3, CHR 0xA9, CHR 0x0A]), (''zone'', ''a<b'')]
    in valid_map m \<and> valid_map n \<and> MapToJSONString m = MapToJSONString n \<and>
       (\<exists>s m'. MapToJSONString m = Ok s \<and> JSONStringToMap s = Ok m' \<and> gm_equal m m'))"
proof -
  let ?m = "Some [(''zone'', ''a<b''), (''disk'', [CHR 0xC3, CHR 0xA9, CHR 0x0A])]"
  let ?n = "Some [(''disk'', [CHR 0xC3, CHR 0xA9, CHR 0x0A]), (''zone'', ''a<b'')]"
  have "valid_map ?m" "valid_map ?n" "gm_equal ?m ?n" by code_simp+
  then show ?thesis
    unfolding Let_def using json_map_roundtrip [of ?m ?n] by blast
qed


end
