(* ===== verification/Worker_Pool.thy ===== *)
theory Worker_Pool
  imports Kube Worker_Key Pod_Utils GoJSON
begin

text \<open>
  The worker pool of \<open>pkg/workerpool/worker_pool.go\<close>, one definition per method, and
  \<open>CreateOrUpdateService\<close> of \<open>pkg/utils/service.go\<close>.

  A \<open>*corev1.Pod\<close> that a lister returned is a pointer into the informer cache. Where the
  code then modifies the pod through it (\<open>Borrow\<close>, \<open>Back\<close>), the model passes the cache key
  and writes the modified pod to the cache; a successful \<open>Update\<close> stores the server's
  answer in the object, hence in the cache, too. Sending on \<open>matchRequestSignal\<close>, an
  unbuffered channel, is counted; the receiver is the step \<open>tryHandleRequestQueue\<close>.

  The properties of these definitions are in the theories \<open>Pool_*\<close>.
\<close>

section \<open>Construction\<close>

definition ControllerFinalizer :: string where
  "ControllerFinalizer = ''cloudshell.cloudtty.io/worker-pool''"

definition newPool :: "int \<Rightarrow> int \<Rightarrow> WorkerPool" where
  "newPool core max' =
     \<lparr>coreWorkerLimit = core, maxWorkerLimit = max', workerQueue = newQueue,
      requestQueue = newQueue, matchRequestSignal = 0, pqueue = wq_new\<rparr>"

section \<open>Requests in the queue\<close>

text \<open>
  \<open>reflect.DeepEqual\<close> on two requests follows the \<open>Resources\<close> pointers; the work queue is
  compared by its address (the process has one controller queue).
\<close>

definition resource_DeepEqual :: "ResourceSetting \<Rightarrow> ResourceSetting \<Rightarrow> bool" where
  "resource_DeepEqual a b = (gm_equal (Limits a) (Limits b) \<and> gm_equal (Requests a) (Requests b))"

definition request_DeepEqual :: "'w kube \<Rightarrow> Request \<Rightarrow> Request \<Rightarrow> bool" where
  "request_DeepEqual K a b =
     (a\<lparr>rResources := None\<rparr> = b\<lparr>rResources := None\<rparr> \<and>
      opt_equal (\<lambda>x y. x = y \<or> resource_DeepEqual (deref K x) (deref K y))
        (rResources a) (rResources b))"

section \<open>Watching pods\<close>

definition isIdleWorker :: "pod \<Rightarrow> bool" where
  "isIdleWorker worker =
     (if Labels (pmeta worker) \<noteq> None
      then case gm_lookup (Labels (pmeta worker)) WorkerOwnerLabelKey of
             None \<Rightarrow> True
           | Some owner \<Rightarrow> length owner = 0
      else False)"

text \<open>The type assertion \<open>obj.(*corev1.Pod)\<close> panics on anything else.\<close>

definition pool_enqueue :: "obj \<Rightarrow> ('w sys, unit res) state" where
  "pool_enqueue obj =
     (case obj of
        ObjPod p \<Rightarrow>
          (if isIdleWorker p
           then do { upd_pool (\<lambda>w. w\<lparr>pqueue := wq_Add (MetaNamespaceKey (pmeta p)) (pqueue w)\<rparr>);
                     State_Monad.return (Ok ()) }
           else State_Monad.return (Ok ()))
      | _ \<Rightarrow> State_Monad.return (Err (GoPanic ''interface conversion'')))"

definition worker_queue_Add :: "string \<Rightarrow> ('w sys, unit) state" where
  "worker_queue_Add key = upd_pool (\<lambda>w. w\<lparr>workerQueue := Add key (workerQueue w)\<rparr>)"

definition worker_queue_Remove :: "string \<Rightarrow> ('w sys, unit) state" where
  "worker_queue_Remove key = upd_pool (\<lambda>w. w\<lparr>workerQueue := Remove (=) key (workerQueue w)\<rparr>)"

definition request_queue_Add :: "Request \<Rightarrow> ('w sys, unit) state" where
  "request_queue_Add req = upd_pool (\<lambda>w. w\<lparr>requestQueue := Add req (requestQueue w)\<rparr>)"

definition request_queue_Remove :: "'w kube \<Rightarrow> Request \<Rightarrow> ('w sys, unit) state" where
  "request_queue_Remove K req =
     upd_pool (\<lambda>w. w\<lparr>requestQueue := Remove (request_DeepEqual K) req (requestQueue w)\<rparr>)"

definition send_match_signal :: "('w sys, unit) state" where
  "send_match_signal = upd_pool (\<lambda>w. w\<lparr>matchRequestSignal := Suc (matchRequestSignal w)\<rparr>)"

lemmas pool_queue_defs = worker_queue_Add_def worker_queue_Remove_def request_queue_Add_def
  request_queue_Remove_def send_match_signal_def

section \<open>Reconciling one pod\<close>

definition zero_pod :: pod where
  "zero_pod = \<lparr>pmeta = blank_meta '''' '''', Containers = [], Conditions = []\<rparr>"

text \<open>
  The body of the retry: an error of \<open>Get\<close> other than not-found leaves \<open>newer\<close> the zero pod.
\<close>

definition release_deleted :: "'w kube \<Rightarrow> pod \<Rightarrow> ('w sys, unit res) state" where
  "release_deleted K worker = do {
     r \<leftarrow> client_read (getPod K (Namespace (pmeta worker), Name (pmeta worker)));
     if (case r of Inl e \<Rightarrow> IsNotFound e | Inr _ \<Rightarrow> False) then State_Monad.return (Ok ())
     else do {
       let newer = (case r of Inl _ \<Rightarrow> zero_pod | Inr p \<Rightarrow> p);
       case RemoveFinalizer ControllerFinalizer (pmeta newer) of
         (updated, m) \<Rightarrow>
           if \<not> updated then State_Monad.return (Ok ())
           else bindE (client_write (UpdatePod (newer\<lparr>pmeta := m\<rparr>)) (updatePod K (newer\<lparr>pmeta := m\<rparr>)))
                  (\<lambda>_. State_Monad.return (Ok ()))
     }
   }"

definition reconcile :: "'w kube \<Rightarrow> pod \<Rightarrow> ('w sys, unit res) state" where
  "reconcile K worker =
     (let key = worker_key worker
      in if DeletionTimestamp (pmeta worker) \<noteq> None
         then do {
           worker_queue_Remove key;
           RetryOnConflict DefaultRetry (release_deleted K worker) ()
         }
         else if \<not> IsPodReady worker
         then do { worker_queue_Remove key; State_Monad.return (Ok ()) }
         else do { worker_queue_Add key; send_match_signal; State_Monad.return (Ok ()) })"

definition pool_upd_queue :: "(workqueue \<Rightarrow> workqueue) \<Rightarrow> ('w sys, unit) state" where
  "pool_upd_queue f = upd_pool (\<lambda>w. w\<lparr>pqueue := f (pqueue w)\<rparr>)"

text \<open>The part of \<open>processNextCluster\<close> between \<open>Get\<close> and the deferred \<open>Done\<close>.\<close>

definition processCluster :: "'w kube \<Rightarrow> string \<Rightarrow> ('w sys, unit) state" where
  "processCluster K key =
     (case SplitMetaNamespaceKey key of
        Inl e \<Rightarrow> State_Monad.return ()
      | Inr (namespace, name) \<Rightarrow> do {
          r \<leftarrow> podLister_Get (namespace, name);
          case r of
            Inl e \<Rightarrow> State_Monad.return ()
          | Inr p \<Rightarrow> do {
              res \<leftarrow> reconcile K p;
              case res of
                Inl e \<Rightarrow> pool_upd_queue (wq_Add key)
              | Inr _ \<Rightarrow> pool_upd_queue (wq_Forget key)
            }
        })"

text \<open>
  \<open>processNextCluster\<close>: \<open>None\<close> when \<open>Get\<close> has to wait, otherwise whether to continue.
\<close>

definition processNextCluster :: "'w kube \<Rightarrow> ('w sys, bool option) state" where
  "processNextCluster K = do {
     g \<leftarrow> gets (\<lambda>s. wq_Get (pqueue (pool s)));
     case g of (res, q') \<Rightarrow>
       (case res of
          GetWaits \<Rightarrow> State_Monad.return None
        | GetShutdown \<Rightarrow> State_Monad.return (Some False)
        | GetItem key \<Rightarrow> do {
            pool_upd_queue (\<lambda>_. q');
            processCluster K key;
            pool_upd_queue (wq_Done key);
            State_Monad.return (Some True)
          })
   }"

section \<open>Matching\<close>

definition key_matches :: "Request \<Rightarrow> string \<Rightarrow> bool" where
  "key_matches req item =
     (case split_key item of (ns, name, img) \<Rightarrow> ns = rNamespace req \<and> img = rImage req)"

definition matching_worker_name :: "Request \<Rightarrow> string list \<Rightarrow> string" where
  "matching_worker_name req items =
     (case find (key_matches req) items of
        None \<Rightarrow> ''''
      | Some item \<Rightarrow> (case split_key item of (ns, name, img) \<Rightarrow> name))"

text \<open>The result is the pointer into the pod cache, its key.\<close>

definition matchWorkerFor :: "Request \<Rightarrow> ('w sys, nsname res) state" where
  "matchWorkerFor req = do {
     items \<leftarrow> gets (\<lambda>s. All (workerQueue (pool s)));
     let workerName = matching_worker_name req items;
     if length workerName \<noteq> 0
     then bindE (podLister_Get (rNamespace req, workerName))
            (\<lambda>_. State_Monad.return (Ok (rNamespace req, workerName)))
     else State_Monad.return (Err ErrNotWorker)
   }"

text \<open>\<open>Spec.Containers[0]\<close> panics on a pod without containers.\<close>

fun match_request :: "pod \<Rightarrow> Request list \<Rightarrow> Request option res" where
  "match_request worker [] = Ok None"
| "match_request worker (req # reqs) =
     (case Containers worker of
        [] \<Rightarrow> Err (GoPanic ''index out of range'')
      | ttyd # _ \<Rightarrow>
          (if rNamespace req = Namespace (pmeta worker) \<and> rImage req = CImage ttyd
           then Ok (Some req)
           else match_request worker reqs))"

definition matchRequestFor :: "pod \<Rightarrow> ('w sys, Request option res) state" where
  "matchRequestFor worker = gets (\<lambda>s. match_request worker (All (requestQueue (pool s))))"

definition deleteWorker :: "'w kube \<Rightarrow> pod \<Rightarrow> ('w sys, unit res) state" where
  "deleteWorker K worker =
     client_write (DeletePod (nsname_of (pmeta worker))) (deletePod K (nsname_of (pmeta worker)))"

section \<open>Creating a worker\<close>

text \<open>The result is the caller's object after the call: what the server answered.\<close>

definition CreateOrUpdateService :: "'w kube \<Rightarrow> service \<Rightarrow> ('w sys, service res) state" where
  "CreateOrUpdateService K svc = do {
     r \<leftarrow> client_read (getService K (nsname_of (smeta svc)));
     case r of
       Inl e \<Rightarrow>
         (if IsNotFound e then client_write (CreateService svc) (createService K svc)
          else State_Monad.return (Err e))
     | Inr newer \<Rightarrow>
         (let svc' = svc\<lparr>smeta := (smeta svc)\<lparr>ResourceVersion := ResourceVersion (smeta newer)\<rparr>\<rparr>
          in client_write (UpdateService svc') (updateService K svc'))
   }"

definition CreateServiceFor :: "'w kube \<Rightarrow> pod \<Rightarrow> ('w sys, unit res) state" where
  "CreateServiceFor K worker =
     (case decodeService K (ServiceTmplV1 (Name (pmeta worker)) (Namespace (pmeta worker))
                              (Name (pmeta worker)) ''ClusterIP'') of
        Inl e \<Rightarrow> State_Monad.return (Err e)
      | Inr svc \<Rightarrow>
          (let m = (smeta svc)\<lparr>Labels := Some [(WorkerOwnerLabelKey, Name (pmeta worker))]\<rparr>
           in case SetControllerReference ''v1'' ''Pod'' (pmeta worker) m of
                Inl e \<Rightarrow> State_Monad.return (Err e)
              | Inr m' \<Rightarrow> bindE (CreateOrUpdateService K (svc\<lparr>smeta := m'\<rparr>))
                             (\<lambda>_. State_Monad.return (Ok ()))))"

text \<open>A successful \<open>Create\<close> stores the server's answer in \<open>pod\<close> before the service is made.\<close>

definition createWorker :: "'w kube \<Rightarrow> Request \<Rightarrow> ('w sys, unit res) state" where
  "createWorker K req =
     (case JSONStringToMap (rNodeSelector req) of
        Inl e \<Rightarrow> State_Monad.return (Err (Failure ''failed to unmarshal node selector for cloudshell''))
      | Inr sel \<Rightarrow> do {
          suffix \<leftarrow> rand_String K 10;
          case decodePod K (PodTmplV1 (''cloudshell-worker-'' @ suffix) (rNamespace req) (rImage req)
                              sel (map_option (deref K) (rResources req))) of
            Inl e \<Rightarrow> State_Monad.return (Err e)
          | Inr p \<Rightarrow>
              (let m = (pmeta p)\<lparr>Labels := Some [(WorkerOwnerLabelKey, ''''),
                                                 (WorkerRequestLabelKey, rCloudshell req),
                                                 (WorkerNameLabelKey, Name (pmeta p))]\<rparr>;
                   p' = p\<lparr>pmeta := snd (AddFinalizer ControllerFinalizer m)\<rparr>
               in bindE (client_write (CreatePod p') (createPod K p')) (CreateServiceFor K))
        })"

section \<open>Serving the waiting requests\<close>

definition handle_request :: "'w kube \<Rightarrow> Request \<Rightarrow> ('w sys, unit) state" where
  "handle_request K req = do {
     r \<leftarrow> matchWorkerFor req;
     case r of
       Inl _ \<Rightarrow> do {
         pods \<leftarrow> podLister_List (rNamespace req) WorkerRequestLabelKey (rCloudshell req);
         if length pods = 0
         then do { _ \<leftarrow> createWorker K req; State_Monad.return () }
         else State_Monad.return ()
       }
     | Inr _ \<Rightarrow> do {
         c \<leftarrow> client_read (getCloudShell K (rNamespace req, rCloudshell req));
         case c of
           Inl e \<Rightarrow> (if IsNotFound e then request_queue_Remove K req else State_Monad.return ())
         | Inr cloudshell \<Rightarrow> do {
             upd_ctrl (\<lambda>c. c\<lparr>cqueue := wq_Add (MetaNamespaceKey (cmeta cloudshell)) (cqueue c)\<rparr>);
             request_queue_Remove K req
           }
       }
   }"

definition handleRequestQueue :: "'w kube \<Rightarrow> ('w sys, unit) state" where
  "handleRequestQueue K = do {
     items \<leftarrow> gets (\<lambda>s. All (requestQueue (pool s)));
     for_each (handle_request K) items
   }"

section \<open>Scaling in\<close>

definition binding_count :: "pod \<Rightarrow> int" where
  "binding_count p = fst (ParseInt (gm_get (Labels (pmeta p)) WorkerBindingCountLabelKey))"

text \<open>The comparison handed to \<open>sort.Slice\<close>.\<close>

definition scale_less :: "pod \<Rightarrow> pod \<Rightarrow> bool" where
  "scale_less one two =
     (let n1 = binding_count one; n2 = binding_count two
      in if n1 = n2 then CreationTimestamp (pmeta one) < CreationTimestamp (pmeta two)
         else n1 < n2)"

text \<open>
  \<open>int(math.Floor(float64(d) * 0.75 + 0.5))\<close> for \<open>d = len(idelWorkers) - coreWorkerLimit\<close>: three
  quarters rounded half up. The product and the sum are exact in a float64 for every
  length a slice can have here.
\<close>

definition scale_number :: "int \<Rightarrow> int" where
  "scale_number d = (3 * d + 2) div 4"

fun scan_workers :: "'w kube \<Rightarrow> pod list \<Rightarrow> ('w sys, pod list res) state" where
  "scan_workers K [] = State_Monad.return (Ok [])"
| "scan_workers K (p # ps) = do {
     now \<leftarrow> time_Now K;
     case IsPodNotAvailable now p (30 * 60) of
       Inl e \<Rightarrow> State_Monad.return (Err e)
     | Inr notAvailable \<Rightarrow> do {
         _ \<leftarrow> (if notAvailable then deleteWorker K p else State_Monad.return (Ok ()));
         bindE (if IsPodReady p then matchRequestFor p else State_Monad.return (Ok None))
           (\<lambda>req. bindE (scan_workers K ps)
             (\<lambda>rest. State_Monad.return
               (Ok (if IsPodReady p \<and> req = None then p # rest else rest))))
       }
   }"

definition scale_delete :: "'w kube \<Rightarrow> pod list \<Rightarrow> nat \<Rightarrow> ('w sys, unit res) state" where
  "scale_delete K idle i =
     (if i < length idle
      then do {
        r \<leftarrow> deleteWorker K (idle ! i);
        case r of
          Inl _ \<Rightarrow> State_Monad.return (Ok ())
        | Inr _ \<Rightarrow> do { worker_queue_Remove (worker_key (idle ! i)); State_Monad.return (Ok ()) }
      }
      else State_Monad.return (Err (GoPanic ''index out of range'')))"

definition scaleInWorkerQueue :: "'w kube \<Rightarrow> ('w sys, unit res) state" where
  "scaleInWorkerQueue K = do {
     workers \<leftarrow> podLister_List '''' WorkerOwnerLabelKey '''';
     bindE (scan_workers K workers) (\<lambda>idelWorkers. do {
       core \<leftarrow> gets (\<lambda>s. coreWorkerLimit (pool s));
       if int (length idelWorkers) > core
       then (let sorted = sortSlice K scale_less idelWorkers;
                 l = scale_number (int (length sorted) - core)
             in for_eachE (scale_delete K sorted) [0..<nat l])
       else State_Monad.return (Ok ())
     })
   }"

section \<open>Lending and taking back\<close>

definition next_binding_count :: "gomap \<Rightarrow> int" where
  "next_binding_count labels =
     (case gm_lookup labels WorkerBindingCountLabelKey of
        None \<Rightarrow> 1
      | Some val \<Rightarrow> (case ParseInt val of (num, None) \<Rightarrow> num + 1 | (_, Some _) \<Rightarrow> 1))"

definition borrow_labels :: "Request \<Rightarrow> gomap \<Rightarrow> gomap" where
  "borrow_labels req labels =
     (if gm_len labels > 0
      then gm_delete WorkerRequestLabelKey
             (gm_set WorkerOwnerLabelKey (rCloudshell req)
               (gm_set WorkerBindingCountLabelKey (Sprint_int (next_binding_count labels)) labels))
      else labels)"

text \<open>The object behind a pointer that the lister returned.\<close>

definition cached_pod :: "nsname \<Rightarrow> 'w sys \<Rightarrow> pod" where
  "cached_pod k s = the (map_of (podIndexer s) k)"

definition write_cached_pod :: "nsname \<Rightarrow> pod \<Rightarrow> ('w sys, unit) state" where
  "write_cached_pod k p = State_Monad.update (set_cached_pod k p)"

text \<open>
  One run of the retried function of \<open>Borrow\<close>. The pod is not read again: a second run
  starts from what the first one made of it.
\<close>

definition borrow_try :: "'w kube \<Rightarrow> Request \<Rightarrow> nsname \<Rightarrow> ('w sys, unit res) state" where
  "borrow_try K req k = do {
     worker \<leftarrow> gets (cached_pod k);
     let m = (pmeta worker)\<lparr>Labels := borrow_labels req (Labels (pmeta worker))\<rparr>;
     let worker' = worker\<lparr>pmeta := snd (RemoveFinalizer ControllerFinalizer m)\<rparr>;
     write_cached_pod k worker';
     bindE (client_write (UpdatePod worker') (updatePod K worker'))
       (\<lambda>stored. do { write_cached_pod k stored; State_Monad.return (Ok ()) })
   }"

definition Borrow :: "'w kube \<Rightarrow> Request \<Rightarrow> ('w sys, pod res) state" where
  "Borrow K req = do {
     r \<leftarrow> matchWorkerFor req;
     case r of
       Inl e \<Rightarrow> do {
         (if e = ErrNotWorker
          then do { request_queue_Add req; send_match_signal }
          else State_Monad.return ());
         State_Monad.return (Err e)
       }
     | Inr k \<Rightarrow>
         bindE (RetryOnConflict DefaultRetry (borrow_try K req k) ()) (\<lambda>_. do {
           worker \<leftarrow> gets (cached_pod k);
           worker_queue_Remove (worker_key worker);
           State_Monad.return (Ok worker)
         })
   }"

definition back_try :: "'w kube \<Rightarrow> pod \<Rightarrow> ('w sys, unit res) state" where
  "back_try K worker = do {
     let k = (Namespace (pmeta worker), Name (pmeta worker));
     r \<leftarrow> podLister_Get k;
     case r of
       Inl e \<Rightarrow> State_Monad.return (if IsNotFound e then Ok () else Err e)
     | Inr newer \<Rightarrow>
         if \<not> IsPodReady newer then deleteWorker K newer
         else bindE (matchRequestFor newer) (\<lambda>req. do {
           len \<leftarrow> gets (\<lambda>s. Len (workerQueue (pool s)));
           limit \<leftarrow> gets (\<lambda>s. maxWorkerLimit (pool s));
           if req = None \<and> int len \<ge> limit then deleteWorker K newer
           else do {
             let m = snd (AddFinalizer ControllerFinalizer (pmeta newer));
             let newer' = newer\<lparr>pmeta := m\<lparr>Labels := gm_set WorkerOwnerLabelKey '''' (Labels m)\<rparr>\<rparr>;
             write_cached_pod k newer';
             bindE (client_write (UpdatePod newer') (updatePod K newer')) (\<lambda>stored. do {
               write_cached_pod k stored;
               worker_queue_Add (worker_key worker);
               (if req \<noteq> None then send_match_signal else State_Monad.return ());
               State_Monad.return (Ok ())
             })
           }
         })
   }"

definition Back :: "'w kube \<Rightarrow> pod \<Rightarrow> ('w sys, unit res) state" where
  "Back K worker = RetryOnConflict DefaultRetry (back_try K worker) ()"

end
