(* ===== verification/Routes.thy ===== *)
theory Routes
  imports Api_Types
begin

text \<open>
  The pure parts of routing in \<open>pkg/controllers/cloudshell_controller.go\<close>: the path of a
  cloudshell, the name of the shared ingress or virtual service, adding and removing a
  path there, the choice of the node address and of the node port. An index out of range
  or a nil pointer is a panic.
\<close>

section \<open>Names and paths\<close>

definition SetRouteRulePath :: "CloudShell \<Rightarrow> string" where
  "SetRouteRulePath cs =
     (let pathPrefix = (if length (PathPrefix (Spec cs)) \<noteq> 0 then PathPrefix (Spec cs) else '''');
          pathPrefix' = (if HasSuffix pathPrefix ''/''
                         then take (length pathPrefix - 1) pathPrefix @ DefaultPathPrefix
                         else pathPrefix @ DefaultPathPrefix)
      in if length (PathSuffix (Spec cs)) > 0
         then pathPrefix' @ ''/'' @ Name (cmeta cs) @ ''/'' @ PathSuffix (Spec cs)
         else pathPrefix' @ ''/'' @ Name (cmeta cs))"

definition IngressNamespacedName :: "CloudShell \<Rightarrow> nsname" where
  "IngressNamespacedName cs =
     (let config = IngConfig (Spec cs);
          ingressName = (case config of
             Some c \<Rightarrow> if length (IngressName c) > 0 then IngressName c else DefaultIngressName
           | None \<Rightarrow> DefaultIngressName);
          namespace = (case config of
             Some c \<Rightarrow> if length (IngNamespace c) > 0 then IngNamespace c else Namespace (cmeta cs)
           | None \<Rightarrow> Namespace (cmeta cs))
      in (namespace, ingressName))"

definition VsNamespacedName :: "CloudShell \<Rightarrow> nsname" where
  "VsNamespacedName cs =
     (let config = VsConfig (Spec cs);
          vsName = (case config of
             Some c \<Rightarrow> if length (VirtualServiceName c) > 0 then VirtualServiceName c
                       else DefaultVirtualServiceName
           | None \<Rightarrow> DefaultVirtualServiceName);
          namespace = (case config of
             Some c \<Rightarrow> if length (VsNamespace c) > 0 then VsNamespace c else Namespace (cmeta cs)
           | None \<Rightarrow> Namespace (cmeta cs))
      in (namespace, vsName))"

section \<open>Paths of an ingress\<close>

text \<open>The loop that points every entry of the path to the service, and tells if there was one.\<close>

fun set_backend :: "string \<Rightarrow> string \<Rightarrow> ingress_path list \<Rightarrow> ingress_path list \<times> bool" where
  "set_backend routePath service [] = ([], False)"
| "set_backend routePath service (p # ps) =
     (case set_backend routePath service ps of (ps', found) \<Rightarrow>
        if routePath = Path p
        then (p\<lparr>BackendService := service, BackendPort := 7681\<rparr> # ps', True)
        else (p # ps', found))"

definition upsert_path :: "string \<Rightarrow> string \<Rightarrow> ingress_path list \<Rightarrow> ingress_path list" where
  "upsert_path routePath service paths =
     (case set_backend routePath service paths of (paths', found) \<Rightarrow>
        if found then paths'
        else paths' @ [\<lparr>Path = routePath, PathType = ''Prefix'',
                        BackendService = service, BackendPort = 7681\<rparr>])"

definition remove_path :: "string \<Rightarrow> ingress_path list \<Rightarrow> ingress_path list" where
  "remove_path routePath paths = filter (\<lambda>p. routePath \<noteq> Path p) paths"

text \<open>\<open>ingress.Spec.Rules[0].HTTP.Paths\<close>.\<close>

definition ingress_paths :: "ingress \<Rightarrow> ingress_path list res" where
  "ingress_paths ing =
     (case Rules ing of
        [] \<Rightarrow> Err (GoPanic ''index out of range'')
      | r # _ \<Rightarrow> (case HTTPPaths r of
                   None \<Rightarrow> Err (GoPanic ''nil pointer dereference'')
                 | Some ps \<Rightarrow> Ok ps))"

definition set_ingress_paths :: "ingress_path list \<Rightarrow> ingress \<Rightarrow> ingress" where
  "set_ingress_paths ps ing =
     (case Rules ing of [] \<Rightarrow> ing | r # rs \<Rightarrow> ing\<lparr>Rules := r\<lparr>HTTPPaths := Some ps\<rparr> # rs\<rparr>)"

lemma ingress_paths_set [simp]:
  "ingress_paths ing = Ok ps \<Longrightarrow> ingress_paths (set_ingress_paths ps' ing) = Ok ps'"
  by (auto simp: ingress_paths_def set_ingress_paths_def split: list.splits option.splits)

lemma set_backend_eq:
  "set_backend r s ps =
     (map (\<lambda>p. if Path p = r then p\<lparr>BackendService := s, BackendPort := 7681\<rparr> else p) ps,
      r \<in> Path ` set ps)"
  by (induction ps) (auto simp: image_iff)

lemma remove_path_idle: "r \<notin> Path ` set ps \<Longrightarrow> remove_path r ps = ps"
  by (auto simp: remove_path_def filter_id_conv)

text \<open>
  Property C32. After adding a path, every entry of that path leads to the given service on
  port 7681 and there is at least one; all entries of other paths are kept in their order;
  adding it again, for the same service, changes nothing; and removing it leaves exactly
  the entries of the other paths, so removing undoes adding.
\<close>

theorem upsert_remove_path:
  "(\<exists>p \<in> set (upsert_path r s ps). Path p = r) \<and>
   (\<forall>p \<in> set (upsert_path r s ps). Path p = r \<longrightarrow> BackendService p = s \<and> BackendPort p = 7681) \<and>
   filter (\<lambda>p. Path p \<noteq> r) (upsert_path r s ps) = filter (\<lambda>p. Path p \<noteq> r) ps \<and>
   upsert_path r s (upsert_path r s ps) = upsert_path r s ps \<and>
   remove_path r (upsert_path r s ps) = remove_path r ps \<and>
   (\<forall>p \<in> set (remove_path r ps). Path p \<noteq> r) \<and>
   (r \<notin> Path ` set ps \<longrightarrow> remove_path r (upsert_path r s ps) = ps)"
proof -
  define f :: "ingress_path \<Rightarrow> ingress_path" where "f = (\<lambda>p. if Path p = r then p\<lparr>BackendService := s, BackendPort := 7681\<rparr> else p)"
  define new where "new = \<lparr>Path = r, PathType = ''Prefix'', BackendService = s, BackendPort = 7681\<rparr>"
  have f: "Path (f p) = Path p" "f (f p) = f p" "Path p \<noteq> r \<Longrightarrow> f p = p" "f new = new" "Path new = r"
    "Path p = r \<Longrightarrow> BackendService (f p) = s \<and> BackendPort (f p) = 7681" for p
    by (simp_all add: f_def new_def)
  have up: "upsert_path r s qs = map f qs @ (if r \<in> Path ` set qs then [] else [new])" for qs
    by (simp add: upsert_path_def set_backend_eq f_def new_def)
  have paths: "Path ` set (map f qs) = Path ` set qs" for qs by (induction qs) (auto simp: f)
  then have in_up: "r \<in> Path ` set (upsert_path r s qs)" for qs
    unfolding up by (simp add: image_Un f del: set_map)
  have filt: "filter (\<lambda>p. Path p \<noteq> r) (upsert_path r s qs) = filter (\<lambda>p. Path p \<noteq> r) qs" for qs
  proof -
    have "filter (\<lambda>p. Path p \<noteq> r) (map f qs) = filter (\<lambda>p. Path p \<noteq> r) qs"
      by (induction qs) (auto simp: f)
    then show ?thesis by (simp add: up f)
  qed
  have twice: "upsert_path r s (upsert_path r s ps) = upsert_path r s ps"
  proof -
    have "map f (upsert_path r s ps) = upsert_path r s ps" by (simp add: up f)
    then show ?thesis using in_up [of ps] up [of "upsert_path r s ps"] by simp
  qed
  have hits: "\<forall>p \<in> set (upsert_path r s ps). Path p = r \<longrightarrow> BackendService p = s \<and> BackendPort p = 7681"
    by (auto simp: up f new_def)
  have rem: "remove_path r qs = filter (\<lambda>p. Path p \<noteq> r) qs" for qs
    unfolding remove_path_def by (rule filter_cong) auto
  show ?thesis
    using in_up [of ps] filt [of ps] twice hits remove_path_idle [of r ps]
    by (auto simp: rem)
qed

theorem upsert_remove_path_witness:
  "remove_path ''/a'' (upsert_path ''/a'' ''svc''
     [\<lparr>Path = ''/b'', PathType = ''Prefix'', BackendService = ''x'', BackendPort = 7681\<rparr>]) =
   [\<lparr>Path = ''/b'', PathType = ''Prefix'', BackendService = ''x'', BackendPort = 7681\<rparr>]"
  using upsert_remove_path
    [of "''/a''" "''svc''" "[\<lparr>Path = ''/b'', PathType = ''Prefix'', BackendService = ''x'', BackendPort = 7681\<rparr>]"]
  by (simp add: remove_path_def)

section \<open>Routes of a virtual service\<close>

text \<open>The prefix a route matches, when its first match has one.\<close>

definition route_prefix :: "http_route \<Rightarrow> string option" where
  "route_prefix r = (case Match r of Some (MatchPrefix p) # _ \<Rightarrow> Some p | _ \<Rightarrow> None)"

definition set_route_host :: "string \<Rightarrow> http_route \<Rightarrow> http_route res" where
  "set_route_host host r =
     (case RouteHosts r of
        [] \<Rightarrow> Err (GoPanic ''index out of range'')
      | _ # hs \<Rightarrow> Ok (r\<lparr>RouteHosts := host # hs\<rparr>))"

fun update_routes :: "string \<Rightarrow> string \<Rightarrow> http_route list \<Rightarrow> (http_route list \<times> bool) res" where
  "update_routes routePath host [] = Ok ([], False)"
| "update_routes routePath host (r # rs) =
     (if route_prefix r = Some routePath
      then case set_route_host host r of
             Inl e \<Rightarrow> Err e
           | Inr r' \<Rightarrow>
               (case update_routes routePath host rs of
                  Inl e \<Rightarrow> Err e
                | Inr (rs', _) \<Rightarrow> Ok (r' # rs', True))
      else case update_routes routePath host rs of
             Inl e \<Rightarrow> Err e
           | Inr (rs', found) \<Rightarrow> Ok (r # rs', found))"

text \<open>A copy of the first route, with its first match and destination replaced.\<close>

definition new_route :: "string \<Rightarrow> string \<Rightarrow> http_route list \<Rightarrow> http_route res" where
  "new_route routePath host http =
     (case http of
        [] \<Rightarrow> Err (GoPanic ''index out of range'')
      | r # _ \<Rightarrow>
          (case Match r of
             [] \<Rightarrow> Err (GoPanic ''index out of range'')
           | None # _ \<Rightarrow> Err (GoPanic ''nil pointer dereference'')
           | Some _ # ms \<Rightarrow>
               set_route_host host (r\<lparr>Match := Some (MatchPrefix routePath) # ms\<rparr>)))"

definition upsert_route :: "string \<Rightarrow> string \<Rightarrow> http_route list \<Rightarrow> http_route list res" where
  "upsert_route routePath host http =
     (case update_routes routePath host http of
        Inl e \<Rightarrow> Err e
      | Inr (http', found) \<Rightarrow>
          if found then Ok http'
          else (case new_route routePath host http' of
                  Inl e \<Rightarrow> Err e
                | Inr r \<Rightarrow> Ok (http' @ [r])))"

definition remove_route :: "string \<Rightarrow> http_route list \<Rightarrow> http_route list" where
  "remove_route routePath http =
     filter (\<lambda>r. case Match r of
                   Some (MatchPrefix p) # _ \<Rightarrow> routePath \<noteq> p
                 | _ \<Rightarrow> True) http"

lemma remove_route_eq: "remove_route p http = filter (\<lambda>r. route_prefix r \<noteq> Some p) http"
  unfolding remove_route_def
  by (rule filter_cong) (auto simp: route_prefix_def split: list.splits option.splits string_match.splits)

lemma set_route_host_Inr:
  "set_route_host h r = Inr r' \<Longrightarrow> route_prefix r' = route_prefix r \<and> (\<exists>hs. RouteHosts r' = h # hs)"
  by (auto simp: set_route_host_def route_prefix_def split: list.splits)

lemma update_routes_Inr:
  "update_routes p h http = Inr (http', found) \<Longrightarrow>
   map route_prefix http' = map route_prefix http \<and>
   found = (Some p \<in> route_prefix ` set http) \<and>
   filter (\<lambda>r. route_prefix r \<noteq> Some p) http' = filter (\<lambda>r. route_prefix r \<noteq> Some p) http \<and>
   (\<forall>r \<in> set http'. route_prefix r = Some p \<longrightarrow> (\<exists>hs. RouteHosts r = h # hs))"
proof (induction http arbitrary: http' found)
  case (Cons r http)
  then show ?case
    by (auto split: if_splits sum.splits prod.splits dest!: set_route_host_Inr)
qed simp

lemma new_route_Inr:
  "new_route p h http = Inr r \<Longrightarrow> route_prefix r = Some p \<and> (\<exists>hs. RouteHosts r = h # hs)"
  by (auto simp: new_route_def split: list.splits option.splits dest!: set_route_host_Inr)
    (auto simp: route_prefix_def)

text \<open>
  Property C33. When adding a route to a virtual service does not panic, some route then
  matches the path as a prefix, every such route leads to the given host, the routes of
  other prefixes are kept in their order, and removing the path gives what removing it
  before would have given. It panics only where the service has a route without a
  destination, or no first route with a match to copy.
\<close>

theorem upsert_remove_route:
  assumes "upsert_route p h http = Inr http'"
  shows "(\<exists>r \<in> set http'. route_prefix r = Some p) \<and>
    (\<forall>r \<in> set http'. route_prefix r = Some p \<longrightarrow> (\<exists>hs. RouteHosts r = h # hs)) \<and>
    remove_route p http' = remove_route p http \<and>
    (Some p \<notin> route_prefix ` set http \<longrightarrow> remove_route p http' = http)"
proof -
  obtain h1 found where u: "update_routes p h http = Inr (h1, found)"
    using assms by (auto simp: upsert_route_def split: sum.splits)
  note i = update_routes_Inr [OF u]
  have idle: "Some p \<notin> route_prefix ` set http \<Longrightarrow> remove_route p http = http"
    by (force simp: remove_route_eq filter_id_conv image_iff)
  show ?thesis
  proof (cases found)
    case True
    have "set (map route_prefix h1) = set (map route_prefix http)" using i by (simp only: i)
    then have "Some p \<in> route_prefix ` set h1" using i True unfolding set_map by blast
    then have "\<exists>r \<in> set h1. route_prefix r = Some p" by (metis imageE)
    moreover have "http' = h1" using assms u True by (simp add: upsert_route_def)
    ultimately show ?thesis using i idle by (simp add: remove_route_eq)
  next
    case False
    then obtain r where "http' = h1 @ [r]" "new_route p h h1 = Inr r"
      using assms u by (auto simp: upsert_route_def split: sum.splits)
    with i idle new_route_Inr [of p h h1 r] show ?thesis
      by (simp add: remove_route_eq)
  qed
qed

theorem upsert_remove_route_witness:
  "upsert_route ''/b'' ''h2'' [\<lparr>Match = [Some (MatchPrefix ''/a'')], RouteHosts = [''h1'']\<rparr>] =
     Inr [\<lparr>Match = [Some (MatchPrefix ''/a'')], RouteHosts = [''h1'']\<rparr>,
          \<lparr>Match = [Some (MatchPrefix ''/b'')], RouteHosts = [''h2'']\<rparr>] \<and>
   remove_route ''/b'' [\<lparr>Match = [Some (MatchPrefix ''/a'')], RouteHosts = [''h1'']\<rparr>,
          \<lparr>Match = [Some (MatchPrefix ''/b'')], RouteHosts = [''h2'']\<rparr>] =
     [\<lparr>Match = [Some (MatchPrefix ''/a'')], RouteHosts = [''h1'']\<rparr>]"
proof -
  have u: "upsert_route ''/b'' ''h2'' [\<lparr>Match = [Some (MatchPrefix ''/a'')], RouteHosts = [''h1'']\<rparr>] =
     Inr [\<lparr>Match = [Some (MatchPrefix ''/a'')], RouteHosts = [''h1'']\<rparr>,
          \<lparr>Match = [Some (MatchPrefix ''/b'')], RouteHosts = [''h2'']\<rparr>]"
    by (simp add: upsert_route_def route_prefix_def new_route_def set_route_host_def)
  with upsert_remove_route [OF u] show ?thesis by (simp add: route_prefix_def remove_route_eq)
qed

section \<open>Distinct cloudshells and their paths\<close>

lemma SetRouteRulePath_parts:
  "\<exists>base. \<forall>n. SetRouteRulePath (cs\<lparr>cmeta := (cmeta cs)\<lparr>Name := n\<rparr>\<rparr>) =
     base @ ''/'' @ n @ (if PathSuffix (Spec cs) = '''' then '''' else ''/'' @ PathSuffix (Spec cs))"
  unfolding SetRouteRulePath_def Let_def
  by (cases "HasSuffix (if length (PathPrefix (Spec cs)) \<noteq> 0 then PathPrefix (Spec cs) else '''') ''/''")
    (auto intro: exI)

text \<open>
  Cloudshells that differ only in their names have different route paths; a
  trailing slash of the path prefix makes no difference; and the path does not depend on
  the namespace, so equally named cloudshells of two namespaces with the same prefix and
  suffix share one path.
\<close>

theorem SetRouteRulePath_injective:
  "(SetRouteRulePath (cs\<lparr>cmeta := (cmeta cs)\<lparr>Name := n\<rparr>\<rparr>) =
      SetRouteRulePath (cs\<lparr>cmeta := (cmeta cs)\<lparr>Name := n'\<rparr>\<rparr>) \<longleftrightarrow> n = n') \<and>
   (\<not> HasSuffix (PathPrefix (Spec cs)) ''/'' \<longrightarrow>
      SetRouteRulePath (cs\<lparr>Spec := (Spec cs)\<lparr>PathPrefix := PathPrefix (Spec cs) @ ''/''\<rparr>\<rparr>) =
      SetRouteRulePath cs) \<and>
   SetRouteRulePath (cs\<lparr>cmeta := (cmeta cs)\<lparr>Namespace := ns\<rparr>\<rparr>) = SetRouteRulePath cs"
proof (intro conjI)
  obtain base where b: "\<forall>n. SetRouteRulePath (cs\<lparr>cmeta := (cmeta cs)\<lparr>Name := n\<rparr>\<rparr>) =
     base @ ''/'' @ n @ (if PathSuffix (Spec cs) = '''' then '''' else ''/'' @ PathSuffix (Spec cs))"
    using SetRouteRulePath_parts by blast
  then show "SetRouteRulePath (cs\<lparr>cmeta := (cmeta cs)\<lparr>Name := n\<rparr>\<rparr>) =
      SetRouteRulePath (cs\<lparr>cmeta := (cmeta cs)\<lparr>Name := n'\<rparr>\<rparr>) \<longleftrightarrow> n = n'"
    by simp
  show "\<not> HasSuffix (PathPrefix (Spec cs)) ''/'' \<longrightarrow>
      SetRouteRulePath (cs\<lparr>Spec := (Spec cs)\<lparr>PathPrefix := PathPrefix (Spec cs) @ ''/''\<rparr>\<rparr>) =
      SetRouteRulePath cs"
    by (auto simp: SetRouteRulePath_def Let_def HasSuffix_def)
  show "SetRouteRulePath (cs\<lparr>cmeta := (cmeta cs)\<lparr>Namespace := ns\<rparr>\<rparr>) = SetRouteRulePath cs"
    by (simp add: SetRouteRulePath_def)
qed

definition blank_spec :: CloudShellSpec where
  "blank_spec = \<lparr>SecretRef = None, Image = '''', Once = False, CommandAction = '''',
     TTLSecondsAfterStarted = None, Cleanup = False, ExposeMode = '''', IngConfig = None,
     VsConfig = None, PathPrefix = '''', PathSuffix = '''', UrlArg = False, Env = [],
     TtydClientOptions = None\<rparr>"

definition blank_cs :: "string \<Rightarrow> string \<Rightarrow> CloudShell" where
  "blank_cs ns name = \<lparr>cmeta = blank_meta ns name, Spec = blank_spec,
     Status = \<lparr>Phase = '''', AccessURL = '''', LastScheduleTime = None\<rparr>\<rparr>"

theorem SetRouteRulePath_injective_witness:
  "SetRouteRulePath ((blank_cs ''ns'' ''a'')\<lparr>Spec := blank_spec\<lparr>PathPrefix := ''/''\<rparr>\<rparr>) =
     SetRouteRulePath (blank_cs ''ns'' ''a'')"
  using SetRouteRulePath_injective [where cs = "blank_cs ''ns'' ''a''"]
  by (simp add: blank_cs_def blank_spec_def HasSuffix_def)

section \<open>The address of a control plane node\<close>

text \<open>The loop over the addresses of a ready node: \<open>Inl\<close> the external address it returns with, or
  \<open>Inr\<close> the internal address found so far.\<close>

fun scan_addrs :: "string \<Rightarrow> (string \<times> string) list \<Rightarrow> string + string" where
  "scan_addrs internalIP [] = Inr internalIP"
| "scan_addrs internalIP ((ty, addr) # as) =
     (if ty = ''ExternalIP'' then Inl addr
      else scan_addrs (if ty = ''InternalIP'' then addr else internalIP) as)"

fun scan_conditions ::
  "(string \<times> string) list \<Rightarrow> string \<Rightarrow> (string \<times> string) list \<Rightarrow> string + string" where
  "scan_conditions addrs internalIP [] = Inr internalIP"
| "scan_conditions addrs internalIP ((ty, status) # cs) =
     (if ty = ''Ready'' \<and> status = ''True''
      then case scan_addrs internalIP addrs of
             Inl ext \<Rightarrow> Inl ext
           | Inr ip \<Rightarrow> scan_conditions addrs ip cs
      else scan_conditions addrs internalIP cs)"

fun scan_nodes :: "string \<Rightarrow> node list \<Rightarrow> string + string" where
  "scan_nodes internalIP [] = Inr internalIP"
| "scan_nodes internalIP (n # ns) =
     (case scan_conditions (NodeAddresses n) internalIP (NodeConditions n) of
        Inl ext \<Rightarrow> Inl ext
      | Inr ip \<Rightarrow> scan_nodes ip ns)"

definition node_address :: "node list \<Rightarrow> string res" where
  "node_address nodes =
     (case scan_nodes '''' nodes of
        Inl ext \<Rightarrow> Ok ext
      | Inr internalIP \<Rightarrow>
          if length internalIP \<noteq> 0 then Ok internalIP
          else Err (Failure ''no available node IP was found''))"

text \<open>The addresses in the order in which the loops visit them.\<close>

definition ready_addrs :: "node list \<Rightarrow> (string \<times> string) list" where
  "ready_addrs nodes =
     concat (map (\<lambda>n. concat (map (\<lambda>_. NodeAddresses n)
       (filter (\<lambda>c. c = (''Ready'', ''True'')) (NodeConditions n)))) nodes)"

lemma scan_addrs_append:
  "scan_addrs ip (xs @ ys) = (case scan_addrs ip xs of Inl e \<Rightarrow> Inl e | Inr ip' \<Rightarrow> scan_addrs ip' ys)"
  by (induction xs arbitrary: ip) auto

lemma scan_conditions_eq:
  "scan_conditions addrs ip cs =
     scan_addrs ip (concat (map (\<lambda>_. addrs) (filter (\<lambda>c. c = (''Ready'', ''True'')) cs)))"
  by (induction cs arbitrary: ip) (auto simp: scan_addrs_append split: sum.splits if_splits)

lemma scan_nodes_eq: "scan_nodes ip nodes = scan_addrs ip (ready_addrs nodes)"
proof (induction nodes arbitrary: ip)
  case (Cons n nodes)
  have "ready_addrs (n # nodes) =
      concat (map (\<lambda>_. NodeAddresses n) (filter (\<lambda>c. c = (''Ready'', ''True'')) (NodeConditions n))) @
      ready_addrs nodes" by (simp add: ready_addrs_def)
  then show ?case by (simp add: Cons scan_conditions_eq scan_addrs_append split: sum.split)
qed (simp add: ready_addrs_def)

lemma scan_addrs_eq:
  "scan_addrs ip as =
     (case find (\<lambda>a. fst a = ''ExternalIP'') as of
        Some a \<Rightarrow> Inl (snd a)
      | None \<Rightarrow> Inr (last (ip # map snd (filter (\<lambda>a. fst a = ''InternalIP'') as))))"
  by (induction ip as rule: scan_addrs.induct) (auto split: option.split)

text \<open>
  The address chosen for a NodePort shell is the first external address of a
  ready node, where any ready node has one; otherwise the last internal address of the
  ready nodes; and it is an error when there is neither.
\<close>

theorem node_address_spec:
  "node_address nodes =
     (case find (\<lambda>a. fst a = ''ExternalIP'') (ready_addrs nodes) of
        Some a \<Rightarrow> Ok (snd a)
      | None \<Rightarrow>
          (let internals = map snd (filter (\<lambda>a. fst a = ''InternalIP'') (ready_addrs nodes))
           in if internals = [] \<or> last internals = ''''
              then Err (Failure ''no available node IP was found'')
              else Ok (last internals)))"
  by (auto simp: node_address_def scan_nodes_eq scan_addrs_eq Let_def split: option.split)

section \<open>The node port\<close>

fun first_node_port :: "service_port list \<Rightarrow> int" where
  "first_node_port [] = 0"
| "first_node_port (p # ps) = (if NodePort p \<noteq> 0 then NodePort p else first_node_port ps)"

lemma first_node_port_eq:
  "first_node_port ps = (case find (\<lambda>p. NodePort p \<noteq> 0) ps of None \<Rightarrow> 0 | Some p \<Rightarrow> NodePort p)"
  by (induction ps) auto

end
