(* ===== verification/Ingress_Host.thy ===== *)
theory Ingress_Host
  imports GoStrings
begin

text \<open>
  Validation of the host of an ingress: \<open>validateIngressHost\<close> in
  \<open>pkg/controllers/cloudshell_controller.go\<close> and \<open>IsDNS1123Subdomain\<close> of apimachinery, whose
  test is the regular expression \<open>dns1123SubdomainFmt\<close>. The expression is given with its
  language; the executable test splits at the dots, and the two are shown to agree.
\<close>

section \<open>Regular expressions\<close>

datatype rexp = Cls "char list" | Seq rexp rexp | Opt rexp | Star rexp

inductive matches :: "rexp \<Rightarrow> string \<Rightarrow> bool" where
  Cls: "c \<in> set cs \<Longrightarrow> matches (Cls cs) [c]"
| Seq: "matches r s \<Longrightarrow> matches r' s' \<Longrightarrow> matches (Seq r r') (s @ s')"
| Opt_none: "matches (Opt r) []"
| Opt_some: "matches r s \<Longrightarrow> matches (Opt r) s"
| Star_nil: "matches (Star r) []"
| Star_step: "matches r s \<Longrightarrow> matches (Star r) s' \<Longrightarrow> matches (Star r) (s @ s')"

inductive_cases matches_ClsE: "matches (Cls cs) s"
inductive_cases matches_SeqE: "matches (Seq r r') s"
inductive_cases matches_OptE: "matches (Opt r) s"

definition alnum :: "char list" where
  "alnum = ''abcdefghijklmnopqrstuvwxyz0123456789''"

definition dns1123LabelFmt :: rexp where
  "dns1123LabelFmt = Seq (Cls alnum) (Opt (Seq (Star (Cls (CHR ''-'' # alnum))) (Cls alnum)))"

definition dns1123SubdomainFmt :: rexp where
  "dns1123SubdomainFmt = Seq dns1123LabelFmt (Star (Seq (Cls ''.'') dns1123LabelFmt))"

section \<open>The executable test\<close>

definition label_ok :: "string \<Rightarrow> bool" where
  "label_ok s =
     (s \<noteq> [] \<and> hd s \<in> set alnum \<and> last s \<in> set alnum \<and>
      list_all (\<lambda>c. c \<in> set (CHR ''-'' # alnum)) s)"

definition dns1123Subdomain_MatchString :: "string \<Rightarrow> bool" where
  "dns1123Subdomain_MatchString s = list_all label_ok (Split s ''.'')"

lemma matches_Star_Cls: "matches (Star (Cls cs)) s \<longleftrightarrow> set s \<subseteq> set cs"
proof
  have "matches r s \<Longrightarrow> r = Star (Cls cs) \<Longrightarrow> set s \<subseteq> set cs" for r
    by (induction rule: matches.induct) (auto elim: matches_ClsE)
  then show "matches (Star (Cls cs)) s \<Longrightarrow> set s \<subseteq> set cs" by blast
next
  show "set s \<subseteq> set cs \<Longrightarrow> matches (Star (Cls cs)) s"
  proof (induction s)
    case (Cons c s)
    then show ?case using Star_step [OF Cls [of c cs]] by simp
  qed (rule Star_nil)
qed

lemma matches_label: "matches dns1123LabelFmt s \<longleftrightarrow> label_ok s"
proof
  assume "matches dns1123LabelFmt s"
  then show "label_ok s"
    unfolding dns1123LabelFmt_def
    by (auto simp: label_ok_def matches_Star_Cls list_all_iff elim!: matches_SeqE matches_OptE matches_ClsE)
next
  assume ok: "label_ok s"
  then obtain c t where s: "s = c # t" by (cases s) (auto simp: label_ok_def)
  have c: "matches (Cls alnum) [c]" using ok s by (auto simp: label_ok_def intro: matches.Cls)
  have "matches (Opt (Seq (Star (Cls (CHR ''-'' # alnum))) (Cls alnum))) t"
  proof (cases t rule: rev_cases)
    case Nil
    then show ?thesis by (simp add: Opt_none)
  next
    case (snoc u d)
    have "matches (Star (Cls (CHR ''-'' # alnum))) u" "matches (Cls alnum) [d]"
      using ok s snoc by (auto simp: label_ok_def matches_Star_Cls list_all_iff intro: matches.Cls)
    then show ?thesis using snoc by (blast intro: Opt_some matches.Seq)
  qed
  with matches.Seq [OF c] s show "matches dns1123LabelFmt s" by (simp add: dns1123LabelFmt_def)
qed

lemma label_ok_no_dot: "label_ok s \<Longrightarrow> CHR ''.'' \<notin> set s"
proof -
  have "CHR ''.'' \<notin> set (CHR ''-'' # alnum)" by (simp add: alnum_def)
  then show "label_ok s \<Longrightarrow> CHR ''.'' \<notin> set s" unfolding label_ok_def list_all_iff by blast
qed

lemma matches_dotted:
  "matches (Star (Seq (Cls ''.'') dns1123LabelFmt)) s \<Longrightarrow>
   \<exists>ls. list_all label_ok ls \<and> s = concat (map (\<lambda>l. CHR ''.'' # l) ls)"
proof -
  have "matches r s \<Longrightarrow> r = Star (Seq (Cls ''.'') dns1123LabelFmt) \<Longrightarrow>
      \<exists>ls. list_all label_ok ls \<and> s = concat (map (\<lambda>l. CHR ''.'' # l) ls)" for r
  proof (induction rule: matches.induct)
    case (Star_nil r)
    then show ?case by (intro exI [of _ "[]"]) simp
  next
    case (Star_step r s s')
    then obtain ls where ls: "list_all label_ok ls" "s' = concat (map (\<lambda>l. CHR ''.'' # l) ls)" by blast
    from Star_step obtain l where "s = CHR ''.'' # l" "label_ok l"
      by (auto simp: matches_label elim!: matches_SeqE matches_ClsE)
    with ls show ?case by (intro exI [of _ "l # ls"]) simp
  qed auto
  then show "matches (Star (Seq (Cls ''.'') dns1123LabelFmt)) s \<Longrightarrow>
      \<exists>ls. list_all label_ok ls \<and> s = concat (map (\<lambda>l. CHR ''.'' # l) ls)" by blast
qed

lemma dotted_matches:
  "list_all label_ok ls \<Longrightarrow>
   matches (Star (Seq (Cls ''.'') dns1123LabelFmt)) (concat (map (\<lambda>l. CHR ''.'' # l) ls))"
proof (induction ls)
  case (Cons l ls)
  have "matches (Seq (Cls ''.'') dns1123LabelFmt) ([CHR ''.''] @ l)"
    using Cons.prems by (intro matches.Seq matches.Cls) (simp_all add: matches_label)
  from Star_step [OF this] Cons show ?case by simp
qed (simp add: Star_nil)

lemma Join_dotted: "Join (l # ls) ''.'' = l @ concat (map (\<lambda>l. CHR ''.'' # l) ls)"
  by (induction ls arbitrary: l) auto

lemma Join_Split: "Join (Split s [c]) [c] = s"
proof -
  have "\<exists>x xs. split_from [c] acc s = x # xs \<and> Join (x # xs) [c] = rev acc @ s" for acc
  proof (induction s arbitrary: acc)
    case (Cons d s)
    show ?case
    proof (cases "d = c")
      case True
      obtain x xs where "split_from [c] [] s = x # xs" "Join (x # xs) [c] = s"
        using Cons [of "[]"] by auto
      with True show ?thesis by (simp add: split_from.simps)
    next
      case False
      with Cons [of "d # acc"] show ?thesis by (simp add: split_from.simps)
    qed
  qed simp
  from this [of "[]"] show ?thesis by (auto simp: Split_def)
qed

lemma MatchString_iff: "dns1123Subdomain_MatchString s \<longleftrightarrow> matches dns1123SubdomainFmt s"
proof
  assume ok: "dns1123Subdomain_MatchString s"
  obtain l ls where ls: "Split s ''.'' = l # ls"
    using Join_Split [of s "CHR ''.''"] ok
    by (cases "Split s ''.''") (auto simp: dns1123Subdomain_MatchString_def Split_def)
  have "s = l @ concat (map (\<lambda>l. CHR ''.'' # l) ls)"
    using Join_Split [of s "CHR ''.''"] ls Join_dotted by metis
  moreover have "matches dns1123LabelFmt l" "list_all label_ok ls"
    using ok ls by (simp_all add: dns1123Subdomain_MatchString_def matches_label)
  ultimately show "matches dns1123SubdomainFmt s"
    unfolding dns1123SubdomainFmt_def by (auto intro: matches.Seq dotted_matches)
next
  assume "matches dns1123SubdomainFmt s"
  then obtain l ls where s: "s = Join (l # ls) ''.''" "label_ok l" "list_all label_ok ls"
    unfolding dns1123SubdomainFmt_def
    by (auto simp: matches_label Join_dotted elim!: matches_SeqE dest!: matches_dotted)
  then have "Split s ''.'' = l # ls"
    using label_ok_no_dot by (auto intro!: Split_Join simp: list_all_iff)
  with s show "dns1123Subdomain_MatchString s" by (simp add: dns1123Subdomain_MatchString_def)
qed

section \<open>Validation\<close>

definition DNS1123SubdomainMaxLength :: nat where "DNS1123SubdomainMaxLength = 253"

definition IsDNS1123Subdomain :: "string \<Rightarrow> string list" where
  "IsDNS1123Subdomain val =
     (if length val > DNS1123SubdomainMaxLength then [''must be no more than 253 characters''] else []) @
     (if \<not> dns1123Subdomain_MatchString val
      then [''a lowercase RFC 1123 subdomain must consist of lower case alphanumeric characters, '' @
            [CHR 0x27] @ ''-'' @ [CHR 0x27] @ '' or '' @ [CHR 0x27] @ ''.'' @ [CHR 0x27] @
            '', and must start and end with an alphanumeric character (e.g. '' @
            [CHR 0x27] @ ''example.com'' @ [CHR 0x27] @ '', regex used for validation is '' @
            [CHR 0x27] @ ''[a-z0-9]([-a-z0-9]*[a-z0-9])?('' @ [CHR 0x5C] @
            ''.[a-z0-9]([-a-z0-9]*[a-z0-9])?)*'' @ [CHR 0x27] @ '')'']
      else [])"

definition wildcard_error :: string where
  "wildcard_error =
     ''wildcard '' @ [CHR 0x27] @ ''*'' @ [CHR 0x27] @ '' is only allowed as the first label (prefix '' @
     [CHR 0x27] @ ''*.'' @ [CHR 0x27] @ '')''"

text \<open>The error text shows the suffix between quotes; the escapes of \<open>%q\<close> are left out.\<close>

definition validateIngressHost :: "string \<Rightarrow> string list" where
  "validateIngressHost host =
     (if length host = 0 then [''host must not be empty'']
      else if HasPrefix host ''*.''
      then if Contains (drop 2 host) ''*'' then [wildcard_error]
           else let suffix' = drop 2 host
                in if length suffix' = 0
                   then [''wildcard host must have a suffix after '' @ [CHR 0x27] @ ''*.'' @ [CHR 0x27]]
                   else let errs = IsDNS1123Subdomain suffix'
                        in if length errs > 0
                           then [''invalid wildcard host suffix '' @ [CHR 0x22] @ suffix' @ [CHR 0x22] @
                                 '': '' @ Join errs ''; '']
                           else []
      else if Contains host ''*'' then [wildcard_error]
      else IsDNS1123Subdomain host)"

definition subdomain :: "string \<Rightarrow> bool" where
  "subdomain s \<longleftrightarrow> matches dns1123SubdomainFmt s \<and> length s \<le> 253"

lemma IsDNS1123Subdomain_valid: "IsDNS1123Subdomain s = [] \<longleftrightarrow> subdomain s"
  by (auto simp: IsDNS1123Subdomain_def subdomain_def MatchString_iff DNS1123SubdomainMaxLength_def)

lemma subdomain_no_star: "subdomain s \<Longrightarrow> s \<noteq> [] \<and> CHR ''*'' \<notin> set s"
proof -
  have "set (Join ls ''.'') \<subseteq> insert (CHR ''.'') (set (CHR ''-'' # alnum))" if "list_all label_ok ls" for ls
    using that
  proof (induction ls rule: induct_list012)
    case (3 x y xs)
    then show ?case by (auto simp: label_ok_def list_all_iff)
  qed (auto simp: label_ok_def list_all_iff)
  then have "set s \<subseteq> insert (CHR ''.'') (set (CHR ''-'' # alnum))" if "subdomain s"
    using that Join_Split [of s "CHR ''.''"]
    by (metis MatchString_iff dns1123Subdomain_MatchString_def subdomain_def)
  moreover have "\<not> subdomain []"
    by (simp add: subdomain_def MatchString_iff [symmetric] dns1123Subdomain_MatchString_def label_ok_def)
  moreover have "CHR ''*'' \<notin> insert (CHR ''.'') (set (CHR ''-'' # alnum))"
    by (simp add: alnum_def)
  ultimately show "subdomain s \<Longrightarrow> s \<noteq> [] \<and> CHR ''*'' \<notin> set s" by blast
qed

lemma Contains_single: "Contains s [c] \<longleftrightarrow> c \<in> set s"
  by (auto simp: Contains_def sublist_def dest: split_list)

text \<open>
  Property C34. \<open>validateIngressHost\<close> accepts (returns no error) exactly the strings of at most
  253 characters in the language of \<open>dns1123SubdomainFmt\<close>, and \<open>*.\<close> followed by such a string.
\<close>

theorem validateIngressHost_accepts:
  "validateIngressHost host = [] \<longleftrightarrow>
     subdomain host \<or> (\<exists>sfx. host = ''*.'' @ sfx \<and> subdomain sfx)"
proof (cases "HasPrefix host ''*.''")
  case True
  then obtain sfx where h: "host = ''*.'' @ sfx" by (auto simp: HasPrefix_def prefix_def)
  have "\<not> subdomain host" using subdomain_no_star [of host] h by auto
  with h subdomain_no_star [of sfx] show ?thesis
    by (auto simp: validateIngressHost_def HasPrefix_def Contains_single Let_def wildcard_error_def
        IsDNS1123Subdomain_valid)
next
  case False
  with subdomain_no_star [of host] show ?thesis
    by (auto simp: validateIngressHost_def HasPrefix_def Contains_single wildcard_error_def
        IsDNS1123Subdomain_valid)
qed

lemma host_examples:
  "validateIngressHost ''shell.example.com'' = []" "validateIngressHost ''*.example.com'' = []"
  "validateIngressHost ''*.*.com'' \<noteq> []" "validateIngressHost ''Shell.com'' \<noteq> []"
  by code_simp+

end
