(* ===== verification/Controller_Utils.thy ===== *)
theory Controller_Utils
  imports Api_Types GoEncoding
begin

text \<open>
  \<open>pkg/controllers/utils.go\<close>: the predicates on the state of a job or a cloudshell, and
  labels whose value is cut to the length Kubernetes allows.
\<close>

definition LabelMaxLength :: nat where "LabelMaxLength = 63"
definition MD5Length :: nat where "MD5Length = 32"

text \<open>A job's conditions as pairs of type and status.\<close>

fun IsJobFinished :: "(string \<times> string) list \<Rightarrow> bool \<times> string" where
  "IsJobFinished [] = (False, '''')"
| "IsJobFinished ((ty, status) # cs) =
     (if (ty = ''Complete'' \<or> ty = ''Failed'') \<and> status = ''True'' then (True, ty)
      else IsJobFinished cs)"

definition IsCloudshellFinished :: "CloudShell \<Rightarrow> bool" where
  "IsCloudshellFinished cs = (Phase (Status cs) = PhaseCompleted \<or> Phase (Status cs) = PhaseFailed)"

definition IsCloudShellReady :: "CloudShell \<Rightarrow> bool" where
  "IsCloudShellReady cs = (Phase (Status cs) = PhaseReady)"

definition truncateAndHashIfExceed :: "string \<Rightarrow> string" where
  "truncateAndHashIfExceed input =
     (if length input \<le> LabelMaxLength then input
      else take (LabelMaxLength - MD5Length) input @
           hex_EncodeToString (md5_Sum (drop (LabelMaxLength - MD5Length) input)))"

definition AddLabel :: "string \<Rightarrow> string \<Rightarrow> object_meta \<Rightarrow> object_meta" where
  "AddLabel key val m =
     m\<lparr>Labels := gm_set key (truncateAndHashIfExceed val) (Labels m)\<rparr>"

text \<open>
  A label value never exceeds 63 characters; values of at most 63 characters
  are unchanged, a longer one is cut to exactly 63, keeps its first 31 characters and ends in
  32 hexadecimal characters that depend only on the rest; and setting a label changes no
  other label.
\<close>

theorem label_value_length:
  "length (truncateAndHashIfExceed s) = min (length s) 63 \<and>
   (length s \<le> 63 \<longrightarrow> truncateAndHashIfExceed s = s) \<and>
   take 31 (truncateAndHashIfExceed s) = take 31 s \<and>
   (length s > 63 \<longrightarrow>
      drop 31 (truncateAndHashIfExceed s) = hex_EncodeToString (md5_Sum (drop 31 s))) \<and>
   gm_lookup (Labels (AddLabel key s m)) k =
     (if k = key then Some (truncateAndHashIfExceed s) else gm_lookup (Labels m) k)"
  by (simp add: truncateAndHashIfExceed_def AddLabel_def LabelMaxLength_def MD5Length_def min_def)

theorem label_value_length_witness:
  "truncateAndHashIfExceed ''cloudshell-worker-abc'' = ''cloudshell-worker-abc'' \<and>
   length (truncateAndHashIfExceed (replicate 64 (CHR ''a''))) = 63"
  using label_value_length [of "''cloudshell-worker-abc''"]
    label_value_length [of "replicate 64 (CHR ''a'')"] by simp

text \<open>A job counts as finished by its first true condition of the two kinds; a ready
  cloudshell is not finished.\<close>

lemma IsJobFinished_iff:
  "fst (IsJobFinished cs) \<longleftrightarrow> (\<exists>ty. (ty, ''True'') \<in> set cs \<and> ty \<in> {''Complete'', ''Failed''})"
  by (induction cs rule: IsJobFinished.induct) auto

lemma ready_not_finished: "IsCloudShellReady cs \<Longrightarrow> \<not> IsCloudshellFinished cs"
  by (simp add: IsCloudShellReady_def IsCloudshellFinished_def phases)

end
