(* ===== verification/Controller.thy ===== *)
theory Controller
  imports Worker_Pool Routes Ingress_Host Controller_Utils
begin

text \<open>
  The cloudshell controller of \<open>pkg/controllers/cloudshell_controller.go\<close>, one definition per
  function. The \<open>*CloudShell\<close> that the code carries around is the pointer the lister
  returned, so it is modelled by its cache key \<open>ck\<close>: the code modifies the cached object in
  place (finalizers, defaults, labels, status), and a successful \<open>Update\<close> stores the server's
  answer in it. Log-only errors are dropped, panics are passed on.
\<close>

section \<open>Constants and pointers\<close>

definition CloudshellControllerFinalizer :: string where
  "CloudshellControllerFinalizer = ''cloudtty.io/cloudshell-controller''"
definition DefaultCloudShellBackOff :: int where "DefaultCloudShellBackOff = 2 * 10 ^ 9"
definition MaxCloudShellBackOff :: int where "MaxCloudShellBackOff = 5 * 10 ^ 9"
definition startupScriptPath :: string where "startupScriptPath = ''/usr/lib/ttyd/startup.sh''"
definition resetScriptPath :: string where "resetScriptPath = ''/usr/lib/ttyd/reset.sh''"
definition CloudshellConfigMapLabel :: string where
  "CloudshellConfigMapLabel = ''cloudtty.io/cloudshell-config''"
definition ClientOptionsDelimiter :: string where "ClientOptionsDelimiter = ''|''"

definition newController :: "string \<Rightarrow> gomap \<Rightarrow> nat option \<Rightarrow> Controller" where
  "newController img sel rs =
     \<lparr>cqueue = wq_new, ttydServiceBufferSize = '''', ttydPingInterval = '''',
      cloudshellImage = img, nodeSelector = sel, resources = rs\<rparr>"

definition cached_cs :: "nsname \<Rightarrow> 'w sys \<Rightarrow> CloudShell" where
  "cached_cs ck s = the (map_of (csIndexer s) ck)"

definition write_cs :: "nsname \<Rightarrow> CloudShell \<Rightarrow> ('w sys, unit) state" where
  "write_cs ck c = State_Monad.update (set_cached_cs ck c)"

text \<open>\<open>c.Update(ctx, cloudshell)\<close> on the cached object.\<close>

definition update_cs :: "'w kube \<Rightarrow> nsname \<Rightarrow> ('w sys, unit res) state" where
  "update_cs K ck = do {
     c \<leftarrow> gets (cached_cs ck);
     bindE (client_write (UpdateCloudShell c) (updateCloudShell K c))
       (\<lambda>stored. do { write_cs ck stored; State_Monad.return (Ok ()) })
   }"

text \<open>\<open>fmt.Errorf("...: %v", err)\<close>: a new error, unless it was a panic.\<close>

definition wrap_err :: "string \<Rightarrow> err \<Rightarrow> err" where
  "wrap_err msg e = (if is_panic e then e else Failure msg)"

section \<open>Events\<close>

definition upd_cqueue :: "(workqueue \<Rightarrow> workqueue) \<Rightarrow> ('w sys, unit) state" where
  "upd_cqueue f = upd_ctrl (\<lambda>c. c\<lparr>cqueue := f (cqueue c)\<rparr>)"

definition controller_enqueue :: "obj \<Rightarrow> ('w sys, unit res) state" where
  "controller_enqueue obj =
     (case obj of
        ObjCloudShell c \<Rightarrow> do {
          upd_cqueue (wq_Add (MetaNamespaceKey (cmeta c)));
          State_Monad.return (Ok ())
        }
      | _ \<Rightarrow> State_Monad.return (Err (GoPanic ''interface conversion'')))"

text \<open>\<open>UpdateFunc\<close> of the cloudshell informer.\<close>

definition cloudshell_updated :: "obj \<Rightarrow> obj \<Rightarrow> ('w sys, unit res) state" where
  "cloudshell_updated oldObj newObj =
     (case (oldObj, newObj) of
        (ObjCloudShell older, ObjCloudShell newer) \<Rightarrow>
          (if \<not> spec_DeepEqual (Spec older) (Spec newer) \<or> DeletionTimestamp (cmeta newer) \<noteq> None
           then controller_enqueue newObj
           else State_Monad.return (Ok ()))
      | _ \<Rightarrow> State_Monad.return (Err (GoPanic ''interface conversion'')))"

definition pod_of_event :: "obj \<Rightarrow> pod option" where
  "pod_of_event obj =
     (case obj of
        ObjPod p \<Rightarrow> Some p
      | DeletedFinalStateUnknown _ (ObjPod p) \<Rightarrow> Some p
      | _ \<Rightarrow> None)"

definition enqueueCloudshellForPod :: "obj \<Rightarrow> ('w sys, unit) state" where
  "enqueueCloudshellForPod obj =
     (case pod_of_event obj of
        None \<Rightarrow> State_Monad.return ()
      | Some p \<Rightarrow>
          if Labels (pmeta p) = None then State_Monad.return ()
          else let owner = gm_get (Labels (pmeta p)) WorkerOwnerLabelKey
               in if owner = '''' then State_Monad.return ()
                  else upd_cqueue (wq_Add (Namespace (pmeta p) @ ''/'' @ owner)))"

section \<open>The bound worker\<close>

text \<open>The result is the pointer into the pod cache, or nil.\<close>

definition GetBindingWorkerFor :: "nsname \<Rightarrow> ('w sys, nsname option res) state" where
  "GetBindingWorkerFor ck = do {
     c \<leftarrow> gets (cached_cs ck);
     let podName = gm_get (Labels (cmeta c)) CloudshellPodLabelKey;
     if length podName = 0 then State_Monad.return (Ok None)
     else do {
       r \<leftarrow> podLister_Get (Namespace (cmeta c), podName);
       State_Monad.return (case r of
           Inl e \<Rightarrow> if IsNotFound e then Ok None else Err e
         | Inr _ \<Rightarrow> Ok (Some (Namespace (cmeta c), podName)))
     }
   }"

definition execCommand :: "'w kube \<Rightarrow> nsname \<Rightarrow> string list \<Rightarrow> ('w sys, unit res) state" where
  "execCommand K ck cmd = do {
     c \<leftarrow> gets (cached_cs ck);
     let target = (Namespace (cmeta c), gm_get (Labels (cmeta c)) CloudshellPodLabelKey);
     client_write (ExecPod target cmd) (execPod K target cmd)
   }"

definition ResetWorker :: "'w kube \<Rightarrow> nsname \<Rightarrow> ('w sys, unit res) state" where
  "ResetWorker K ck = execCommand K ck [resetScriptPath]"

section \<open>Starting the shell\<close>

definition JoinHostPort :: "string \<Rightarrow> string \<Rightarrow> string" where
  "JoinHostPort host port =
     (if Contains host '':'' then ''['' @ host @ '']:'' @ port else host @ '':'' @ port)"

definition GenerateKubeconfigInCluster :: "'w kube \<Rightarrow> 'w \<Rightarrow> string res" where
  "GenerateKubeconfigInCluster K w =
     (let host = getenv K ''KUBERNETES_SERVICE_HOST'' w;
          port = getenv K ''KUBERNETES_SERVICE_PORT'' w
      in if length host = 0 \<or> length port = 0
         then Err (Failure ''unable to load in-cluster configuration, KUBERNETES_SERVICE_HOST and KUBERNETES_SERVICE_PORT must be defined'')
         else case readFile K ''/var/run/secrets/kubernetes.io/serviceaccount/token'' w of
                Inl e \<Rightarrow> Err e
              | Inr token \<Rightarrow>
                  (case readFile K ''/var/run/secrets/kubernetes.io/serviceaccount/ca.crt'' w of
                     Inl e \<Rightarrow> Err e
                   | Inr rootCa \<Rightarrow>
                       Ok (KubeconfigTmplV1 (base64_EncodeToString rootCa)
                             (''https://'' @ JoinHostPort host port) token)))"

text \<open>One variable of the loop over \<open>Spec.Env\<close>: the last entry of that name wins.\<close>

definition env_value :: "string \<Rightarrow> string \<Rightarrow> env_var list \<Rightarrow> string" where
  "env_value name default' env =
     foldl (\<lambda>v e. if EnvName e = name then EnvValue e else v) default' env"

definition client_options :: "gomap \<Rightarrow> string res" where
  "client_options opts =
     (case opts of
        None \<Rightarrow> Ok ''''
      | Some kvs \<Rightarrow>
          if list_ex (\<lambda>(k, v). Contains k ClientOptionsDelimiter \<or> Contains v ClientOptionsDelimiter) kvs
          then Err (Failure ''clientOptions key or value contains delimiter(|)'')
          else Ok (Join (map (\<lambda>(k, v). k @ ''='' @ v) kvs) ClientOptionsDelimiter))"

definition ttyd_command :: "Controller \<Rightarrow> CloudShellSpec \<Rightarrow> string \<Rightarrow> string \<Rightarrow> string list" where
  "ttyd_command c sp kubeConfig opts =
     [startupScriptPath, kubeConfig, Sprint_bool (Once sp), Sprint_bool (UrlArg sp), CommandAction sp,
      env_value ''POD_NAME'' '''' (Env sp),
      env_value ''POD_NAMESPACE'' '''' (Env sp),
      env_value ''CONTAINER'' '''' (Env sp),
      env_value ''PS1'' '''' (Env sp),
      env_value ''TTYD_SERVER_BUFFER_SIZE'' (ttydServiceBufferSize c) (Env sp),
      env_value ''TTYD_PING_INTERVAL'' (ttydPingInterval c) (Env sp),
      opts,
      env_value ''TTYD_CREDENTIAL'' '''' (Env sp)]"

definition StartupWorker :: "'w kube \<Rightarrow> nsname \<Rightarrow> string \<Rightarrow> ('w sys, unit res) state" where
  "StartupWorker K ck kubeConfig = do {
     cs \<leftarrow> gets (cached_cs ck);
     c \<leftarrow> gets ctrl;
     case client_options (TtydClientOptions (Spec cs)) of
       Inl e \<Rightarrow> State_Monad.return (Err e)
     | Inr opts \<Rightarrow> execCommand K ck (ttyd_command c (Spec cs) kubeConfig opts)
   }"

definition StartupWorkerFor :: "'w kube \<Rightarrow> nsname \<Rightarrow> ('w sys, unit res) state" where
  "StartupWorkerFor K ck = do {
     cs \<leftarrow> gets (cached_cs ck);
     case SecretRef (Spec cs) of
       None \<Rightarrow> do {
         r \<leftarrow> gets (\<lambda>s. GenerateKubeconfigInCluster K (cluster s));
         case r of
           Inl e \<Rightarrow> State_Monad.return (Err e)
         | Inr kubeConfig \<Rightarrow>
             (let m = (blank_meta (Namespace (cmeta cs)) '''')
                        \<lparr>GenerateName := ''cloudshell-'' @ Name (cmeta cs) @ ''-''\<rparr>
              in case SetControllerReference ''cloudshell.cloudtty.io/v1alpha1'' ''CloudShell'' (cmeta cs) m of
                   Inl e \<Rightarrow> State_Monad.return (Err e)
                 | Inr m' \<Rightarrow>
                     (let secret = \<lparr>secmeta = m', SecretData = Some [(''config'', kubeConfig)]\<rparr>
                      in bindE (client_write (CreateSecret secret) (createSecret K secret)) (\<lambda>stored. do {
                           write_cs ck (cs\<lparr>Spec := (Spec cs)\<lparr>SecretRef := Some (Name (secmeta stored))\<rparr>\<rparr>);
                           bindE (update_cs K ck) (\<lambda>_. StartupWorker K ck kubeConfig)
                         })))
       }
     | Some name \<Rightarrow>
         bindE (client_read (getSecret K (Namespace (cmeta cs), name))) (\<lambda>secret. do {
           env \<leftarrow> gets (\<lambda>s. getenv K ''KUBECONFIG_SECRET_DATA_NAME'' (cluster s));
           let configDataName = (if env = '''' then ''config'' else env);
           StartupWorker K ck (gm_get (SecretData secret) configDataName)
         })
   }"

section \<open>Finalizer and defaults\<close>

definition removeFinalizer :: "'w kube \<Rightarrow> nsname \<Rightarrow> ('w sys, unit res) state" where
  "removeFinalizer K ck = do {
     c \<leftarrow> gets (cached_cs ck);
     case RemoveFinalizer CloudshellControllerFinalizer (cmeta c) of
       (updated, m) \<Rightarrow> do {
         write_cs ck (c\<lparr>cmeta := m\<rparr>);
         (if updated then update_cs K ck else State_Monad.return (Ok ()))
       }
   }"

definition ensureCloudShell :: "'w kube \<Rightarrow> nsname \<Rightarrow> ('w sys, unit res) state" where
  "ensureCloudShell K ck = do {
     c0 \<leftarrow> gets (cached_cs ck);
     img \<leftarrow> gets (\<lambda>s. cloudshellImage (ctrl s));
     case AddFinalizer CloudshellControllerFinalizer (cmeta c0) of
       (updated, m) \<Rightarrow> do {
         let older = c0\<lparr>cmeta := m\<rparr>;
         let c1 = (if length (Image (Spec older)) = 0
                   then older\<lparr>Spec := (Spec older)\<lparr>Image := img\<rparr>\<rparr> else older);
         let c2 = SetObjectDefaultsCloudShell c1;
         write_cs ck c2;
         (if updated \<or> \<not> spec_DeepEqual (Spec c2) (Spec older) then update_cs K ck
          else State_Monad.return (Ok ()))
       }
   }"

section \<open>Routes\<close>

text \<open>The label is tried with the old name first; an empty list falls through to the new name.\<close>

definition GetMasterNodeIP :: "'w kube \<Rightarrow> ('w sys, string res) state" where
  "GetMasterNodeIP K =
     bindE (client_read (listNodes K ''node-role.kubernetes.io/master'')) (\<lambda>nodes1.
       bindE (if length nodes1 > 0 then State_Monad.return (Ok nodes1)
              else client_read (listNodes K ''node-role.kubernetes.io/control-plane'')) (\<lambda>nodes.
         State_Monad.return
           (if length nodes = 0 then Err (Failure ''no nodes found with the master node labels'')
            else node_address nodes)))"

definition CreateCloudShellService :: "'w kube \<Rightarrow> nsname \<Rightarrow> pod \<Rightarrow> ('w sys, service res) state" where
  "CreateCloudShellService K ck worker = do {
     cs \<leftarrow> gets (cached_cs ck);
     case decodeService K (ServiceTmplV1 (''cloudshell-'' @ Name (cmeta cs)) (Namespace (pmeta worker))
                             (Name (pmeta worker)) ''NodePort'') of
       Inl e \<Rightarrow> State_Monad.return (Err e)
     | Inr svc \<Rightarrow>
         (let m = (smeta svc)\<lparr>Labels := Some [(WorkerOwnerLabelKey, Name (cmeta cs))]\<rparr>
          in case SetControllerReference ''cloudshell.cloudtty.io/v1alpha1'' ''CloudShell'' (cmeta cs) m of
               Inl e \<Rightarrow> State_Monad.return (Err e)
             | Inr m' \<Rightarrow> CreateOrUpdateService K (svc\<lparr>smeta := m'\<rparr>))
   }"

text \<open>The class, annotations and host for a new ingress.\<close>

definition ingress_settings :: "CloudShell \<Rightarrow> (string \<times> gomap \<times> string) res" where
  "ingress_settings cs =
     (case IngConfig (Spec cs) of
        None \<Rightarrow> Ok ('''', None, '''')
      | Some config \<Rightarrow>
          if length (Host config) > 0 \<and> length (validateIngressHost (Host config)) > 0
          then Err (Failure (''invalid ingress host '' @ quote (Host config) @ '': '' @ Join (validateIngressHost (Host config)) ''; ''))
          else Ok (IngressClassName config, IngAnnotations config, Host config))"

definition CreateIngressForCloudshell :: "'w kube \<Rightarrow> string \<Rightarrow> nsname \<Rightarrow> ('w sys, unit res) state" where
  "CreateIngressForCloudshell K service ck = do {
     cs \<leftarrow> gets (cached_cs ck);
     let objectKey = IngressNamespacedName cs;
     r \<leftarrow> client_read (getIngress K objectKey);
     case r of
       Inl e \<Rightarrow>
         (if \<not> IsNotFound e then State_Monad.return (Err e)
          else case ingress_settings cs of
                 Inl e' \<Rightarrow> State_Monad.return (Err e')
               | Inr (ingressClassName, annotations, host) \<Rightarrow>
                   (case decodeIngress K (IngressTmplV1 (snd objectKey) (fst objectKey) ingressClassName
                           (SetRouteRulePath cs) service annotations host) of
                      Inl e' \<Rightarrow> State_Monad.return (Err e')
                    | Inr ing \<Rightarrow>
                        (let ing' = ing\<lparr>imeta := (imeta ing)\<lparr>Labels :=
                                      Some [(WorkerOwnerLabelKey, Name (cmeta cs))]\<rparr>\<rparr>
                         in bindE (client_write (CreateIngress ing') (createIngress K ing'))
                              (\<lambda>_. State_Monad.return (Ok ())))))
     | Inr ing \<Rightarrow>
         (case ingress_paths ing of
            Inl e \<Rightarrow> State_Monad.return (Err e)
          | Inr paths \<Rightarrow>
              (let ing1 = set_ingress_paths (upsert_path (SetRouteRulePath cs) service paths) ing;
                   ing2 = ing1\<lparr>imeta := (imeta ing1)\<lparr>Annotations :=
                             gm_set ''nginx.ingress.kubernetes.io/rewrite-target'' ''/''
                               (Annotations (imeta ing1))\<rparr>\<rparr>
               in bindE (client_write (UpdateIngress ing2) (updateIngress K ing2))
                    (\<lambda>_. State_Monad.return (Ok ()))))
   }"

text \<open>\<open>Controller.CreateServiceFor\<close>, which nothing calls, repeats the function of the pool.\<close>

definition Controller_CreateServiceFor :: "'w kube \<Rightarrow> pod \<Rightarrow> ('w sys, unit res) state" where
  "Controller_CreateServiceFor K worker =
     (case decodeService K (ServiceTmplV1 (Name (pmeta worker)) (Namespace (pmeta worker))
                              (Name (pmeta worker)) ''ClusterIP'') of
        Inl e \<Rightarrow> State_Monad.return (Err e)
      | Inr svc \<Rightarrow>
          (let m = (smeta svc)\<lparr>Labels := Some [(WorkerOwnerLabelKey, Name (pmeta worker))]\<rparr>
           in case SetControllerReference ''v1'' ''Pod'' (pmeta worker) m of
                Inl e \<Rightarrow> State_Monad.return (Err e)
              | Inr m' \<Rightarrow> bindE (CreateOrUpdateService K (svc\<lparr>smeta := m'\<rparr>))
                             (\<lambda>_. State_Monad.return (Ok ()))))"

definition vs_host :: "string \<Rightarrow> nsname \<Rightarrow> string" where
  "vs_host service key = service @ ''.'' @ fst key @ ''.svc.cluster.local''"

definition CreateVirtualServiceForCloudshell ::
  "'w kube \<Rightarrow> string \<Rightarrow> nsname \<Rightarrow> ('w sys, unit res) state" where
  "CreateVirtualServiceForCloudshell K service ck = do {
     cs \<leftarrow> gets (cached_cs ck);
     case VsConfig (Spec cs) of
       None \<Rightarrow> State_Monad.return
         (Err (Failure ''unable create virtualservice, missing configuration options''))
     | Some config \<Rightarrow> do {
         let objectKey = VsNamespacedName cs;
         r \<leftarrow> client_read (getVirtualService K objectKey);
         case r of
           Inl e \<Rightarrow>
             (if \<not> IsNotFound e then State_Monad.return (Err e)
              else case decodeVirtualService K (VirtualServiceV1Beta1 (snd objectKey) (fst objectKey)
                          (ExportTo config) (Gateway config) (SetRouteRulePath cs) service) of
                     Inl e' \<Rightarrow> State_Monad.return (Err e')
                   | Inr vs \<Rightarrow>
                       (let vs' = vs\<lparr>vmeta := (vmeta vs)\<lparr>Labels :=
                                    Some [(WorkerOwnerLabelKey, Name (cmeta cs))]\<rparr>\<rparr>
                        in bindE (client_write (CreateVirtualService vs') (createVirtualService K vs'))
                             (\<lambda>_. State_Monad.return (Ok ()))))
         | Inr vs \<Rightarrow>
             (case upsert_route (SetRouteRulePath cs) (vs_host service objectKey) (Http vs) of
                Inl e \<Rightarrow> State_Monad.return (Err e)
              | Inr http \<Rightarrow>
                  bindE (client_write (UpdateVirtualService (vs\<lparr>Http := http\<rparr>))
                           (updateVirtualService K (vs\<lparr>Http := http\<rparr>)))
                    (\<lambda>_. State_Monad.return (Ok ())))
       }
   }"

definition CreateRouteRule :: "'w kube \<Rightarrow> nsname \<Rightarrow> pod \<Rightarrow> ('w sys, string res) state" where
  "CreateRouteRule K ck worker = do {
     cs \<leftarrow> gets (cached_cs ck);
     let mode = ExposeMode (Spec cs);
     if mode = '''' \<or> mode = ExposureServiceNodePort
     then bindE (GetMasterNodeIP K) (\<lambda>host. do {
       r \<leftarrow> CreateCloudShellService K ck worker;
       State_Monad.return (case r of
           Inl e \<Rightarrow> Err (wrap_err ''failed to create service for cloudshell'' e)
         | Inr svc \<Rightarrow> Ok (host @ '':'' @ Sprint_int (first_node_port (Ports svc))))
     })
     else if mode = ExposureIngress
     then bindE (CreateIngressForCloudshell K (Name (pmeta worker)) ck)
            (\<lambda>_. State_Monad.return (Ok (SetRouteRulePath cs)))
     else if mode = ExposureVirtualService
     then bindE (CreateVirtualServiceForCloudshell K (Name (pmeta worker)) ck)
            (\<lambda>_. State_Monad.return (Ok (SetRouteRulePath cs)))
     else State_Monad.return (Ok '''')
   }"

definition removeCloudshellRoute :: "'w kube \<Rightarrow> nsname \<Rightarrow> ('w sys, unit res) state" where
  "removeCloudshellRoute K ck = do {
     cs \<leftarrow> gets (cached_cs ck);
     let mode = ExposeMode (Spec cs);
     if mode = ExposureIngress
     then do {
       r \<leftarrow> client_read (getIngress K (IngressNamespacedName cs));
       case r of
         Inl e \<Rightarrow> State_Monad.return (if IsNotFound e then Ok () else Err e)
       | Inr ing \<Rightarrow>
           (case ingress_paths ing of
              Inl e \<Rightarrow> State_Monad.return (Err e)
            | Inr paths \<Rightarrow>
                (let newPaths = remove_path (SetRouteRulePath cs) paths;
                     ing' = set_ingress_paths newPaths ing;
                     key = nsname_of (imeta ing)
                 in if length newPaths = 0
                    then client_write (DeleteIngress key) (deleteIngress K key)
                    else bindE (client_write (UpdateIngress ing') (updateIngress K ing'))
                           (\<lambda>_. State_Monad.return (Ok ()))))
     }
     else if mode = ExposureVirtualService
     then do {
       r \<leftarrow> client_read (getVirtualService K (VsNamespacedName cs));
       case r of
         Inl e \<Rightarrow> State_Monad.return (if IsNotFound e then Ok () else Err e)
       | Inr vs \<Rightarrow>
           (let newHTTPRoute = remove_route (SetRouteRulePath cs) (Http vs);
                vs' = vs\<lparr>Http := newHTTPRoute\<rparr>;
                key = nsname_of (vmeta vs)
            in if length newHTTPRoute = 0
               then client_write (DeleteVirtualService key) (deleteVirtualService K key)
               else bindE (client_write (UpdateVirtualService vs') (updateVirtualService K vs'))
                      (\<lambda>_. State_Monad.return (Ok ())))
     }
     else State_Monad.return (Ok ())
   }"

section \<open>Status\<close>

text \<open>
  One run of the retried function: the status is set in the cached object, and a copy is
  sent. On a further run the object is first looked up again; the named result \<open>err\<close> is then
  still nil, so the test for not-found never succeeds and the lookup's error is returned.
\<close>

definition status_send :: "'w kube \<Rightarrow> nsname \<Rightarrow> CloudShellStatus \<Rightarrow> ('w sys, unit res) state" where
  "status_send K ck status = do {
     c \<leftarrow> gets (cached_cs ck);
     let c' = c\<lparr>Status := status\<rparr>;
     write_cs ck c';
     bindE (client_write (UpdateCloudShellStatus c') (updateCloudShellStatus K c'))
       (\<lambda>_. State_Monad.return (Ok ()))
   }"

definition status_resend :: "'w kube \<Rightarrow> nsname \<Rightarrow> CloudShellStatus \<Rightarrow> ('w sys, unit res) state" where
  "status_resend K ck status = bindE (csLister_Get ck) (\<lambda>_. status_send K ck status)"

text \<open>\<open>RetryOnConflict\<close> with the first run, whose \<open>firstTry\<close> is true, unrolled.\<close>

definition UpdateCloudshellStatus :: "'w kube \<Rightarrow> nsname \<Rightarrow> string \<Rightarrow> ('w sys, unit res) state" where
  "UpdateCloudshellStatus K ck phase = do {
     c \<leftarrow> gets (cached_cs ck);
     let status = (Status c)\<lparr>Phase := phase\<rparr>;
     r \<leftarrow> status_send K ck status;
     case r of
       Inr _ \<Rightarrow> State_Monad.return (Ok ())
     | Inl e \<Rightarrow> (if IsConflict e then RetryOnConflict (DefaultBackoff - 1) (status_resend K ck status) ()
                else State_Monad.return (Err e))
   }"

section \<open>Removing a cloudshell\<close>

definition unbind_worker :: "nsname \<Rightarrow> ('w sys, unit) state" where
  "unbind_worker ck = do {
     c \<leftarrow> gets (cached_cs ck);
     write_cs ck (c\<lparr>cmeta := (cmeta c)\<lparr>Labels := gm_delete CloudshellPodLabelKey (Labels (cmeta c))\<rparr>\<rparr>)
   }"

definition removeCloudshell :: "'w kube \<Rightarrow> nsname \<Rightarrow> ('w sys, unit res) state" where
  "removeCloudshell K ck =
     bindE (GetBindingWorkerFor ck) (\<lambda>worker.
       bindE (case worker of
                None \<Rightarrow> State_Monad.return (Ok ())
              | Some pk \<Rightarrow> do {
                  _ \<leftarrow> ResetWorker K ck;
                  p \<leftarrow> gets (cached_pod pk);
                  bindE (Back K p) (\<lambda>_. do { unbind_worker ck; State_Monad.return (Ok ()) })
                })
         (\<lambda>_. bindE (removeCloudshellRoute K ck) (\<lambda>_. removeFinalizer K ck)))"

section \<open>Synchronising\<close>

text \<open>A \<open>time.Duration\<close> product wraps around; \<open>Time.Sub\<close> saturates.\<close>

definition wrap64 :: "int \<Rightarrow> int" where
  "wrap64 x = sint (word_of_int x :: 64 word)"

definition sat64 :: "int \<Rightarrow> int" where
  "sat64 x = max (- (2 ^ 63)) (min (2 ^ 63 - 1) x)"

definition requeue_duration :: "int \<Rightarrow> int \<Rightarrow> CloudShell \<Rightarrow> int \<Rightarrow> int" where
  "requeue_duration now1 now2 cs ttlSeconds =
     (let startTime = (case LastScheduleTime (Status cs) of None \<Rightarrow> now1 | Some t \<Rightarrow> t);
          ttl = wrap64 (10 ^ 9 * ttlSeconds)
      in sat64 (startTime + ttl - now2))"

definition nextRequeueTimeDuration :: "'w kube \<Rightarrow> nsname \<Rightarrow> ('w sys, int option) state" where
  "nextRequeueTimeDuration K ck = do {
     cs \<leftarrow> gets (cached_cs ck);
     case TTLSecondsAfterStarted (Spec cs) of
       None \<Rightarrow> State_Monad.return None
     | Some ttlSeconds \<Rightarrow> do {
         now1 \<leftarrow> time_Now K;
         now2 \<leftarrow> time_Now K;
         State_Monad.return (Some (requeue_duration now1 now2 cs ttlSeconds))
       }
   }"

text \<open>A bound worker that is not ready is given back and unbound.\<close>

definition release_unready :: "'w kube \<Rightarrow> nsname \<Rightarrow> nsname option \<Rightarrow> ('w sys, nsname option res) state" where
  "release_unready K ck worker =
     (case worker of
        None \<Rightarrow> State_Monad.return (Ok None)
      | Some pk \<Rightarrow> do {
          p \<leftarrow> gets (cached_pod pk);
          if IsPodReady p then State_Monad.return (Ok (Some pk))
          else do {
            r \<leftarrow> Back K p;
            case r of
              Inl e \<Rightarrow>
                (if is_panic e then State_Monad.return (Err e)
                 else do { unbind_worker ck; bindE (update_cs K ck) (\<lambda>_. State_Monad.return (Ok None)) })
            | Inr _ \<Rightarrow> do { unbind_worker ck; bindE (update_cs K ck) (\<lambda>_. State_Monad.return (Ok None)) }
          }
        })"

definition borrow_request :: "Controller \<Rightarrow> CloudShell \<Rightarrow> string \<Rightarrow> Request" where
  "borrow_request c cs sel =
     \<lparr>rCloudshell = Name (cmeta cs), rNamespace = Namespace (cmeta cs), rImage = Image (Spec cs),
      rNodeSelector = sel, rResources = resources c, rCloudShellQueue = 0\<rparr>"

text \<open>The worker to use, bound to the cloudshell; \<open>None\<close> while there is none in the pool.\<close>

definition acquire_worker :: "'w kube \<Rightarrow> nsname \<Rightarrow> nsname option \<Rightarrow> ('w sys, pod option res) state" where
  "acquire_worker K ck worker =
     (case worker of
        Some pk \<Rightarrow> gets (\<lambda>s. Ok (Some (cached_pod pk s)))
      | None \<Rightarrow> do {
          c \<leftarrow> gets ctrl;
          cs \<leftarrow> gets (cached_cs ck);
          case MapToJSONString (nodeSelector c) of
            Inl e \<Rightarrow> State_Monad.return (Err (Failure ''failed to marshal node selector for cloudshell''))
          | Inr sel \<Rightarrow> do {
              r \<leftarrow> Borrow K (borrow_request c cs sel);
              case r of
                Inl e \<Rightarrow> State_Monad.return (if e = ErrNotWorker then Ok None else Err e)
              | Inr p \<Rightarrow> do {
                  cs' \<leftarrow> gets (cached_cs ck);
                  write_cs ck (cs'\<lparr>cmeta := AddLabel CloudshellPodLabelKey (Name (pmeta p)) (cmeta cs')\<rparr>);
                  bindE (update_cs K ck) (\<lambda>_. State_Monad.return (Ok (Some p)))
                }
            }
        })"

definition access_url :: "string \<Rightarrow> int option \<Rightarrow> string" where
  "access_url url ttl =
     (case ttl of None \<Rightarrow> url | Some t \<Rightarrow> url @ ''?ttl='' @ Sprint_int t)"

text \<open>The end of \<open>syncCloudShell\<close>: the address and the schedule time, then the phase.\<close>

definition mark_ready :: "'w kube \<Rightarrow> nsname \<Rightarrow> string \<Rightarrow> int option \<Rightarrow> ('w sys, int option res) state" where
  "mark_ready K ck url t = do {
     cs \<leftarrow> gets (cached_cs ck);
     let st = (Status cs)\<lparr>AccessURL := access_url url (TTLSecondsAfterStarted (Spec cs))\<rparr>;
     (if LastScheduleTime st = None
      then do { now \<leftarrow> time_Now K; write_cs ck (cs\<lparr>Status := st\<lparr>LastScheduleTime := Some now\<rparr>\<rparr>) }
      else write_cs ck (cs\<lparr>Status := st\<rparr>));
     bindE (UpdateCloudshellStatus K ck PhaseReady) (\<lambda>_. State_Monad.return (Ok t))
   }"

definition finish_expired :: "'w kube \<Rightarrow> nsname \<Rightarrow> ('w sys, int option res) state" where
  "finish_expired K ck =
     bindE (removeCloudshell K ck) (\<lambda>_. do {
       cs \<leftarrow> gets (cached_cs ck);
       let key = nsname_of (cmeta cs);
       bindE (if Cleanup (Spec cs) then client_write (DeleteCloudShell key) (deleteCloudShell K key)
              else UpdateCloudshellStatus K ck PhaseCompleted)
         (\<lambda>_. State_Monad.return (Ok None))
     })"

definition syncCloudShell :: "'w kube \<Rightarrow> nsname \<Rightarrow> ('w sys, int option res) state" where
  "syncCloudShell K ck = do {
     t \<leftarrow> nextRequeueTimeDuration K ck;
     if (case t of None \<Rightarrow> False | Some d \<Rightarrow> d < 0) then finish_expired K ck
     else do {
       r \<leftarrow> GetBindingWorkerFor ck;
       case r of
         Inl e \<Rightarrow> State_Monad.return (Err (wrap_err ''failed to get binding worker for cloudshell'' e))
       | Inr bound \<Rightarrow>
           bindE (release_unready K ck bound) (\<lambda>worker.
           bindE (acquire_worker K ck worker) (\<lambda>acquired.
             case acquired of
               None \<Rightarrow> State_Monad.return (Ok None)
             | Some p \<Rightarrow>
                 bindE (CreateRouteRule K ck p) (\<lambda>url.
                 bindE (StartupWorkerFor K ck) (\<lambda>_. mark_ready K ck url t))))
     }
   }"

definition syncHandler :: "'w kube \<Rightarrow> string \<Rightarrow> ('w sys, int option res) state" where
  "syncHandler K key =
     (case SplitMetaNamespaceKey key of
        Inl e \<Rightarrow> State_Monad.return (Err e)
      | Inr ck \<Rightarrow> do {
          r \<leftarrow> csLister_Get ck;
          case r of
            Inl e \<Rightarrow> State_Monad.return (if IsNotFound e then Ok None else Err e)
          | Inr cs \<Rightarrow>
              if DeletionTimestamp (cmeta cs) \<noteq> None
              then bindE (removeCloudshell K ck) (\<lambda>_. State_Monad.return (Ok None))
              else bindE (ensureCloudShell K ck) (\<lambda>_. syncCloudShell K ck)
        })"

text \<open>\<open>None\<close> when the queue makes the worker wait; a panic ends the process.\<close>

definition processNextItem :: "'w kube \<Rightarrow> ('w sys, bool option res) state" where
  "processNextItem K = do {
     g \<leftarrow> gets (\<lambda>s. wq_Get (cqueue (ctrl s)));
     case g of (res, q') \<Rightarrow>
       (case res of
          GetWaits \<Rightarrow> State_Monad.return (Ok None)
        | GetShutdown \<Rightarrow> State_Monad.return (Ok (Some False))
        | GetItem key \<Rightarrow> do {
            upd_cqueue (\<lambda>_. q');
            r \<leftarrow> syncHandler K key;
            now \<leftarrow> time_Now K;
            (case r of
               Inl e \<Rightarrow>
                 (if is_panic e then State_Monad.return ()
                  else upd_cqueue (wq_AddRateLimited DefaultCloudShellBackOff MaxCloudShellBackOff now key))
             | Inr None \<Rightarrow> State_Monad.return ()
             | Inr (Some d) \<Rightarrow> do { upd_cqueue (wq_Forget key); upd_cqueue (wq_AddAfter now key d) });
            upd_cqueue (wq_Done key);
            State_Monad.return (case r of
                Inl e \<Rightarrow> if is_panic e then Err e else Ok (Some True)
              | Inr _ \<Rightarrow> Ok (Some True))
          })
   }"

section \<open>Start of the controller\<close>

definition GetCurrentNSOrDefault :: "'w kube \<Rightarrow> 'w \<Rightarrow> string" where
  "GetCurrentNSOrDefault K w =
     (if getenv K ''POD_NAMESPACE'' w \<noteq> '''' then getenv K ''POD_NAMESPACE'' w
      else case readFile K ''/var/run/secrets/kubernetes.io/serviceaccount/namespace'' w of
             Inl _ \<Rightarrow> ''default''
           | Inr d \<Rightarrow> if length (TrimSpace d) > 0 then TrimSpace d else ''default'')"

text \<open>The part of \<open>Run\<close> that reads the settings of ttyd from the first labelled config map.\<close>

definition load_settings :: "'w kube \<Rightarrow> ('w sys, unit) state" where
  "load_settings K = do {
     currentNS \<leftarrow> gets (\<lambda>s. GetCurrentNSOrDefault K (cluster s));
     r \<leftarrow> client_read (listConfigMaps K currentNS CloudshellConfigMapLabel);
     case r of
       Inl _ \<Rightarrow> State_Monad.return ()
     | Inr configs \<Rightarrow>
         (case configs of
            [] \<Rightarrow> State_Monad.return ()
          | d # _ \<Rightarrow>
              upd_ctrl (\<lambda>c. c\<lparr>ttydServiceBufferSize := gm_get d ''TTYD_SERVER_BUFFER_SIZE'',
                              ttydPingInterval := gm_get d ''TTYD_PING_INTERVAL''\<rparr>))
   }"

end
