(* ===== verification/Pool_Invariant.thy ===== *)
theory Pool_Invariant
  imports Worker_Pool
begin

text \<open>
  The well-formedness of the pool's state and its preservation by every method of
  \<open>WorkerPool\<close>: both queues are lists without repetition, the pod work queue keeps its own
  invariant, and the key of every cached pod is its namespace and name.

  The methods are written over \<open>State_Monad\<close>; the rules in \<open>keeps_rules\<close> take a preservation
  goal apart, so only the updates of the pool are proved here by hand.
\<close>

section \<open>The request queue as an ordered set\<close>

text \<open>The requests the controller makes: one \<open>Resources\<close> pointer, one work queue.\<close>

definition requests_of :: "nat option \<Rightarrow> nat \<Rightarrow> Request set" where
  "requests_of res q = {r. rResources r = res \<and> rCloudShellQueue r = q}"

lemma request_DeepEqual_refl [simp]: "request_DeepEqual K r r"
  by (simp add: request_DeepEqual_def opt_equal_def split: option.split)

lemma request_DeepEqual_on: "deep_eq_on (requests_of res q) (request_DeepEqual K)"
proof -
  have "a = b" if "request_DeepEqual K a b" "rResources a = rResources b" for a b
    using that by (cases a; cases b) (simp add: request_DeepEqual_def)
  then show ?thesis by (auto simp: deep_eq_on_def requests_of_def)
qed

interpretation rq: ordered_set "requests_of res q" newQueue Add Get "Remove (request_DeepEqual K)"
  Has Len All "queue_inv (requests_of res q)" for res q K
  by (rule ordered_set_qtype) (rule request_DeepEqual_on)

section \<open>The invariant\<close>

definition pool_ok :: "nat option \<Rightarrow> nat \<Rightarrow> WorkerPool \<Rightarrow> bool" where
  "pool_ok res q w \<longleftrightarrow>
     queue_inv UNIV (workerQueue w) \<and> queue_inv (requests_of res q) (requestQueue w) \<and>
     wq_inv (pqueue w)"

definition cache_ok :: "(nsname \<times> pod) list \<Rightarrow> bool" where
  "cache_ok idx \<longleftrightarrow> (\<forall>k p. map_of idx k = Some p \<longrightarrow> nsname_of (pmeta p) = k)"

definition pool_inv :: "nat option \<Rightarrow> nat \<Rightarrow> 'w sys \<Rightarrow> bool" where
  "pool_inv res q s \<longleftrightarrow>
     pool_ok res q (pool s) \<and> cache_ok (podIndexer s) \<and> wq_inv (cqueue (ctrl s))"

lemma pool_inv_local [keeps_rules]: "local_inv (pool_inv res q)"
  by (simp add: local_inv_def pool_inv_def)

lemma newPool_ok: "pool_ok res q (newPool core limit)"
  by (simp add: pool_ok_def newPool_def newQueue_inv wq_new_inv)

lemma keeps_upd_pool:
  "(\<And>w. pool_ok res q w \<Longrightarrow> pool_ok res q (f w)) \<Longrightarrow> keeps (pool_inv res q) (upd_pool f)"
  by (rule keepsI) (auto simp: pool_inv_def run_simps)

lemma keeps_queue_ops [keeps_rules]:
  "keeps (pool_inv res q) (worker_queue_Add key)"
  "keeps (pool_inv res q) (worker_queue_Remove key)"
  "keeps (pool_inv res q) send_match_signal"
  by (auto simp: pool_queue_defs pool_ok_def intro!: keeps_upd_pool wq.inv_add wq.inv_remove)

lemma keeps_request_ops [keeps_rules]:
  assumes "req \<in> requests_of res q"
  shows "keeps (pool_inv res q) (request_queue_Add req)"
    and "keeps (pool_inv res q) (request_queue_Remove K req)"
  using assms
  by (auto simp: pool_queue_defs pool_ok_def intro!: keeps_upd_pool rq.inv_add rq.inv_remove)

lemma keeps_pool_upd_queue:
  "(\<And>w. wq_inv w \<Longrightarrow> wq_inv (f w)) \<Longrightarrow> keeps (pool_inv res q) (pool_upd_queue f)"
  by (auto simp: pool_upd_queue_def pool_ok_def intro!: keeps_upd_pool)

lemma keeps_pool_queue_ops [keeps_rules]:
  "keeps (pool_inv res q) (pool_upd_queue (wq_Add key))"
  "keeps (pool_inv res q) (pool_upd_queue (wq_Forget key))"
  by (auto intro!: keeps_pool_upd_queue wq_Add_inv simp: wq_Forget_def)

lemma keeps_ctrl_Add [keeps_rules]:
  "keeps (pool_inv res q) (upd_ctrl (\<lambda>c. c\<lparr>cqueue := wq_Add key (cqueue c)\<rparr>))"
  by (rule keepsI) (auto simp: pool_inv_def run_simps wq_Add_inv)

lemma keeps_deleteWorker [keeps_rules]:
  "local_inv I \<Longrightarrow> keeps I (deleteWorker K p)"
  unfolding deleteWorker_def by (intro keeps_rules)

section \<open>Preservation by the methods\<close>

lemma keeps_pool_enqueue: "keeps (pool_inv res q) (pool_enqueue obj)"
proof -
  have "keeps (pool_inv res q) (upd_pool (\<lambda>w. w\<lparr>pqueue := wq_Add k (pqueue w)\<rparr>))" for k
    by (auto intro!: keeps_upd_pool simp: pool_ok_def wq_Add_inv)
  then show ?thesis
    by (cases obj) (auto simp: pool_enqueue_def intro!: keeps_rules)
qed

lemma keeps_reconcile [keeps_rules]: "keeps (pool_inv res q) (reconcile K worker)"
  unfolding reconcile_def release_deleted_def Let_def by (intro keeps_rules)

lemma keeps_processCluster: "keeps (pool_inv res q) (processCluster K key)"
  unfolding processCluster_def by (intro keeps_rules)

lemma keeps_matchWorkerFor [keeps_rules]: "keeps I (matchWorkerFor req)"
  unfolding matchWorkerFor_def Let_def by (intro keeps_rules)

lemma keeps_matchRequestFor [keeps_rules]: "keeps I (matchRequestFor worker)"
  unfolding matchRequestFor_def by (intro keeps_rules)

lemma keeps_createWorker [keeps_rules]:
  "local_inv I \<Longrightarrow> keeps I (createWorker K req)"
  unfolding createWorker_def CreateServiceFor_def CreateOrUpdateService_def Let_def
  by (intro keeps_rules)

lemma keeps_handle_request:
  "req \<in> requests_of res q \<Longrightarrow> keeps (pool_inv res q) (handle_request K req)"
  unfolding handle_request_def by (intro keeps_rules)

lemma keeps_handleRequestQueue: "keeps (pool_inv res q) (handleRequestQueue K)"
proof (rule keepsI)
  fix s :: "'a sys" and a s'
  assume I: "pool_inv res q s" and run: "run_state (handleRequestQueue K) s = (a, s')"
  let ?items = "queue (requestQueue (pool s))"
  have "set ?items \<subseteq> requests_of res q"
    using I by (auto simp: pool_inv_def pool_ok_def queue_inv_def)
  then have "keeps (pool_inv res q) (for_each (handle_request K) ?items)"
    by (auto intro!: keeps_rules keeps_handle_request)
  moreover have "run_state (for_each (handle_request K) ?items) s = (a, s')"
    using run by (simp add: handleRequestQueue_def)
  ultimately show "pool_inv res q s'" using I by (blast dest: keepsD)
qed

lemma keeps_scan_workers [keeps_rules]:
  "local_inv I \<Longrightarrow> keeps I (scan_workers K ps)"
  by (induction ps) (auto intro!: keeps_rules)

lemma keeps_scaleInWorkerQueue: "keeps (pool_inv res q) (scaleInWorkerQueue K)"
  unfolding scaleInWorkerQueue_def scale_delete_def Let_def by (intro keeps_rules)

text \<open>While a key is being processed, nothing takes it out of the processing set.\<close>

definition processing :: "string \<Rightarrow> 'w sys \<Rightarrow> bool" where
  "processing key s \<longleftrightarrow> key \<in> wprocessing (pqueue (pool s))"

lemma processing_local [keeps_rules]: "local_inv (processing key)"
  by (simp add: local_inv_def processing_def)

lemma keeps_processing [keeps_rules]:
  "keeps (processing key) (worker_queue_Add key')" "keeps (processing key) (worker_queue_Remove key')"
  "keeps (processing key) send_match_signal" "keeps (processing key) (pool_upd_queue (wq_Add key'))"
  "keeps (processing key) (pool_upd_queue (wq_Forget key'))"
  by (auto simp: processing_def pool_queue_defs pool_upd_queue_def run_simps wq_Add_def
      wq_Forget_def Let_def intro!: keepsI split: if_splits)

lemma keeps_processing_processCluster: "keeps (processing key) (processCluster K key')"
  unfolding processCluster_def reconcile_def release_deleted_def Let_def by (intro keeps_rules)

lemma keeps_processNextCluster: "keeps (pool_inv res q) (processNextCluster K)"
proof (rule keepsI)
  fix s :: "'a sys" and a s'
  assume I: "pool_inv res q s" and run: "run_state (processNextCluster K) s = (a, s')"
  obtain g q' where g: "wq_Get (pqueue (pool s)) = (g, q')" by fastforce
  show "pool_inv res q s'"
  proof (cases g)
    case (GetItem key)
    let ?s1 = "s\<lparr>pool := (pool s)\<lparr>pqueue := q'\<rparr>\<rparr>"
    obtain b s2 where s2: "run_state (processCluster K key) ?s1 = (b, s2)" by (metis surj_pair)
    have "wq_inv q'" using wq_Get_inv [of "pqueue (pool s)"] I g by (simp add: pool_inv_def pool_ok_def)
    then have "pool_inv res q ?s1" using I by (simp add: pool_inv_def pool_ok_def)
    then have I2: "pool_inv res q s2" using keepsD [OF keeps_processCluster _ s2] by blast
    have "processing key ?s1"
      using g GetItem by (auto simp: processing_def wq_Get_def split: list.splits if_splits)
    then have "processing key s2" using keepsD [OF keeps_processing_processCluster _ s2] by blast
    with I2 have "wq_inv (wq_Done key (pqueue (pool s2)))"
      by (simp add: processing_def pool_inv_def pool_ok_def wq_Done_inv)
    moreover have "s' = s2\<lparr>pool := (pool s2)\<lparr>pqueue := wq_Done key (pqueue (pool s2))\<rparr>\<rparr>"
      using run g GetItem s2 by (simp add: processNextCluster_def pool_upd_queue_def run_simps)
    ultimately show ?thesis using I2 by (simp add: pool_inv_def pool_ok_def)
  qed (use run g I in \<open>simp_all add: processNextCluster_def\<close>)
qed

section \<open>Lending and taking back\<close>

text \<open>These write to the cache, so they rely on what an update returns.\<close>

definition cached :: "nsname \<Rightarrow> 'w sys \<Rightarrow> bool" where
  "cached k s \<longleftrightarrow> map_of (podIndexer s) k \<noteq> None"

lemma cached_podI: "cached k s \<Longrightarrow> map_of (podIndexer s) k = Some (cached_pod k s)"
  by (auto simp: cached_def cached_pod_def)

lemma cached_pod_name: "pool_inv res q s \<Longrightarrow> cached k s \<Longrightarrow> nsname_of (pmeta (cached_pod k s)) = k"
  using cached_podI [of k s] by (cases k) (auto simp: pool_inv_def cache_ok_def)

lemma pool_inv_set_cached:
  "pool_inv res q s \<Longrightarrow> nsname_of (pmeta p) = k \<Longrightarrow> pool_inv res q (set_cached_pod k p s)"
  by (simp add: pool_inv_def cache_ok_def)

lemma cached_set [simp]: "cached k (set_cached_pod k' p s) \<longleftrightarrow> k = k' \<or> cached k s"
  by (simp add: cached_def)

lemma cached_pod_set_same [simp]: "cached_pod k (set_cached_pod k p s) = p"
  by (simp add: cached_pod_def)

lemma cached_frame [simp]:
  "cached k (s\<lparr>cluster := w\<rparr>) = cached k s" "cached k (s\<lparr>calls := cs\<rparr>) = cached k s"
  "cached k (s\<lparr>pool := wp\<rparr>) = cached k s"
  "cached_pod k (s\<lparr>cluster := w\<rparr>) = cached_pod k s" "cached_pod k (s\<lparr>calls := cs\<rparr>) = cached_pod k s"
  "cached_pod k (s\<lparr>pool := wp\<rparr>) = cached_pod k s"
  by (simp_all add: cached_def cached_pod_def)

lemma run_write_cached_pod [run_simps]: "run_state (write_cached_pod k p) s = ((), set_cached_pod k p s)"
  by (simp add: write_cached_pod_def)

lemma matchWorkerFor_cases:
  assumes "run_state (matchWorkerFor req) s = (r, s')"
  shows "s' = s \<and>
    (case r of
       Inr k \<Rightarrow> k = (rNamespace req, matching_worker_name req (All (workerQueue (pool s)))) \<and>
                snd k \<noteq> '''' \<and> cached k s
     | Inl e \<Rightarrow>
         (if matching_worker_name req (All (workerQueue (pool s))) = '''' then e = ErrNotWorker
          else e = NotFound \<and>
               \<not> cached (rNamespace req, matching_worker_name req (All (workerQueue (pool s)))) s))"
  using assms
  by (auto simp: matchWorkerFor_def Let_def run_simps cached_def split: if_splits option.splits)

end
