(* ===== verification/Manager.thy ===== *)
theory Manager
  imports Informers Controller Pool_Invariant
begin

text \<open>
  The command \<open>cloudshell-manager\<close>: its options with their defaults and validation
  (\<open>cmd/app/options\<close>), the configuration made of them (\<open>cmd/app/config\<close>), and the start of the
  pool and the controller (\<open>cmd/app/cloudshell-manager.go\<close>), including \<open>SplitHostPort\<close> of Go's
  \<open>net\<close> package. The constructors of the Kubernetes clients and the leader election are
  parameters. Parsing the command line is left out: the options are arbitrary ones.
\<close>

section \<open>Host and port\<close>

text \<open>\<open>strings.IndexByte\<close> and \<open>LastIndexByte\<close>, \<open>None\<close> for -1.\<close>

fun IndexByte :: "string \<Rightarrow> char \<Rightarrow> nat option" where
  "IndexByte [] c = None"
| "IndexByte (x # xs) c = (if x = c then Some 0 else map_option Suc (IndexByte xs c))"

definition LastIndexByte :: "string \<Rightarrow> char \<Rightarrow> nat option" where
  "LastIndexByte s c = map_option (\<lambda>i. length s - Suc i) (IndexByte (rev s) c)"

definition missingPort :: err where "missingPort = Failure ''missing port in address''"
definition tooManyColons :: err where "tooManyColons = Failure ''too many colons in address''"

definition SplitHostPort :: "string \<Rightarrow> (string \<times> string) res" where
  "SplitHostPort hostport =
     (case LastIndexByte hostport (CHR '':'') of
        None \<Rightarrow> Err missingPort
      | Some i \<Rightarrow>
          (let checked = (\<lambda>host j k.
             if IndexByte (drop j hostport) (CHR ''['') \<noteq> None
             then Err (Failure ''unexpected '[' in address'')
             else if IndexByte (drop k hostport) (CHR '']'') \<noteq> None
             then Err (Failure ''unexpected ']' in address'')
             else Ok (host, drop (Suc i) hostport))
           in if hostport ! 0 = CHR ''[''
              then (case IndexByte hostport (CHR '']'') of
                      None \<Rightarrow> Err (Failure ''missing ']' in address'')
                    | Some end' \<Rightarrow>
                        if Suc end' = length hostport then Err missingPort
                        else if Suc end' = i then checked (take (end' - 1) (drop 1 hostport)) 1 (Suc end')
                        else if hostport ! Suc end' = CHR '':'' then Err tooManyColons
                        else Err missingPort)
              else if IndexByte (take i hostport) (CHR '':'') \<noteq> None then Err tooManyColons
              else checked (take i hostport) 0 0))"

lemma IndexByte_None: "IndexByte s c = None \<longleftrightarrow> c \<notin> set s"
  by (induction s) auto

lemma IndexByteI: "c \<notin> set a \<Longrightarrow> IndexByte (a @ c # b) c = Some (length a)"
  by (induction a) auto

lemma IndexByteE:
  assumes "IndexByte s c = Some i"
  obtains a b where "s = a @ c # b" "c \<notin> set a" "length a = i"
proof -
  have "c \<in> set s" using assms IndexByte_None [of s c] by force
  then obtain a b where ab: "s = a @ c # b" "c \<notin> set a" by (meson split_list_first)
  then have "length a = i" using IndexByteI [of c a b] assms by simp
  with ab show thesis by (rule that)
qed

lemma LastIndexByteI: "c \<notin> set b \<Longrightarrow> LastIndexByte (a @ c # b) c = Some (length a)"
  using IndexByteI [of c "rev b" "rev a"] by (simp add: LastIndexByte_def)

lemma LastIndexByte_None: "LastIndexByte s c = None \<longleftrightarrow> c \<notin> set s"
  by (simp add: LastIndexByte_def IndexByte_None)

lemma LastIndexByteE:
  assumes "LastIndexByte s c = Some i"
  obtains a b where "s = a @ c # b" "c \<notin> set b" "length a = i"
proof -
  have "c \<in> set s" using assms LastIndexByte_None [of s c] by force
  then obtain a b where ab: "s = a @ c # b" "c \<notin> set b" by (meson split_list_last)
  then have "length a = i" using LastIndexByteI [of c b a] assms by simp
  with ab show thesis by (rule that)
qed

text \<open>The addresses that are accepted: \<open>host:port\<close> and \<open>[host]:port\<close>.\<close>

definition plain :: "string \<Rightarrow> bool" where
  "plain s \<longleftrightarrow> CHR ''['' \<notin> set s \<and> CHR '']'' \<notin> set s"

definition host_port :: "string \<Rightarrow> string \<Rightarrow> string \<Rightarrow> bool" where
  "host_port s host port \<longleftrightarrow>
     plain host \<and> plain port \<and> CHR '':'' \<notin> set port \<and>
     (s = host @ '':'' @ port \<and> CHR '':'' \<notin> set host \<or> s = ''['' @ host @ '']:'' @ port)"

lemma SplitHostPort_plain:
  assumes "plain host" "plain port" "CHR '':'' \<notin> set port" "CHR '':'' \<notin> set host"
  shows "SplitHostPort (host @ '':'' @ port) = Ok (host, port)"
proof -
  have i: "LastIndexByte (host @ CHR '':'' # port) (CHR '':'') = Some (length host)"
    using assms(3) by (rule LastIndexByteI)
  have "(host @ CHR '':'' # port) ! 0 \<noteq> CHR ''[''" using assms(1) by (cases host) (auto simp: plain_def)
  then show ?thesis
    using assms by (simp add: SplitHostPort_def i IndexByte_None [THEN iffD2] plain_def)
qed

lemma SplitHostPort_bracket:
  assumes "plain host" "plain port" "CHR '':'' \<notin> set port"
  shows "SplitHostPort (''['' @ host @ '']:'' @ port) = Ok (host, port)"
proof -
  have i: "LastIndexByte (CHR ''['' # host @ CHR '']'' # CHR '':'' # port) (CHR '':'') = Some (length host + 2)"
    using LastIndexByteI [OF assms(3), of "CHR ''['' # host @ '']''"] by simp
  have e: "IndexByte (host @ CHR '']'' # CHR '':'' # port) (CHR '']'') = Some (length host)"
    using assms(1) by (intro IndexByteI) (simp add: plain_def)
  show ?thesis
    using assms by (simp add: SplitHostPort_def i e IndexByte_None [THEN iffD2] plain_def)
qed

lemma SplitHostPort_accepts:
  assumes "SplitHostPort s = Ok (host, port)"
  shows "host_port s host port"
proof -
  obtain i where i: "LastIndexByte s (CHR '':'') = Some i"
    using assms by (auto simp: SplitHostPort_def split: option.splits)
  obtain a b where s: "s = a @ CHR '':'' # b" "CHR '':'' \<notin> set b" "length a = i"
    by (rule LastIndexByteE [OF i])
  show ?thesis
  proof (cases "s ! 0 = CHR ''[''")
    case False
    then have "CHR ''['' \<notin> set s" "CHR '']'' \<notin> set s" "CHR '':'' \<notin> set (take i s)" "host = take i s" "port = drop (Suc i) s"
      using assms by (auto simp: SplitHostPort_def i Let_def IndexByte_None split: if_splits)
    with s show ?thesis by (auto simp: host_port_def plain_def)
  next
    case True
    obtain e where e: "IndexByte s (CHR '']'') = Some e"
      using assms True by (auto simp: SplitHostPort_def i Let_def split: option.splits)
    obtain h r where h: "s = h @ CHR '']'' # r" "CHR '']'' \<notin> set h" "length h = e"
      by (rule IndexByteE [OF e])
    have q: "Suc e = i" "CHR ''['' \<notin> set (drop 1 s)" "CHR '']'' \<notin> set (drop i s)"
      "host = take (e - 1) (drop 1 s)" "port = drop (Suc i) s"
      using assms True by (auto simp: SplitHostPort_def i e Let_def IndexByte_None split: if_splits)
    have "(h @ '']'') @ r = a @ CHR '':'' # b" using s(1) h(1) by simp
    then have "a = h @ '']''" "r = CHR '':'' # b"
      using append_eq_append_conv [of "h @ '']''" a r "CHR '':'' # b"] s(3) h(3) q(1) by simp_all
    moreover obtain h' where "h = CHR ''['' # h'"
      using True h(1) by (cases h) auto
    ultimately have "host = h'" "port = b" "s = CHR ''['' # h' @ '']:'' @ b" "CHR ''['' \<notin> set h'" "CHR ''['' \<notin> set b"
      "CHR '']'' \<notin> set h'" "CHR '']'' \<notin> set b"
      using q h s(1,3) by auto
    then show ?thesis using s(2) by (simp add: host_port_def plain_def)
  qed
qed

lemma SplitHostPort_iff: "SplitHostPort s = Ok (host, port) \<longleftrightarrow> host_port s host port"
  using SplitHostPort_accepts SplitHostPort_plain SplitHostPort_bracket
  by (auto simp: host_port_def)

section \<open>Options\<close>

record LeaderElectionConfiguration =
  LeaderElect :: bool
  LeaseDuration :: int
  RenewDeadline :: int
  RetryPeriod :: int
  ResourceLock :: string
  ResourceName :: string
  ResourceNamespace :: string

text \<open>The type of \<open>QPS\<close>, a \<open>float32\<close> that is only passed on, is a parameter.\<close>

record 'q ClientConnectionConfiguration =
  AcceptContentTypes :: string
  ContentType :: string
  QPS :: 'q
  Burst :: int

record 'q Options =
  oLeaderElection :: LeaderElectionConfiguration
  ClientConnection :: "'q ClientConnectionConfiguration"
  Master :: string
  oKubeconfig :: string
  oCoreWorkerLimit :: int
  oMaxWorkerLimit :: int
  ClouShellImage :: string
  oNodeSelector :: gomap
  oResources :: ResourceSetting
  oEnablePprof :: bool
  oProfilingBindAddress :: string

text \<open>
  \<open>NewOptions\<close>: the recommended defaults of component-base, with the name, the namespace and
  the kind of the lock set, converted to the internal types. \<open>qps\<close> and \<open>burst\<close> are the
  recommended values of the client connection.
\<close>

definition second :: int where "second = 10 ^ 9"

definition NewOptions :: "'q \<Rightarrow> int \<Rightarrow> 'q Options" where
  "NewOptions qps burst =
     \<lparr>oLeaderElection = \<lparr>LeaderElect = True, LeaseDuration = 15 * second, RenewDeadline = 10 * second,
        RetryPeriod = 2 * second, ResourceLock = ''leases'',
        ResourceName = ''cloudshell-controller-manager'', ResourceNamespace = ''cloudtty-system''\<rparr>,
      ClientConnection = \<lparr>AcceptContentTypes = '''', ContentType = ''application/json'', QPS = qps, Burst = burst\<rparr>,
      Master = '''', oKubeconfig = '''', oCoreWorkerLimit = 0, oMaxWorkerLimit = 0, ClouShellImage = '''',
      oNodeSelector = None, oResources = \<lparr>Limits = None, Requests = None\<rparr>,
      oEnablePprof = False, oProfilingBindAddress = ''''\<rparr>"

text \<open>Declaring the flags stores their default values in the options.\<close>

definition Flags :: "'q Options \<Rightarrow> 'q Options" where
  "Flags o' = o'\<lparr>oCoreWorkerLimit := 5, oMaxWorkerLimit := 10, ClouShellImage := '''',
     oEnablePprof := False, oProfilingBindAddress := '':6060''\<rparr>"

datatype field_value = IntValue int | StringValue string

record field_error =
  FieldPath :: string
  BadValue :: field_value
  Detail :: string

definition Invalid :: "string \<Rightarrow> field_value \<Rightarrow> string \<Rightarrow> field_error" where
  "Invalid child v detail = \<lparr>FieldPath = ''Options.'' @ child, BadValue = v, Detail = detail\<rparr>"

definition Validate :: "'q Options \<Rightarrow> field_error list" where
  "Validate o' =
     (if oCoreWorkerLimit o' < 0
      then [Invalid ''CoreWorkerLimit'' (IntValue (oMaxWorkerLimit o'))
              ''core-worker-limit must be greater than or equals 0''] else []) @
     (if oMaxWorkerLimit o' < 0
      then [Invalid ''MaxWorkerLimit'' (IntValue (oMaxWorkerLimit o'))
              ''max-worker-limit must be greater than or equals 0''] else []) @
     (if oEnablePprof o' \<and> \<not> is_ok (SplitHostPort (oProfilingBindAddress o'))
      then [Invalid ''ProfilingBindAddress'' (StringValue (oProfilingBindAddress o'))
              ''profiling-bind-address must be a valid host:port when --enable-pprof is set''] else [])"

section \<open>Configuration\<close>

record 'q rest_config =
  rAcceptContentTypes :: string
  rContentType :: string
  rQPS :: 'q
  rBurst :: int
  UserAgent :: string

record ('q, 'h) Config =
  KubeClient :: 'h
  CloudShellClient :: 'h
  Client :: 'h
  Kubeconfig :: "'q rest_config"
  CoreWorkerLimit :: int
  MaxWorkerLimit :: int
  CloudShellImage :: string
  NodeSelector :: gomap
  Resources :: "nat option"
  EnablePprof :: bool
  ProfilingBindAddress :: string
  LeaderElection :: LeaderElectionConfiguration

text \<open>The constructors of the clients, each of which may fail.\<close>

record ('q, 'h) clients =
  DefaultUserAgent :: string
  GetConfig :: "'q rest_config res"
  BuildConfigFromFlags :: "string \<Rightarrow> string \<Rightarrow> 'q rest_config res"
  NewClientset :: "'q rest_config \<Rightarrow> 'h res"
  NewRuntimeClient :: "'q rest_config \<Rightarrow> 'h res"
  NewVersioned :: "'q rest_config \<Rightarrow> 'h res"

definition and_then :: "'a res \<Rightarrow> ('a \<Rightarrow> 'b res) \<Rightarrow> 'b res" where
  "and_then r f = (case r of Inl e \<Rightarrow> Err e | Inr x \<Rightarrow> f x)"

text \<open>
  \<open>Options.Config\<close>. \<open>rest.AddUserAgent\<close> sets the agent in the shared configuration, before the
  other two clients are made of it; \<open>Resources\<close> is the address of the options' field, the
  pointer 0 of the model, and never nil.
\<close>

definition make_Config :: "('q, 'h) clients \<Rightarrow> 'q Options \<Rightarrow> ('q, 'h) Config res" where
  "make_Config C o' =
     (if Validate o' \<noteq> [] then Err (Failure ''invalid options'')
      else and_then (if length (oKubeconfig o') = 0 then GetConfig C
                     else BuildConfigFromFlags C (Master o') (oKubeconfig o')) (\<lambda>cfg0.
        let conn = ClientConnection o';
            cfg = cfg0\<lparr>rAcceptContentTypes := AcceptContentTypes conn, rContentType := ContentType conn,
                       rQPS := QPS conn, rBurst := Burst conn,
                       UserAgent := DefaultUserAgent C @ ''/'' @ ''cloudshell-controller-manager''\<rparr>
        in and_then (NewClientset C cfg) (\<lambda>kube.
           and_then (NewRuntimeClient C cfg) (\<lambda>rt.
           and_then (NewVersioned C cfg) (\<lambda>cs.
             Ok \<lparr>KubeClient = kube, CloudShellClient = cs, Client = rt,
                 Kubeconfig = cfg,
                 CoreWorkerLimit = oCoreWorkerLimit o', MaxWorkerLimit = oMaxWorkerLimit o',
                 CloudShellImage = ClouShellImage o', NodeSelector = oNodeSelector o', Resources = Some 0,
                 EnablePprof = oEnablePprof o', ProfilingBindAddress = oProfilingBindAddress o',
                 LeaderElection = oLeaderElection o'\<rparr>)))))"


section \<open>Starting the pool and the controller\<close>

record ListOptions =
  LabelSelector :: string

type_synonym factory = "(nat, ListOptions, unit) sharedInformerFactory"

text \<open>
  The informer of \<open>k8s.io/client-go/informers/core/v1\<close> for pods, generated from the same
  template as the one for cloudshells, and asked for through a factory of the same shape.
\<close>

definition Pod_Informer :: "factory \<Rightarrow> (nat, ListOptions) SharedIndexInformer \<times> factory" where
  "Pod_Informer f =
     InformerFor ''*v1.Pod''
       (\<lambda>c resyncPeriod fresh. \<lparr>iid = fresh, iobject = ''*v1.Pod'', iclient = c, inamespace = fnamespace f,
          iresync = resyncPeriod, iindexers = [''namespace''], itweak = tweakListOptions f\<rparr>) f"

text \<open>Which component has added its event handler to which informer.\<close>

datatype handler = PoolOnPods nat | ControllerOnCloudShells nat | ControllerOnPods nat

text \<open>
  \<open>workerpool.New\<close> and \<open>controllers.New\<close> with the informers they ask for: one for the field,
  one for the lister, one to add the event handler to.
\<close>

definition workerpool_New :: "int \<Rightarrow> int \<Rightarrow> factory \<Rightarrow> WorkerPool \<times> handler list \<times> factory" where
  "workerpool_New core max' f =
     (let f1 = snd (Pod_Informer f); f2 = snd (Pod_Informer f1)
      in case Pod_Informer f2 of (i, f3) \<Rightarrow> (newPool core max', [PoolOnPods (iid i)], f3))"

definition cs_informer :: "factory \<Rightarrow> (nat, ListOptions) SharedIndexInformer \<times> factory" where
  "cs_informer f = CloudShell_Informer (version_CloudShells (group_V1alpha1 (factory_Cloudshell f))) f"

definition controllers_New ::
  "string \<Rightarrow> gomap \<Rightarrow> nat option \<Rightarrow> factory \<Rightarrow> factory \<Rightarrow> Controller \<times> handler list \<times> factory \<times> factory" where
  "controllers_New img sel rs csf pf =
     (let csf1 = snd (cs_informer csf); csf2 = snd (cs_informer csf1);
          pf1 = snd (Pod_Informer pf); pf2 = snd (Pod_Informer pf1)
      in case cs_informer csf2 of (ci, csf3) \<Rightarrow>
           (case Pod_Informer pf2 of (pi, pf3) \<Rightarrow>
              (newController img sel rs, [ControllerOnCloudShells (iid ci), ControllerOnPods (iid pi)], csf3, pf3)))"

datatype thread = PoolRun | ControllerRun nat

record process =
  kubeFactory :: factory
  csFactory :: factory
  startedPool :: WorkerPool
  startedController :: Controller
  handlers :: "handler list"
  threads :: "thread list"

text \<open>
  \<open>StartControllers\<close> up to the wait for \<open>stopCh\<close>. The selector made of the requirement that
  the owner label exists is the label itself; the label is a valid one, so making the
  requirement does not fail.
\<close>

definition owner_exists :: "ListOptions \<Rightarrow> ListOptions" where
  "owner_exists opts = opts\<lparr>LabelSelector := WorkerOwnerLabelKey\<rparr>"

definition StartControllers :: "('q, nat) Config \<Rightarrow> process" where
  "StartControllers c =
     (let factory = NewSharedInformerFactoryWithOptions (KubeClient c) 0 [WithTweakListOptions (Some owner_exists)];
          informerFactory = NewSharedInformerFactory (CloudShellClient c) 0
      in case workerpool_New (CoreWorkerLimit c) (MaxWorkerLimit c) factory of (pl, hs, factory1) \<Rightarrow>
           (case controllers_New (CloudShellImage c) (NodeSelector c) (Resources c) informerFactory factory1 of
              (ct, hs', informerFactory1, factory2) \<Rightarrow>
                \<lparr>kubeFactory = factory_Start () factory2, csFactory = factory_Start () informerFactory1,
                 startedPool = pl, startedController = ct, handlers = hs @ hs',
                 threads = [PoolRun, ControllerRun 1]\<rparr>))"

text \<open>
  \<open>Run\<close>: what is started, in order. The host name and the resource lock may fail; with leader
  election the controllers are started by the callback of the elected process.
\<close>

datatype run_action =
    ServeProfiling string
  | StartNow
  | ElectLeader string LeaderElectionConfiguration

definition Run :: "string res \<Rightarrow> string \<Rightarrow> unit res \<Rightarrow> ('q, 'h) Config \<Rightarrow> run_action list \<times> unit res" where
  "Run hostname uuid lock c =
     (let prof = (if EnablePprof c then [ServeProfiling (ProfilingBindAddress c)] else [])
      in if \<not> LeaderElect (LeaderElection c) then (prof @ [StartNow], Ok ())
         else (case hostname of
                 Inl e \<Rightarrow> (prof, Err e)
               | Inr host \<Rightarrow>
                   (case lock of
                      Inl e \<Rightarrow> (prof, Err (Failure ''failed to create resource lock''))
                    | Inr _ \<Rightarrow> (prof @ [ElectLeader (host @ ''_'' @ uuid) (LeaderElection c)], Ok ()))))"

text \<open>
  The command of \<open>NewCloudShellManagerCommand\<close>: it takes no arguments (empty ones are let
  through), and before the configuration is made, \<open>--version\<close> and log options that cannot be
  applied end the process.
\<close>

definition command_Args :: "string list \<Rightarrow> unit res" where
  "command_Args args =
     (if list_ex (\<lambda>arg. length arg > 0) args then Err (Failure ''does not take any arguments'') else Ok ())"

datatype command_result = Exits nat | Runs "run_action list" "unit res"

definition RunE ::
  "bool \<Rightarrow> unit res \<Rightarrow> string res \<Rightarrow> string \<Rightarrow> unit res \<Rightarrow> ('q, 'h) clients \<Rightarrow> 'q Options \<Rightarrow> command_result" where
  "RunE versionRequested logs hostname uuid lock C o' =
     (if versionRequested then Exits 0
      else case logs of
        Inl e \<Rightarrow> Exits 1
      | Inr _ \<Rightarrow> (case make_Config C o' of
          Inl e \<Rightarrow> Runs [] (Err e)
        | Inr c \<Rightarrow> (case Run hostname uuid lock c of (acts, r) \<Rightarrow> Runs acts r)))"

lemma RunE_validated:
  "RunE v logs hostname uuid lock C o' = Runs acts r \<Longrightarrow> acts \<noteq> [] \<Longrightarrow> Validate o' = []"
  by (auto simp: RunE_def make_Config_def split: if_splits sum.splits)

text \<open>
  The options are accepted exactly if both limits are at least 0 and, with
  profiling enabled, the address is \<open>host:port\<close> or \<open>[host]:port\<close>, the port and a bracketed host
  without brackets, the port without colons, and a host without brackets around it without
  colons; there is one error per violated condition. A configuration made of the options
  therefore has limits of at least 0 and passes limits, image and node selector on.
\<close>

theorem Validate_spec:
  fixes C :: "('q, 'h) clients"
  shows "(Validate o' = [] \<longleftrightarrow>
      0 \<le> oCoreWorkerLimit o' \<and> 0 \<le> oMaxWorkerLimit o' \<and>
      (oEnablePprof o' \<longrightarrow> (\<exists>host port. host_port (oProfilingBindAddress o') host port))) \<and>
    length (Validate o') \<le> 3 \<and> distinct (map FieldPath (Validate o')) \<and>
    (\<forall>c. make_Config C o' = Ok c \<longrightarrow>
       0 \<le> CoreWorkerLimit c \<and> 0 \<le> MaxWorkerLimit c \<and>
       CoreWorkerLimit c = oCoreWorkerLimit o' \<and> MaxWorkerLimit c = oMaxWorkerLimit o' \<and>
       NodeSelector c = oNodeSelector o' \<and> CloudShellImage c = ClouShellImage o' \<and> Resources c \<noteq> None)"
proof -
  have host: "is_ok (SplitHostPort s) \<longleftrightarrow> (\<exists>host port. host_port s host port)" for s
    using SplitHostPort_iff [of s] by (cases "SplitHostPort s") auto
  have accept: "Validate o' = [] \<longleftrightarrow>
      0 \<le> oCoreWorkerLimit o' \<and> 0 \<le> oMaxWorkerLimit o' \<and>
      (oEnablePprof o' \<longrightarrow> (\<exists>host port. host_port (oProfilingBindAddress o') host port))"
    by (auto simp: Validate_def host)
  moreover have "length (Validate o') \<le> 3" by (simp add: Validate_def)
  moreover have "distinct (map FieldPath (Validate o'))" by (auto simp: Validate_def Invalid_def)
  moreover have "0 \<le> CoreWorkerLimit c \<and> 0 \<le> MaxWorkerLimit c \<and>
       CoreWorkerLimit c = oCoreWorkerLimit o' \<and> MaxWorkerLimit c = oMaxWorkerLimit o' \<and>
       NodeSelector c = oNodeSelector o' \<and> CloudShellImage c = ClouShellImage o' \<and> Resources c \<noteq> None"
    if "make_Config C o' = Ok c" for c
    using that accept by (auto simp: make_Config_def and_then_def Let_def split: sum.splits if_splits)
  ultimately show ?thesis by blast
qed


definition profiling_options :: "nat Options" where
  "profiling_options = (Flags (NewOptions 50 100))\<lparr>oEnablePprof := True\<rparr>"

definition working_clients :: "(nat, nat) clients" where
  "working_clients =
     (let cfg = \<lparr>rAcceptContentTypes = '''', rContentType = '''', rQPS = 0, rBurst = 0, UserAgent = ''''\<rparr>
      in \<lparr>DefaultUserAgent = ''cloudshell'', GetConfig = Ok cfg, BuildConfigFromFlags = (\<lambda>_ _. Ok cfg),
          NewClientset = (\<lambda>_. Ok 1), NewRuntimeClient = (\<lambda>_. Ok 2), NewVersioned = (\<lambda>_. Ok 3)\<rparr>)"

theorem Validate_spec_witness:
  "Validate profiling_options = [] \<and>
   (\<exists>c. make_Config working_clients profiling_options = Ok c \<and> CoreWorkerLimit c = 5 \<and> MaxWorkerLimit c = 10)"
proof -
  have fields: "oCoreWorkerLimit profiling_options = 5" "oMaxWorkerLimit profiling_options = 10"
    "oProfilingBindAddress profiling_options = '':6060''"
    by (simp_all add: profiling_options_def Flags_def)
  have "host_port '':6060'' '''' ''6060''" by (simp add: host_port_def plain_def)
  then have "Validate profiling_options = []"
    using Validate_spec [of profiling_options working_clients] fields by auto
  moreover from this obtain c where "make_Config working_clients profiling_options = Ok c"
    by (simp add: make_Config_def working_clients_def and_then_def profiling_options_def Flags_def NewOptions_def Let_def)
  ultimately show ?thesis
    using Validate_spec [of profiling_options working_clients] fields by auto
qed

section \<open>How the parts are wired\<close>

lemma run_Pod_Informer:
  "Pod_Informer f =
     (case map_of (informers f) ''*v1.Pod'' of
        Some i \<Rightarrow> (i, f)
      | None \<Rightarrow>
          (let i = \<lparr>iid = created f, iobject = ''*v1.Pod'', iclient = client f, inamespace = fnamespace f,
                    iresync = (case map_of (customResync f) ''*v1.Pod'' of None \<Rightarrow> defaultResync f | Some r \<Rightarrow> r),
                    iindexers = [''namespace''], itweak = tweakListOptions f\<rparr>
           in (i, f\<lparr>informers := AList.update ''*v1.Pod'' i (informers f), created := Suc (created f)\<rparr>)))"
  by (simp add: Pod_Informer_def InformerFor_def Let_def split: option.splits)

text \<open>
  Property C27. Starting the manager creates exactly one informer for pods and one for
  cloudshells, although the pool and the controller ask for them nine times, and runs each
  exactly once. The pool and the controller have their event handlers on that same pod
  informer, which lists and watches only pods with the owner label, in all namespaces; the
  controller's other handler is on the cloudshell informer. The pool starts with the limits
  of the configuration and satisfies its invariant, and the controller has image, node
  selector and resources from there.
\<close>

theorem StartControllers_wiring:
  fixes c :: "('q, nat) Config"
  shows "let p = StartControllers c in \<exists>pods shells.
    informers (kubeFactory p) = [(''*v1.Pod'', pods)] \<and> informers (csFactory p) = [(''*v1alpha1.CloudShell'', shells)] \<and>
    launched (kubeFactory p) = [(''*v1.Pod'', pods, ())] \<and> launched (csFactory p) = [(''*v1alpha1.CloudShell'', shells, ())] \<and>
    handlers p = [PoolOnPods (iid pods), ControllerOnCloudShells (iid shells), ControllerOnPods (iid pods)] \<and>
    (\<forall>opts. ListFunc (\<lambda>client ns o'. (client, ns, LabelSelector o')) pods opts = (KubeClient c, '''', WorkerOwnerLabelKey)) \<and>
    (\<forall>opts. WatchFunc (\<lambda>client ns o'. (client, ns, LabelSelector o')) pods opts = (KubeClient c, '''', WorkerOwnerLabelKey)) \<and>
    (\<forall>opts. ListFunc (\<lambda>client ns o'. (client, ns, o')) shells opts = (CloudShellClient c, '''', opts)) \<and>
    startedPool p = newPool (CoreWorkerLimit c) (MaxWorkerLimit c) \<and> pool_ok (Resources c) q (startedPool p) \<and>
    startedController p = newController (CloudShellImage c) (NodeSelector c) (Resources c)"
  by (simp add: newPool_ok StartControllers_def workerpool_New_def controllers_New_def NewSharedInformerFactoryWithOptions_def
      NewSharedInformerFactory_def WithTweakListOptions_def run_Pod_Informer cs_informer_def CloudShell_Informer_def
      InformerFor_def factory_Start_def start_one_def is_started_def version_CloudShells_def group_V1alpha1_def
      factory_Cloudshell_def defaultInformer_def NewFilteredCloudShellInformer_def ListFunc_def WatchFunc_def tweak_options_def
      owner_exists_def Let_def)


end
