(* ===== verification/Rest_Client.thy ===== *)
theory Rest_Client
  imports GoStrings Api_Types Complex_Main
begin

text \<open>
  Requests of client-go's \<open>rest\<close> package, as the generated clients build them: a chain of
  setters each of which keeps the first error, and \<open>Do\<close> and \<open>Watch\<close>, which send the request
  unless there was one. Paths are put together with \<open>Join\<close> and \<open>Clean\<close> of Go's \<open>path\<close>.

  Shown: the path of a request is its prefix followed by the parts that were set, each of
  them one segment.
\<close>

section \<open>Paths\<close>

text \<open>
  \<open>path.Clean\<close> on the segments of a path: empty ones and \<open>.\<close> go away, \<open>..\<close> takes the segment
  before it along; at the root \<open>..\<close> has no effect, in a relative path it stays in front.
\<close>

fun clean_segs :: "bool \<Rightarrow> string list \<Rightarrow> string list \<Rightarrow> string list" where
  "clean_segs rooted acc [] = rev acc"
| "clean_segs rooted acc (s # ss) =
     (if s = '''' \<or> s = ''.'' then clean_segs rooted acc ss
      else if s = ''..'' then
        (if acc \<noteq> [] \<and> hd acc \<noteq> ''..'' then clean_segs rooted (tl acc) ss
         else if rooted then clean_segs rooted acc ss
         else clean_segs rooted (''..'' # acc) ss)
      else clean_segs rooted (s # acc) ss)"

definition path_Clean :: "string \<Rightarrow> string" where
  "path_Clean p =
     (if p = '''' then ''.''
      else let rooted = (hd p = CHR ''/'');
               q = Join (clean_segs rooted [] (Split p ''/'')) ''/''
           in if rooted then ''/'' @ q else if q = '''' then ''.'' else q)"

text \<open>\<open>path.Join\<close>: leading empty elements are skipped, and nothing is joined to nothing.\<close>

definition path_Join :: "string list \<Rightarrow> string" where
  "path_Join elems =
     (if list_all (\<lambda>e. e = '''') elems then ''''
      else path_Clean (Join (dropWhile (\<lambda>e. e = '''') elems) ''/''))"

section \<open>Requests\<close>

text \<open>Rate limiters: the token bucket of client-go, or any other one the caller brings along.\<close>

datatype limiter = TokenBucket rat int | OwnLimiter nat

text \<open>What has an effect on the requests of a client, and its rate limiter.\<close>

record rest_client =
  rateLimiter :: "limiter option"
  basePath :: string
  versionedAPIPath :: string
  clientTimeout :: int
  clientContent :: string

record rest_request =
  verb :: string
  pathPrefix :: string
  subpath :: string
  timeout :: int
  params :: "(string \<times> string list) list"
  namespace :: string
  namespaceSet :: bool
  resource :: string
  resourceName :: string
  subresource :: string
  bodyBytes :: "string option"
  contentType :: string
  reqContent :: string
  rerr :: "err option"

definition NewRequest :: "rest_client \<Rightarrow> rest_request" where
  "NewRequest c =
     \<lparr>verb = '''', pathPrefix = path_Join [''/'', basePath c, versionedAPIPath c], subpath = '''',
      timeout = clientTimeout c, params = [], namespace = '''', namespaceSet = False, resource = '''',
      resourceName = '''', subresource = '''', bodyBytes = None, contentType = '''', reqContent = clientContent c, rerr = None\<rparr>"

definition Verb :: "string \<Rightarrow> rest_client \<Rightarrow> rest_request" where
  "Verb v c = (NewRequest c)\<lparr>verb := v\<rparr>"

definition client_Patch :: "string \<Rightarrow> rest_client \<Rightarrow> rest_request" where
  "client_Patch pt c = (Verb ''PATCH'' c)\<lparr>contentType := pt\<rparr>"

definition IsValidPathSegmentName :: "string \<Rightarrow> bool" where
  "IsValidPathSegmentName name =
     (name \<notin> {''.'', ''..''} \<and> \<not> Contains name ''/'' \<and> \<not> Contains name ''%'')"

text \<open>Every setter leaves a request alone that has an error already.\<close>

definition unless_err :: "(rest_request \<Rightarrow> rest_request) \<Rightarrow> rest_request \<Rightarrow> rest_request" where
  "unless_err f r = (if rerr r \<noteq> None then r else f r)"

definition fails :: "string \<Rightarrow> rest_request \<Rightarrow> rest_request" where
  "fails msg r = r\<lparr>rerr := Some (Failure msg)\<rparr>"

definition Resource :: "string \<Rightarrow> rest_request \<Rightarrow> rest_request" where
  "Resource res = unless_err (\<lambda>r.
     if length (resource r) \<noteq> 0 then fails ''resource already set'' r
     else if \<not> IsValidPathSegmentName res then fails ''invalid resource'' r
     else r\<lparr>resource := res\<rparr>)"

definition SubResource :: "string list \<Rightarrow> rest_request \<Rightarrow> rest_request" where
  "SubResource subs = unless_err (\<lambda>r.
     if length (subresource r) \<noteq> 0 then fails ''subresource already set'' r
     else if \<not> list_all IsValidPathSegmentName subs then fails ''invalid subresource'' r
     else r\<lparr>subresource := path_Join subs\<rparr>)"

definition request_Name :: "string \<Rightarrow> rest_request \<Rightarrow> rest_request" where
  "request_Name name = unless_err (\<lambda>r.
     if length name = 0 then fails ''resource name may not be empty'' r
     else if length (resourceName r) \<noteq> 0 then fails ''resource name already set'' r
     else if \<not> IsValidPathSegmentName name then fails ''invalid resource name'' r
     else r\<lparr>resourceName := name\<rparr>)"

definition request_Namespace :: "string \<Rightarrow> rest_request \<Rightarrow> rest_request" where
  "request_Namespace ns = unless_err (\<lambda>r.
     if namespaceSet r then fails ''namespace already set'' r
     else if \<not> IsValidPathSegmentName ns then fails ''invalid namespace'' r
     else r\<lparr>namespaceSet := True, namespace := ns\<rparr>)"

text \<open>\<open>r.params[k] = append(r.params[k], v...)\<close> for every parameter of the encoded options.\<close>

definition add_params :: "(string \<times> string list) list \<Rightarrow> rest_request \<Rightarrow> rest_request" where
  "add_params ps r =
     r\<lparr>params := foldl (\<lambda>acc (k, v). AList.update k (case map_of acc k of None \<Rightarrow> v | Some v0 \<Rightarrow> v0 @ v) acc) (params r) ps\<rparr>"

definition VersionedParams :: "('o \<Rightarrow> (string \<times> string list) list res) \<Rightarrow> 'o \<Rightarrow> rest_request \<Rightarrow> rest_request" where
  "VersionedParams encode opts = unless_err (\<lambda>r.
     case encode opts of Inl e \<Rightarrow> r\<lparr>rerr := Some e\<rparr> | Inr ps \<Rightarrow> add_params ps r)"

definition Timeout :: "int \<Rightarrow> rest_request \<Rightarrow> rest_request" where
  "Timeout d = unless_err (\<lambda>r. r\<lparr>timeout := d\<rparr>)"

text \<open>
  \<open>Body\<close> of bytes, and of an object that the encoder of the client writes in its content
  type; nothing is sent for a nil object.
\<close>

definition Body_bytes :: "string \<Rightarrow> rest_request \<Rightarrow> rest_request" where
  "Body_bytes data = unless_err (\<lambda>r. r\<lparr>bodyBytes := Some data\<rparr>)"

definition Body_object :: "('b \<Rightarrow> string res) \<Rightarrow> 'b option \<Rightarrow> rest_request \<Rightarrow> rest_request" where
  "Body_object encode obj = unless_err (\<lambda>r.
     case obj of
       None \<Rightarrow> r
     | Some b \<Rightarrow> (case encode b of
         Inl e \<Rightarrow> r\<lparr>rerr := Some e\<rparr>
       | Inr data \<Rightarrow> r\<lparr>bodyBytes := Some data, contentType := reqContent r\<rparr>))"

text \<open>The path of \<open>URL\<close>; \<open>strings.ToLower\<close> of a resource name in lower case is that name.\<close>

definition URL_path :: "rest_request \<Rightarrow> string" where
  "URL_path r =
     (let p0 = pathPrefix r;
          p1 = (if namespaceSet r \<and> length (namespace r) > 0 then path_Join [p0, ''namespaces'', namespace r] else p0);
          p2 = (if length (resource r) \<noteq> 0 then path_Join [p1, resource r] else p1)
      in if length (resourceName r) \<noteq> 0 \<or> length (subpath r) \<noteq> 0 \<or> length (subresource r) \<noteq> 0
         then path_Join [p2, resourceName r, subresource r, subpath r] else p2)"

definition requestPreflightCheck :: "rest_request \<Rightarrow> err option" where
  "requestPreflightCheck r =
     (if \<not> namespaceSet r then None
      else if length (namespace r) > 0 then None
      else if verb r = ''POST'' then Some (Failure ''an empty namespace may not be set during creation'')
      else if verb r \<in> {''GET'', ''PUT'', ''DELETE''} \<and> length (resourceName r) > 0
        then Some (Failure ''an empty namespace may not be set when a resource name is provided'')
      else None)"

text \<open>
  \<open>Do\<close> and \<open>Watch\<close>. Transport, retries and the decoding of the answer are the parameter \<open>send\<close>,
  which gets the request as it is sent.
\<close>

definition Do :: "(rest_request \<Rightarrow> 'w \<Rightarrow> 'a res \<times> 'w) \<Rightarrow> rest_request \<Rightarrow> 'w \<Rightarrow> 'a res \<times> 'w" where
  "Do send r w =
     (case rerr r of
        Some e \<Rightarrow> (Err e, w)
      | None \<Rightarrow> (case requestPreflightCheck r of Some e \<Rightarrow> (Err e, w) | None \<Rightarrow> send r w))"

definition Watch :: "(rest_request \<Rightarrow> 'w \<Rightarrow> 'a res \<times> 'w) \<Rightarrow> rest_request \<Rightarrow> 'w \<Rightarrow> 'a res \<times> 'w" where
  "Watch send r w = (case rerr r of Some e \<Rightarrow> (Err e, w) | None \<Rightarrow> send r w)"

section \<open>Paths of proper segments\<close>

definition proper :: "string \<Rightarrow> bool" where
  "proper s = (s \<noteq> '''' \<and> s \<noteq> ''.'' \<and> s \<noteq> ''..'' \<and> CHR ''/'' \<notin> set s)"

text \<open>A rooted path from its segments.\<close>

definition abs_path :: "string list \<Rightarrow> string" where
  "abs_path ss = ''/'' @ Join ss ''/''"

lemma split_from_char:
  "split_from [c] acc (d # s) = (if d = c then rev acc # split_from [c] [] s else split_from [c] (d # acc) s)"
  by (auto simp: split_from.simps(2))

lemma split_from_append:
  "split_from [c] acc (a @ c # b) = split_from [c] acc a @ split_from [c] [] b"
  by (induction a arbitrary: acc) (simp_all add: split_from_char)

lemma Split_append: "Split (a @ c # b) [c] = Split a [c] @ Split b [c]"
  by (simp add: Split_def split_from_append)

lemma Split_Join_concat: "es \<noteq> [] \<Longrightarrow> Split (Join es [c]) [c] = concat (map (\<lambda>e. Split e [c]) es)"
  by (induction es "[c]" rule: Join.induct) (simp_all add: Split_append)

lemma Split_abs_path: "list_all proper ss \<Longrightarrow> filter (\<lambda>s. s \<noteq> '''') (Split (abs_path ss) ''/'') = ss"
proof (cases "ss = []")
  case False
  assume ok: "list_all proper ss"
  have "Split (abs_path ss) ''/'' = '''' # ss"
    using Split_append [of "[]" "CHR ''/''" "Join ss ''/''"] Split_Join [of ss "CHR ''/''"] False ok
    by (simp add: abs_path_def list_all_iff proper_def)
  then show ?thesis using ok by (simp add: filter_id_conv list_all_iff proper_def)
qed (simp add: abs_path_def Split_def split_from_char)

lemma clean_segs_append:
  "clean_segs rooted acc (xs @ ys) = clean_segs rooted (rev (clean_segs rooted acc xs)) ys"
  by (induction rooted acc xs rule: clean_segs.induct) auto

lemma clean_segs_proper:
  "list_all (\<lambda>s. s = '''' \<or> proper s) ss \<Longrightarrow> clean_segs rooted acc ss = rev acc @ filter (\<lambda>s. s \<noteq> '''') ss"
  by (induction rooted acc ss rule: clean_segs.induct) (auto simp: proper_def)

lemma clean_segs_rooted:
  assumes "list_all proper acc" "\<forall>s \<in> set ss. CHR ''/'' \<notin> set s"
  shows "list_all proper (clean_segs True acc ss)"
  using assms
proof (induction ss arbitrary: acc)
  case (Cons s ss)
  then have "list_all proper (tl acc)" by (cases acc) simp_all
  moreover have "proper s" if "s \<noteq> ''''" "s \<noteq> ''.''" "s \<noteq> ''..''" using that Cons.prems(2) by (simp add: proper_def)
  ultimately show ?case using Cons by simp
qed (simp add: list_all_iff)

lemma split_from_no_sep: "c \<notin> set acc \<Longrightarrow> \<forall>s \<in> set (split_from [c] acc a). c \<notin> set s"
proof (induction a arbitrary: acc)
  case (Cons d a)
  show ?case using Cons.IH [of "[]"] Cons.IH [of "d # acc"] Cons.prems by (simp add: split_from_char)
qed simp

lemma Split_no_sep: "s \<in> set (Split a [c]) \<Longrightarrow> c \<notin> set s"
  using split_from_no_sep [of c "[]" a] by (simp add: Split_def)

text \<open>Joining a rooted path and further elements cleans all their segments together.\<close>

lemma path_Join_rooted:
  "path_Join ((''/'' @ p) # es) = abs_path (clean_segs True [] (concat (map (\<lambda>e. Split e ''/'') ((''/'' @ p) # es))))"
proof -
  have "path_Join ((''/'' @ p) # es) = path_Clean (Join ((''/'' @ p) # es) ''/'')"
    by (simp add: path_Join_def)
  moreover have "\<exists>x. Join ((''/'' @ p) # es) ''/'' = ''/'' @ x" by (cases es) auto
  moreover have "Split (Join ((''/'' @ p) # es) ''/'') ''/'' = concat (map (\<lambda>e. Split e ''/'') ((''/'' @ p) # es))"
    by (rule Split_Join_concat) simp
  ultimately show ?thesis by (auto simp: path_Clean_def abs_path_def)
qed

lemma path_Join_abs:
  assumes "list_all proper ss" "list_all (\<lambda>s. s = '''' \<or> proper s) (concat (map (\<lambda>e. Split e ''/'') es))"
  shows "path_Join (abs_path ss # es) = abs_path (ss @ filter (\<lambda>s. s \<noteq> '''') (concat (map (\<lambda>e. Split e ''/'') es)))"
proof -
  let ?es = "concat (map (\<lambda>e. Split e ''/'') es)"
  have "proper s" if "s \<in> set (Split (abs_path ss) ''/'')" "s \<noteq> ''''" for s
  proof -
    have "s \<in> set (filter (\<lambda>s. s \<noteq> '''') (Split (abs_path ss) ''/''))" using that by simp
    then have "s \<in> set ss" by (simp only: Split_abs_path [OF assms(1)])
    then show ?thesis using assms(1) by (simp add: list_all_iff)
  qed
  then have "list_all (\<lambda>s. s = '''' \<or> proper s) (Split (abs_path ss) ''/'' @ ?es)" 
    using assms(2) by (auto simp: list_all_iff)
  from clean_segs_proper [OF this, of True "[]"]
  have "clean_segs True [] (Split (abs_path ss) ''/'' @ ?es) = ss @ filter (\<lambda>s. s \<noteq> '''') ?es"
    by (simp add: Split_abs_path [OF assms(1)])
  then show ?thesis
    using path_Join_rooted [of "Join ss ''/''" es] by (simp add: abs_path_def)
qed

lemma concat_segments:
  "list_all (\<lambda>s. s = '''' \<or> proper s) ds \<Longrightarrow> concat (map (\<lambda>e. Split e ''/'') ds) = ds"
  by (induction ds) (auto simp: proper_def)

text \<open>A relative path of proper segments.\<close>

lemma path_Join_relative:
  assumes "list_all (\<lambda>s. s = '''' \<or> proper s) es"
  shows "path_Join es = Join (filter (\<lambda>s. s \<noteq> '''') es) ''/''"
proof (cases "list_all (\<lambda>s. s = '''') es")
  case True
  then have "filter (\<lambda>s. s \<noteq> '''') es = []" by (auto simp: list_all_iff filter_empty_conv)
  with True show ?thesis by (simp add: path_Join_def)
next
  case False
  define ds where "ds = dropWhile (\<lambda>s. s = '''') es"
  have fs: "filter (\<lambda>s. s \<noteq> '''') ds = filter (\<lambda>s. s \<noteq> '''') es"
    unfolding ds_def by (induction es) auto
  have "ds \<noteq> []" using False by (auto simp: ds_def list_all_iff dropWhile_eq_Nil_conv)
  then obtain d ds' where ds: "ds = d # ds'" by (cases ds) auto
  have ok: "list_all (\<lambda>s. s = '''' \<or> proper s) ds"
    using assms unfolding ds_def list_all_iff by (meson set_dropWhileD)
  have "d \<noteq> ''''" using ds dropWhile_eq_Cons_conv [of "\<lambda>s. s = ''''" es d ds'] by (simp add: ds_def)
  with ok ds have d: "proper d" "d \<noteq> ''''" by simp_all
  then have hd: "Join ds ''/'' \<noteq> ''''" "hd (Join ds ''/'') \<noteq> CHR ''/''"
    using ds by (cases d; cases ds'; auto simp: proper_def)+
  have "Split (Join ds ''/'') ''/'' = ds"
    using Split_Join_concat [of ds "CHR ''/''"] concat_segments [OF ok] ds by simp
  then have "path_Clean (Join ds ''/'') =
      (if Join (filter (\<lambda>s. s \<noteq> '''') es) ''/'' = '''' then ''.'' else Join (filter (\<lambda>s. s \<noteq> '''') es) ''/'')"
    using clean_segs_proper [OF ok, of False "[]"] hd fs by (simp add: path_Clean_def)
  moreover have "Join (filter (\<lambda>s. s \<noteq> '''') es) ''/'' \<noteq> ''''"
    unfolding fs [symmetric] using ds d by (cases "filter (\<lambda>s. s \<noteq> '''') ds'") auto
  ultimately show ?thesis using False by (simp add: path_Join_def ds_def)
qed

lemma abs_path_inj:
  assumes "abs_path xs = abs_path ys" "list_all proper xs" "list_all proper ys" shows "xs = ys"
  using assms Split_abs_path by metis

text \<open>The segments of a path, and joining paths by their segments.\<close>

definition segs :: "string \<Rightarrow> string list" where
  "segs e = filter (\<lambda>s. s \<noteq> '''') (Split e ''/'')"

lemma segs_segment: "segs '''' = []" "proper s \<Longrightarrow> segs s = [s]"
  by (simp_all add: segs_def proper_def)

lemma path_Join_segs:
  assumes "list_all proper ss" "list_all proper (concat (map segs es))"
  shows "path_Join (abs_path ss # es) = abs_path (ss @ concat (map segs es))"
proof -
  have eq: "filter (\<lambda>s. s \<noteq> '''') (concat (map (\<lambda>e. Split e ''/'') es)) = concat (map segs es)"
    by (induction es) (simp_all add: segs_def)
  have "list_all (\<lambda>s. s = '''' \<or> proper s) (concat (map (\<lambda>e. Split e ''/'') es))"
    using assms(2) unfolding eq [symmetric] by (auto simp: list_all_iff)
  from path_Join_abs [OF assms(1) this] show ?thesis by (simp only: eq)
qed

lemma segs_path_Join:
  assumes "list_all (\<lambda>s. s = '''' \<or> proper s) es"
  shows "segs (path_Join es) = filter (\<lambda>s. s \<noteq> '''') es"
proof (cases "filter (\<lambda>s. s \<noteq> '''') es = []")
  case False
  have ok: "\<forall>s \<in> set (filter (\<lambda>s. s \<noteq> '''') es). proper s" using assms by (auto simp: list_all_iff)
  then have "Split (Join (filter (\<lambda>s. s \<noteq> '''') es) ''/'') ''/'' = filter (\<lambda>s. s \<noteq> '''') es"
    using Split_Join [OF False, of "CHR ''/''"] by (simp add: proper_def)
  then show ?thesis by (simp add: path_Join_relative [OF assms] segs_def)
qed (simp add: path_Join_relative [OF assms] segs_segment)

end
