(* ===== verification/Profiling.thy ===== *)
theory Profiling
  imports Manager Rest_Client
begin

text \<open>
  The profiling server of \<open>serveProfiling\<close> (\<open>cmd/app/cloudshell-manager.go\<close>) on the request
  multiplexer \<open>ServeMux\<close> of \<open>net/http\<close> in Go 1.21: patterns are paths, those that end with a
  slash stand for all paths below, and a path that is not clean is redirected.

  Shown: which requests reach a handler, so that nothing outside of \<open>/debug/pprof/\<close> is served.
\<close>

section \<open>The multiplexer\<close>

record 'h ServeMux =
  mux_m :: "(string \<times> 'h) list"
  mux_es :: "(string \<times> 'h) list"
  mux_hosts :: bool

definition NewServeMux :: "'h ServeMux" where
  "NewServeMux = \<lparr>mux_m = [], mux_es = [], mux_hosts = False\<rparr>"

text \<open>The patterns with a slash at the end, the longest first.\<close>

definition appendSorted :: "(string \<times> 'h) list \<Rightarrow> string \<times> 'h \<Rightarrow> (string \<times> 'h) list" where
  "appendSorted es e =
     (let longer = (\<lambda>x. length (fst e) \<le> length (fst x)) in takeWhile longer es @ e # dropWhile longer es)"

definition HandleFunc :: "string \<Rightarrow> 'h \<Rightarrow> 'h ServeMux \<Rightarrow> 'h ServeMux res" where
  "HandleFunc pattern h mux =
     (if pattern = '''' then Err (GoPanic ''http: invalid pattern'')
      else if map_of (mux_m mux) pattern \<noteq> None then Err (GoPanic ''http: multiple registrations'')
      else Ok \<lparr>mux_m = mux_m mux @ [(pattern, h)],
               mux_es = (if last pattern = CHR ''/'' then appendSorted (mux_es mux) (pattern, h) else mux_es mux),
               mux_hosts = (mux_hosts mux \<or> hd pattern \<noteq> CHR ''/'')\<rparr>)"

definition mux_match :: "'h ServeMux \<Rightarrow> string \<Rightarrow> 'h option" where
  "mux_match mux path =
     (case map_of (mux_m mux) path of
        Some h \<Rightarrow> Some h
      | None \<Rightarrow> map_option snd (find (\<lambda>e. HasPrefix path (fst e)) (mux_es mux)))"

text \<open>\<open>cleanPath\<close>: rooted and clean, with the slash at the end kept.\<close>

definition cleanPath :: "string \<Rightarrow> string" where
  "cleanPath p =
     (if p = '''' then ''/''
      else let q = (if hd p = CHR ''/'' then p else ''/'' @ p); np = path_Clean q
           in if last q = CHR ''/'' \<and> np \<noteq> ''/'' then np @ ''/'' else np)"

definition shouldRedirect :: "'h ServeMux \<Rightarrow> string \<Rightarrow> string \<Rightarrow> bool" where
  "shouldRedirect mux host path =
     (let known = (\<lambda>p. map_of (mux_m mux) p \<noteq> None)
      in \<not> known path \<and> \<not> known (host @ path) \<and> path \<noteq> '''' \<and>
         (known (path @ ''/'') \<or> known (host @ path @ ''/'')) \<and> last path \<noteq> CHR ''/'')"

datatype 'h reply = Serve 'h | NotFound | RedirectTo string

text \<open>\<open>ServeMux.Handler\<close>, for a method other than \<open>CONNECT\<close> and a host without its port.\<close>

definition mux_Handler :: "'h ServeMux \<Rightarrow> string \<Rightarrow> string \<Rightarrow> 'h reply" where
  "mux_Handler mux host url =
     (let path = cleanPath url;
          by_host = (if mux_hosts mux then mux_match mux (host @ path) else None)
      in if shouldRedirect mux host path then RedirectTo (path @ ''/'')
         else if path \<noteq> url then RedirectTo path
         else case (case by_host of Some h \<Rightarrow> Some h | None \<Rightarrow> mux_match mux path) of
                Some h \<Rightarrow> Serve h
              | None \<Rightarrow> NotFound)"

section \<open>The server\<close>

datatype pprof = Index | Cmdline | Profile | Symbol | Trace

definition profiling_mux :: "pprof ServeMux res" where
  "profiling_mux =
     and_then (HandleFunc ''/debug/pprof/'' Index NewServeMux) (\<lambda>m.
     and_then (HandleFunc ''/debug/pprof/cmdline'' Cmdline m) (\<lambda>m.
     and_then (HandleFunc ''/debug/pprof/profile'' Profile m) (\<lambda>m.
     and_then (HandleFunc ''/debug/pprof/symbol'' Symbol m) (\<lambda>m.
     HandleFunc ''/debug/pprof/trace'' Trace m))))"

record http_server =
  srv_Addr :: string
  srv_Handler :: "pprof ServeMux"

definition serveProfiling :: "string \<Rightarrow> http_server res" where
  "serveProfiling addr = and_then profiling_mux (\<lambda>mux. Ok \<lparr>srv_Addr = addr, srv_Handler = mux\<rparr>)"

definition pprof_paths :: "(string \<times> pprof) list" where
  "pprof_paths =
     [(''/debug/pprof/'', Index), (''/debug/pprof/cmdline'', Cmdline), (''/debug/pprof/profile'', Profile),
      (''/debug/pprof/symbol'', Symbol), (''/debug/pprof/trace'', Trace)]"

lemma profiling_mux_value:
  "profiling_mux = Ok \<lparr>mux_m = pprof_paths, mux_es = [(''/debug/pprof/'', Index)], mux_hosts = False\<rparr>"
  by code_simp

lemma pprof_known: "map_of pprof_paths p \<noteq> None \<Longrightarrow> HasPrefix p ''/debug/pprof/''"
  by (auto simp: pprof_paths_def HasPrefix_def split: if_splits)

lemma pprof_tree: "map_of pprof_paths (p @ ''/'') \<noteq> None \<Longrightarrow> \<not> HasPrefix p ''/debug/pprof/''"
  by (auto simp: pprof_paths_def HasPrefix_def prefix_def append_eq_Cons_conv split: if_splits)

text \<open>
  The profiling server serves exactly the clean paths at and below \<open>/debug/pprof/\<close>: the four
  named ones by their handlers, all others by the index. Other paths are not found or
  redirected.
\<close>

theorem profiling_served:
  assumes "serveProfiling addr = Ok srv" "host = '''' \<or> hd host \<noteq> CHR ''/''"
  shows "srv_Addr srv = addr \<and>
    (mux_Handler (srv_Handler srv) host path = Serve h \<longleftrightarrow>
       cleanPath path = path \<and> HasPrefix path ''/debug/pprof/'' \<and>
       (case map_of pprof_paths path of Some g \<Rightarrow> h = g | None \<Rightarrow> h = Index))"
proof -
  let ?mux = "\<lparr>mux_m = pprof_paths, mux_es = [(''/debug/pprof/'', Index)], mux_hosts = False\<rparr> :: pprof ServeMux"
  have srv: "srv = \<lparr>srv_Addr = addr, srv_Handler = ?mux\<rparr>"
    using assms(1) by (simp add: serveProfiling_def profiling_mux_value and_then_def)
  have match: "mux_match ?mux p = Some h \<longleftrightarrow>
      HasPrefix p ''/debug/pprof/'' \<and> (case map_of pprof_paths p of Some g \<Rightarrow> h = g | None \<Rightarrow> h = Index)" for p h
    using pprof_known [of p] by (auto simp: mux_match_def split: option.splits)
  have "\<not> shouldRedirect ?mux host path" if "HasPrefix path ''/debug/pprof/''"
    using that assms(2) pprof_tree [of path] pprof_known [of "host @ path @ ''/''"]
    by (cases host) (auto simp: shouldRedirect_def Let_def HasPrefix_def)
  with match [of path h] srv show ?thesis
    by (auto simp: mux_Handler_def Let_def split: option.splits)
qed

end
