(* ===== verification/Deep_Copy.thy ===== *)
theory Deep_Copy
  imports Api_Types
begin

text \<open>
  The generated copies of \<open>pkg/apis/cloudshell/v1alpha1/zz_generated.deepcopy.go\<close> over an
  explicit heap. Everywhere else in the development an object is a value; here a struct is
  what Go has in memory: pointers, maps and slices are addresses (\<open>ptr\<close>, \<open>None\<close> for nil) of
  cells of the heap. \<open>read_cloudshell\<close> is the value that a struct denotes in a heap. Of
  \<open>ObjectMeta\<close>, \<open>OwnerReference\<close> and \<open>EnvVar\<close>, whose types are not the operator's, the fields are
  those of \<open>Api_Types\<close>; the elements of the slices are values without pointers.

  Shown: a deep copy denotes the same value, lives in new cells only and leaves the original
  alone, so that no later write through one of them is seen through the other. This is what
  allows the rest of the development to treat copied objects as values.
\<close>

section \<open>Memory\<close>

type_synonym ptr = "nat option"

record ingress_mem =
  mIngressName :: string
  mIngNamespace :: string
  mIngressClassName :: string
  mAnnotations :: ptr
  mHost :: string

datatype cell =
    SecretCell string
  | Int64Cell int
  | TimeCell int
  | MapCell "(string \<times> string) list"
  | EnvCell "env_var list"
  | StringsCell "string list"
  | RefsCell "owner_ref list"
  | VsCell VirtualServiceConfig
  | IngCell ingress_mem

record heap =
  brk :: nat
  cells :: "(nat \<times> cell) list"

record meta_mem =
  mName :: string
  mGenerateName :: string
  mNamespace :: string
  mUID :: string
  mResourceVersion :: nat
  mLabels :: ptr
  mMetaAnnotations :: ptr
  mFinalizers :: ptr
  mOwnerReferences :: ptr
  mDeletionTimestamp :: ptr
  mCreationTimestamp :: int

record spec_mem =
  mSecretRef :: ptr
  mImage :: string
  mOnce :: bool
  mCommandAction :: string
  mTTLSecondsAfterStarted :: ptr
  mCleanup :: bool
  mExposeMode :: string
  mIngressConfig :: ptr
  mVirtualServiceConfig :: ptr
  mPathPrefix :: string
  mPathSuffix :: string
  mUrlArg :: bool
  mEnv :: ptr
  mTtydClientOptions :: ptr

record status_mem =
  mPhase :: string
  mAccessURL :: string
  mLastScheduleTime :: ptr

record cloudshell_mem =
  mMeta :: meta_mem
  mSpec :: spec_mem
  mStatus :: status_mem

section \<open>Copying\<close>

definition alloc :: "cell \<Rightarrow> (heap, nat) state" where
  "alloc c = State (\<lambda>h. (brk h, h\<lparr>brk := Suc (brk h), cells := (brk h, c) # cells h\<rparr>))"

text \<open>
  \<open>if in.F != nil { *out = new(T); copy(*in, *out) }\<close>, where \<open>copy\<close> gives the contents of the
  new object. A pointer that is not nil is allocated, as always in Go.
\<close>

definition copy_new :: "(cell \<Rightarrow> (heap, cell) state) \<Rightarrow> ptr \<Rightarrow> (heap, ptr) state" where
  "copy_new copy p = do {
     h \<leftarrow> State_Monad.get;
     case Option.bind p (map_of (cells h)) of
       None \<Rightarrow> State_Monad.return None
     | Some c \<Rightarrow> do { c' \<leftarrow> copy c; a \<leftarrow> alloc c'; State_Monad.return (Some a) }
   }"

text \<open>\<open>**out = **in\<close>, also element by element for a slice.\<close>

definition assign :: "cell \<Rightarrow> (heap, cell) state" where
  "assign c = State_Monad.return c"

text \<open>\<open>for key, val := range *in { (*out)[key] = val }\<close> into an empty map.\<close>

definition copy_map :: "cell \<Rightarrow> (heap, cell) state" where
  "copy_map c =
     State_Monad.return (case c of
       MapCell m \<Rightarrow> MapCell (foldl (\<lambda>out (key, val). AList.update key val out) [] m)
     | _ \<Rightarrow> c)"

definition IngressConfig_DeepCopyInto :: "cell \<Rightarrow> (heap, cell) state" where
  "IngressConfig_DeepCopyInto c =
     (case c of
        IngCell i \<Rightarrow> do {
          ann \<leftarrow> copy_new copy_map (mAnnotations i);
          State_Monad.return (IngCell (i\<lparr>mAnnotations := ann\<rparr>))
        }
      | _ \<Rightarrow> State_Monad.return c)"

definition LocalSecretReference_DeepCopyInto :: "cell \<Rightarrow> (heap, cell) state" where
  "LocalSecretReference_DeepCopyInto c = assign c"

definition VirtualServiceConfig_DeepCopyInto :: "cell \<Rightarrow> (heap, cell) state" where
  "VirtualServiceConfig_DeepCopyInto c = assign c"

text \<open>\<open>ObjectMeta.DeepCopyInto\<close> of apimachinery, for the fields of the model.\<close>

definition ObjectMeta_DeepCopyInto :: "meta_mem \<Rightarrow> (heap, meta_mem) state" where
  "ObjectMeta_DeepCopyInto m = do {
     dt \<leftarrow> copy_new assign (mDeletionTimestamp m);
     labels \<leftarrow> copy_new copy_map (mLabels m);
     ann \<leftarrow> copy_new copy_map (mMetaAnnotations m);
     refs \<leftarrow> copy_new assign (mOwnerReferences m);
     fins \<leftarrow> copy_new assign (mFinalizers m);
     State_Monad.return (m\<lparr>mDeletionTimestamp := dt, mLabels := labels, mMetaAnnotations := ann,
       mOwnerReferences := refs, mFinalizers := fins\<rparr>)
   }"

definition CloudShellSpec_DeepCopyInto :: "spec_mem \<Rightarrow> (heap, spec_mem) state" where
  "CloudShellSpec_DeepCopyInto s = do {
     sr \<leftarrow> copy_new assign (mSecretRef s);
     ttl \<leftarrow> copy_new assign (mTTLSecondsAfterStarted s);
     ing \<leftarrow> copy_new IngressConfig_DeepCopyInto (mIngressConfig s);
     vs \<leftarrow> copy_new assign (mVirtualServiceConfig s);
     env \<leftarrow> copy_new assign (mEnv s);
     opts \<leftarrow> copy_new copy_map (mTtydClientOptions s);
     State_Monad.return (s\<lparr>mSecretRef := sr, mTTLSecondsAfterStarted := ttl, mIngressConfig := ing,
       mVirtualServiceConfig := vs, mEnv := env, mTtydClientOptions := opts\<rparr>)
   }"

definition CloudShellStatus_DeepCopyInto :: "status_mem \<Rightarrow> (heap, status_mem) state" where
  "CloudShellStatus_DeepCopyInto s = do {
     t \<leftarrow> copy_new assign (mLastScheduleTime s);
     State_Monad.return (s\<lparr>mLastScheduleTime := t\<rparr>)
   }"

definition CloudShell_DeepCopyInto :: "cloudshell_mem \<Rightarrow> (heap, cloudshell_mem) state" where
  "CloudShell_DeepCopyInto c = do {
     m \<leftarrow> ObjectMeta_DeepCopyInto (mMeta c);
     sp \<leftarrow> CloudShellSpec_DeepCopyInto (mSpec c);
     st \<leftarrow> CloudShellStatus_DeepCopyInto (mStatus c);
     State_Monad.return (c\<lparr>mMeta := m, mSpec := sp, mStatus := st\<rparr>)
   }"

text \<open>
  The \<open>DeepCopy\<close> of every type: a nil receiver is copied to nil, anything else into a new
  object. The objects that are cells of the heap get a new cell.
\<close>

definition CloudShell_DeepCopy :: "cloudshell_mem option \<Rightarrow> (heap, cloudshell_mem option) state" where
  "CloudShell_DeepCopy c =
     (case c of
        None \<Rightarrow> State_Monad.return None
      | Some c \<Rightarrow> do { out \<leftarrow> CloudShell_DeepCopyInto c; State_Monad.return (Some out) })"

definition CloudShellSpec_DeepCopy :: "spec_mem option \<Rightarrow> (heap, spec_mem option) state" where
  "CloudShellSpec_DeepCopy s =
     (case s of
        None \<Rightarrow> State_Monad.return None
      | Some s \<Rightarrow> do { out \<leftarrow> CloudShellSpec_DeepCopyInto s; State_Monad.return (Some out) })"

definition CloudShellStatus_DeepCopy :: "status_mem option \<Rightarrow> (heap, status_mem option) state" where
  "CloudShellStatus_DeepCopy s =
     (case s of
        None \<Rightarrow> State_Monad.return None
      | Some s \<Rightarrow> do { out \<leftarrow> CloudShellStatus_DeepCopyInto s; State_Monad.return (Some out) })"

definition IngressConfig_DeepCopy :: "ptr \<Rightarrow> (heap, ptr) state" where
  "IngressConfig_DeepCopy p = copy_new IngressConfig_DeepCopyInto p"

definition LocalSecretReference_DeepCopy :: "ptr \<Rightarrow> (heap, ptr) state" where
  "LocalSecretReference_DeepCopy p = copy_new LocalSecretReference_DeepCopyInto p"

definition VirtualServiceConfig_DeepCopy :: "ptr \<Rightarrow> (heap, ptr) state" where
  "VirtualServiceConfig_DeepCopy p = copy_new VirtualServiceConfig_DeepCopyInto p"

definition CloudShell_DeepCopyObject :: "cloudshell_mem option \<Rightarrow> (heap, cloudshell_mem option) state" where
  "CloudShell_DeepCopyObject c = do {
     out \<leftarrow> CloudShell_DeepCopy c;
     (if out \<noteq> None then State_Monad.return out else State_Monad.return None)
   }"

text \<open>The items of a list, \<open>None\<close> for the nil slice, one after the other.\<close>

fun copy_items :: "cloudshell_mem list \<Rightarrow> (heap, cloudshell_mem list) state" where
  "copy_items [] = State_Monad.return []"
| "copy_items (c # cs) = do {
     out \<leftarrow> CloudShell_DeepCopyInto c;
     outs \<leftarrow> copy_items cs;
     State_Monad.return (out # outs)
   }"

definition CloudShellList_DeepCopyInto :: "cloudshell_mem list option \<Rightarrow> (heap, cloudshell_mem list option) state" where
  "CloudShellList_DeepCopyInto items =
     (case items of
        None \<Rightarrow> State_Monad.return None
      | Some cs \<Rightarrow> do { outs \<leftarrow> copy_items cs; State_Monad.return (Some outs) })"

definition CloudShellList_DeepCopy ::
  "cloudshell_mem list option option \<Rightarrow> (heap, cloudshell_mem list option option) state" where
  "CloudShellList_DeepCopy l =
     (case l of
        None \<Rightarrow> State_Monad.return None
      | Some items \<Rightarrow> do { out \<leftarrow> CloudShellList_DeepCopyInto items; State_Monad.return (Some out) })"

definition CloudShellList_DeepCopyObject ::
  "cloudshell_mem list option option \<Rightarrow> (heap, cloudshell_mem list option option) state" where
  "CloudShellList_DeepCopyObject l = do {
     out \<leftarrow> CloudShellList_DeepCopy l;
     (if out \<noteq> None then State_Monad.return out else State_Monad.return None)
   }"

text \<open>
  The limits and the requests are maps from resource names to quantities, which stand as the
  strings they are written as: copying a quantity gives the same quantity.
\<close>

definition ResourceSetting_DeepCopyInto :: "ptr \<times> ptr \<Rightarrow> (heap, ptr \<times> ptr) state" where
  "ResourceSetting_DeepCopyInto r = do {
     limits \<leftarrow> copy_new copy_map (fst r);
     requests \<leftarrow> copy_new copy_map (snd r);
     State_Monad.return (limits, requests)
   }"

definition ResourceSetting_DeepCopy :: "(ptr \<times> ptr) option \<Rightarrow> (heap, (ptr \<times> ptr) option) state" where
  "ResourceSetting_DeepCopy r =
     (case r of
        None \<Rightarrow> State_Monad.return None
      | Some r \<Rightarrow> do { out \<leftarrow> ResourceSetting_DeepCopyInto r; State_Monad.return (Some out) })"

section \<open>The value of a struct\<close>

text \<open>What is found behind a pointer: the cell and, for an ingress configuration, its annotations.\<close>

definition look :: "heap \<Rightarrow> ptr \<Rightarrow> (cell \<times> cell option) option" where
  "look h p =
     (case Option.bind p (map_of (cells h)) of
        None \<Rightarrow> None
      | Some (IngCell i) \<Rightarrow>
          Some (IngCell (i\<lparr>mAnnotations := None\<rparr>), Option.bind (mAnnotations i) (map_of (cells h)))
      | Some c \<Rightarrow> Some (c, None))"

definition foot :: "heap \<Rightarrow> ptr \<Rightarrow> nat set" where
  "foot h p =
     set_option p \<union>
     (case Option.bind p (map_of (cells h)) of Some (IngCell i) \<Rightarrow> set_option (mAnnotations i) | _ \<Rightarrow> {})"

definition as_map :: "cell option \<Rightarrow> gomap" where
  "as_map c = (case c of Some (MapCell m) \<Rightarrow> Some m | _ \<Rightarrow> None)"

definition read_meta :: "heap \<Rightarrow> meta_mem \<Rightarrow> object_meta" where
  "read_meta h m =
     \<lparr>Name = mName m, GenerateName = mGenerateName m, Namespace = mNamespace m, UID = mUID m,
      ResourceVersion = mResourceVersion m,
      Labels = as_map (map_option fst (look h (mLabels m))),
      Annotations = as_map (map_option fst (look h (mMetaAnnotations m))),
      Finalizers = (case look h (mFinalizers m) of Some (StringsCell xs, _) \<Rightarrow> xs | _ \<Rightarrow> []),
      OwnerReferences = (case look h (mOwnerReferences m) of Some (RefsCell xs, _) \<Rightarrow> xs | _ \<Rightarrow> []),
      DeletionTimestamp = (case look h (mDeletionTimestamp m) of Some (TimeCell t, _) \<Rightarrow> Some t | _ \<Rightarrow> None),
      CreationTimestamp = mCreationTimestamp m\<rparr>"

definition read_spec :: "heap \<Rightarrow> spec_mem \<Rightarrow> CloudShellSpec" where
  "read_spec h s =
     \<lparr>SecretRef = (case look h (mSecretRef s) of Some (SecretCell n, _) \<Rightarrow> Some n | _ \<Rightarrow> None),
      Image = mImage s, Once = mOnce s, CommandAction = mCommandAction s,
      TTLSecondsAfterStarted = (case look h (mTTLSecondsAfterStarted s) of Some (Int64Cell t, _) \<Rightarrow> Some t | _ \<Rightarrow> None),
      Cleanup = mCleanup s, ExposeMode = mExposeMode s,
      IngConfig = (case look h (mIngressConfig s) of
         Some (IngCell i, ann) \<Rightarrow> Some \<lparr>IngressName = mIngressName i, IngNamespace = mIngNamespace i,
           IngressClassName = mIngressClassName i, IngAnnotations = as_map ann, Host = mHost i\<rparr>
       | _ \<Rightarrow> None),
      VsConfig = (case look h (mVirtualServiceConfig s) of Some (VsCell v, _) \<Rightarrow> Some v | _ \<Rightarrow> None),
      PathPrefix = mPathPrefix s, PathSuffix = mPathSuffix s, UrlArg = mUrlArg s,
      Env = (case look h (mEnv s) of Some (EnvCell es, _) \<Rightarrow> es | _ \<Rightarrow> []),
      TtydClientOptions = as_map (map_option fst (look h (mTtydClientOptions s)))\<rparr>"

definition read_status :: "heap \<Rightarrow> status_mem \<Rightarrow> CloudShellStatus" where
  "read_status h s =
     \<lparr>Phase = mPhase s, AccessURL = mAccessURL s,
      LastScheduleTime = (case look h (mLastScheduleTime s) of Some (TimeCell t, _) \<Rightarrow> Some t | _ \<Rightarrow> None)\<rparr>"

definition read_cloudshell :: "heap \<Rightarrow> cloudshell_mem \<Rightarrow> CloudShell" where
  "read_cloudshell h c =
     \<lparr>cmeta = read_meta h (mMeta c), Spec = read_spec h (mSpec c), Status = read_status h (mStatus c)\<rparr>"

text \<open>All pointers of a struct, in one list.\<close>

definition meta_ptrs :: "meta_mem \<Rightarrow> ptr list" where
  "meta_ptrs m = [mDeletionTimestamp m, mLabels m, mMetaAnnotations m, mOwnerReferences m, mFinalizers m]"

definition spec_ptrs :: "spec_mem \<Rightarrow> ptr list" where
  "spec_ptrs s = [mSecretRef s, mTTLSecondsAfterStarted s, mIngressConfig s, mVirtualServiceConfig s, mEnv s,
     mTtydClientOptions s]"

definition cloudshell_ptrs :: "cloudshell_mem \<Rightarrow> ptr list" where
  "cloudshell_ptrs c = meta_ptrs (mMeta c) @ spec_ptrs (mSpec c) @ [mLastScheduleTime (mStatus c)]"

definition footprint :: "heap \<Rightarrow> cloudshell_mem \<Rightarrow> nat set" where
  "footprint h c = (\<Union>p \<in> set (cloudshell_ptrs c). foot h p)"

section \<open>Copies are fresh\<close>

abbreviation at :: "heap \<Rightarrow> nat \<Rightarrow> cell option" where "at h \<equiv> map_of (cells h)"

definition is_ing :: "cell \<Rightarrow> bool" where
  "is_ing c = (case c of IngCell _ \<Rightarrow> True | _ \<Rightarrow> False)"

text \<open>A pointer to a cell that is, or is not, an ingress configuration.\<close>

definition ptr_ok :: "heap \<Rightarrow> bool \<Rightarrow> ptr \<Rightarrow> bool" where
  "ptr_ok h ing p =
     (case p of None \<Rightarrow> True | Some a \<Rightarrow> (case at h a of None \<Rightarrow> False | Some c \<Rightarrow> is_ing c = ing))"

text \<open>The Go type of what a cell holds, and pointers that are nil or point to a cell of that type.\<close>

datatype kind = Secret | Int64 | Time | Map | Envs | Strings | Refs | Vs | Ing

fun kind_of :: "cell \<Rightarrow> kind" where
  "kind_of (SecretCell _) = Secret"
| "kind_of (Int64Cell _) = Int64"
| "kind_of (TimeCell _) = Time"
| "kind_of (MapCell _) = Map"
| "kind_of (EnvCell _) = Envs"
| "kind_of (StringsCell _) = Strings"
| "kind_of (RefsCell _) = Refs"
| "kind_of (VsCell _) = Vs"
| "kind_of (IngCell _) = Ing"

definition ptr_kind :: "heap \<Rightarrow> kind \<Rightarrow> ptr \<Rightarrow> bool" where
  "ptr_kind h k p =
     (case p of None \<Rightarrow> True | Some a \<Rightarrow> (case at h a of None \<Rightarrow> False | Some c \<Rightarrow> kind_of c = k))"

definition cell_ok :: "heap \<Rightarrow> cell \<Rightarrow> bool" where
  "cell_ok h c =
     (case c of
        MapCell m \<Rightarrow> distinct (map fst m)
      | IngCell i \<Rightarrow> ptr_kind h Map (mAnnotations i)
      | _ \<Rightarrow> True)"

definition heap_ok :: "heap \<Rightarrow> bool" where
  "heap_ok h = list_all (\<lambda>(a, c). a < brk h \<and> cell_ok h c) (cells h)"

definition cloudshell_ok :: "heap \<Rightarrow> cloudshell_mem \<Rightarrow> bool" where
  "cloudshell_ok h c =
     (list_all (ptr_ok h False)
        (meta_ptrs (mMeta c) @
         [mSecretRef (mSpec c), mTTLSecondsAfterStarted (mSpec c), mVirtualServiceConfig (mSpec c), mEnv (mSpec c),
          mTtydClientOptions (mSpec c), mLastScheduleTime (mStatus c)]) \<and>
      ptr_ok h True (mIngressConfig (mSpec c)))"

text \<open>The types of the fields, in the order of \<open>cloudshell_ptrs\<close>.\<close>

definition cloudshell_typed :: "heap \<Rightarrow> cloudshell_mem \<Rightarrow> bool" where
  "cloudshell_typed h c =
     list_all2 (ptr_kind h)
       [Time, Map, Map, Refs, Strings, Secret, Int64, Ing, Vs, Envs, Map, Time] (cloudshell_ptrs c)"

definition heap_le :: "heap \<Rightarrow> heap \<Rightarrow> bool" where
  "heap_le h h' \<longleftrightarrow> at h \<subseteq>\<^sub>m at h'"

definition copied :: "heap \<Rightarrow> heap \<Rightarrow> ptr \<Rightarrow> ptr \<Rightarrow> bool" where
  "copied h0 h p p' \<longleftrightarrow>
     look h p' = look h0 p \<and> foot h p' \<inter> dom (at h0) = {} \<and> foot h p' \<subseteq> dom (at h)"

lemma heap_le_refl [simp]: "heap_le h h"
  by (simp add: heap_le_def)

lemma heap_le_trans: "heap_le h g \<Longrightarrow> heap_le g k \<Longrightarrow> heap_le h k"
  by (auto simp: heap_le_def intro: map_le_trans)

lemma heap_leD: "heap_le h h' \<Longrightarrow> at h a = Some c \<Longrightarrow> at h' a = Some c"
  by (auto simp: heap_le_def map_le_def dom_def)

lemma is_ing_kind: "is_ing c \<longleftrightarrow> kind_of c = Ing"
  by (cases c) (simp_all add: is_ing_def)

lemma ptr_kind_ok: "ptr_kind h k p \<Longrightarrow> ptr_ok h (k = Ing) p"
  by (auto simp: ptr_kind_def ptr_ok_def is_ing_kind split: option.splits)

lemma ptr_kind_map_ok: "ptr_kind h Map p \<Longrightarrow> ptr_ok h False p"
  using ptr_kind_ok [of h Map p] by simp

lemma cloudshell_typed_ok: "cloudshell_typed h c \<Longrightarrow> cloudshell_ok h c"
  by (auto simp: cloudshell_typed_def cloudshell_ok_def cloudshell_ptrs_def meta_ptrs_def spec_ptrs_def dest!: ptr_kind_ok)

text \<open>The value behind a pointer depends on its footprint only.\<close>

lemma look_cong:
  assumes "\<forall>a \<in> foot h p. at h' a = at h a"
  shows "look h' p = look h p \<and> foot h' p = foot h p"
proof (cases p)
  case None
  then show ?thesis by (simp add: look_def foot_def)
next
  case (Some a)
  then have a: "at h' a = at h a" using assms by (simp add: foot_def)
  show ?thesis
  proof (cases "at h a")
    case None
    with Some a show ?thesis by (simp add: look_def foot_def)
  next
    case c: (Some c)
    show ?thesis
    proof (cases c)
      case (IngCell i)
      have "\<forall>b \<in> set_option (mAnnotations i). at h' b = at h b"
        using assms Some c IngCell by (auto simp: foot_def)
      then have "Option.bind (mAnnotations i) (at h') = Option.bind (mAnnotations i) (at h)"
        by (cases "mAnnotations i") auto
      with Some a c IngCell show ?thesis by (simp add: look_def foot_def)
    qed (use Some a c in \<open>simp_all add: look_def foot_def\<close>)
  qed
qed

lemma at_Some_ok: "heap_ok h \<Longrightarrow> at h a = Some c \<Longrightarrow> a < brk h \<and> cell_ok h c"
  by (auto simp: heap_ok_def list_all_iff dest: map_of_SomeD)

lemma foot_ok:
  assumes "heap_ok h" "ptr_ok h ing p" shows "foot h p \<subseteq> dom (at h)"
proof (cases p)
  case (Some a)
  with assms(2) obtain c where c: "at h a = Some c" by (auto simp: ptr_ok_def split: option.splits)
  have "cell_ok h c" using at_Some_ok [OF assms(1) c] by simp
  then show ?thesis
    using Some c by (auto simp: foot_def cell_ok_def ptr_kind_def split: cell.splits option.splits)
qed (simp add: foot_def)

lemma look_le:
  assumes "heap_ok h" "ptr_ok h ing p" "heap_le h h'"
  shows "look h' p = look h p" "foot h' p = foot h p"
proof -
  have "\<forall>a \<in> foot h p. at h' a = at h a"
  proof
    fix a assume "a \<in> foot h p"
    then obtain c where "at h a = Some c" using foot_ok [OF assms(1,2)] by blast
    with heap_leD [OF assms(3)] show "at h' a = at h a" by simp
  qed
  from look_cong [OF this] show "look h' p = look h p" "foot h' p = foot h p" by simp_all
qed

lemma copied_le:
  assumes "copied h0 h p p'" "heap_le h h'" shows "copied h0 h' p p'"
proof -
  have "\<forall>a \<in> foot h p'. at h' a = at h a"
    using assms heap_leD [OF assms(2)] by (auto simp: copied_def dom_def subset_iff)
  moreover have "dom (at h) \<subseteq> dom (at h')"
    using assms(2) by (simp add: heap_le_def map_le_implies_dom_le)
  ultimately show ?thesis
    using look_cong [of h p' h'] assms(1) by (auto simp: copied_def)
qed

lemma ptr_ok_le: "heap_le h h' \<Longrightarrow> ptr_ok h ing p \<Longrightarrow> ptr_ok h' ing p"
  by (auto simp: ptr_ok_def dest: heap_leD split: option.splits)

lemma ptr_kind_le: "heap_le h h' \<Longrightarrow> ptr_kind h k p \<Longrightarrow> ptr_kind h' k p"
  by (auto simp: ptr_kind_def dest: heap_leD split: option.splits)

lemma cell_ok_le: "heap_le h h' \<Longrightarrow> cell_ok h c \<Longrightarrow> cell_ok h' c"
  by (cases c) (auto simp: cell_ok_def intro: ptr_kind_le)

lemma alloc_spec:
  assumes "heap_ok h" "cell_ok h c" "run_state (alloc c) h = (a, h')"
  shows "heap_ok h' \<and> heap_le h h' \<and> at h' a = Some c \<and> at h a = None"
proof -
  have h': "a = brk h" "h' = h\<lparr>brk := Suc (brk h), cells := (brk h, c) # cells h\<rparr>"
    using assms(3) by (auto simp: alloc_def)
  have new: "at h (brk h) = None"
    using at_Some_ok [OF assms(1), of "brk h"] by (cases "at h (brk h)") auto
  then have le: "heap_le h h'" by (auto simp: heap_le_def map_le_def h')
  have "list_all (\<lambda>(a, c). a < brk h' \<and> cell_ok h' c) (cells h)"
    using assms(1) cell_ok_le [OF le] by (auto simp: heap_ok_def list_all_iff h'(2))
  moreover have "cell_ok h' c" by (rule cell_ok_le [OF le assms(2)])
  ultimately have "heap_ok h'" by (simp add: heap_ok_def h'(2))
  with le new show ?thesis by (simp add: h')
qed

text \<open>The three ways of copying what is behind a pointer.\<close>

lemma run_copy_new:
  "run_state (copy_new copy p) h =
     (case Option.bind p (at h) of
        None \<Rightarrow> (None, h)
      | Some c \<Rightarrow> (case run_state (copy c) h of (c', h1) \<Rightarrow>
          (case run_state (alloc c') h1 of (a, h2) \<Rightarrow> (Some a, h2))))"
  by (simp add: copy_new_def run_simps split: option.splits prod.splits)

lemma look_flat: "at h a = Some c \<Longrightarrow> \<not> is_ing c \<Longrightarrow> look h (Some a) = Some (c, None) \<and> foot h (Some a) = {a}"
  by (cases c) (simp_all add: look_def foot_def is_ing_def)

lemma copied_nil: "look h p = None \<Longrightarrow> copied h h' p None"
  by (simp add: copied_def look_def foot_def)

lemma map_copy_id: "distinct (map fst m) \<Longrightarrow> foldl (\<lambda>out (key, val). AList.update key val out) [] m = m"
proof (induction m rule: rev_induct)
  case (snoc x m)
  obtain k v where x: "x = (k, v)" by (cases x)
  have "k \<notin> fst ` set m" using snoc.prems x by auto
  then have "AList.update k v m = m @ [(k, v)]" by (induction m) auto
  with snoc x show ?case by simp
qed simp

lemma copy_flat:
  assumes "heap_ok h" "ptr_ok h False p" "copy = assign \<or> copy = copy_map"
    "run_state (copy_new copy p) h = (p', h')"
  shows "heap_ok h' \<and> heap_le h h' \<and> copied h h' p p'"
proof (cases p)
  case None
  with assms(4) have "p' = None" "h' = h" by (simp_all add: run_copy_new)
  with None assms(1) show ?thesis by (simp add: copied_def look_def foot_def)
next
  case (Some a)
  with assms(2) obtain c where c: "at h a = Some c" "\<not> is_ing c"
    by (auto simp: ptr_ok_def split: option.splits)
  have ok: "cell_ok h c" using at_Some_ok [OF assms(1) c(1)] by simp
  then have "run_state (copy c) h = (c, h)"
    using assms(3) by (auto simp: assign_def copy_map_def cell_ok_def map_copy_id split: cell.splits)
  then obtain b where b: "run_state (alloc c) h = (b, h')" "p' = Some b"
    using assms(4) Some c by (auto simp: run_copy_new split: prod.splits)
  note new = alloc_spec [OF assms(1) ok b(1)]
  then have "look h' p' = look h p" "foot h' p' = {b}"
    using look_flat [of h' b c] look_flat [of h a c] c b(2) Some by simp_all
  with new show ?thesis by (auto simp: copied_def)
qed

lemma look_kind: "at h a = Some c \<Longrightarrow> \<exists>d e. look h (Some a) = Some (d, e) \<and> kind_of d = kind_of c"
  by (cases c) (simp_all add: look_def)

lemma copied_kind:
  assumes "copied h h' p p'" "ptr_kind h k p" shows "ptr_kind h' k p'"
proof (cases p')
  case (Some b)
  then obtain c where c: "at h' b = Some c" using assms(1) by (auto simp: copied_def foot_def)
  from look_kind [OF this] Some obtain d e where d: "look h p = Some (d, e)" "kind_of d = kind_of c"
    using assms(1) by (auto simp: copied_def)
  then obtain a where a: "p = Some a" by (cases p) (simp_all add: look_def)
  with assms(2) obtain c0 where c0: "at h a = Some c0" "kind_of c0 = k" by (auto simp: ptr_kind_def split: option.splits)
  from look_kind [OF c0(1)] d a c0(2) have "kind_of c = k" by simp
  with Some c show ?thesis by (simp add: ptr_kind_def)
qed (simp add: ptr_kind_def)

lemma bind_look: "ptr_ok h False p \<Longrightarrow> Option.bind p (at h) = map_option fst (look h p)"
  by (cases p) (auto simp: look_def ptr_ok_def is_ing_def split: option.splits cell.splits)

lemma copy_ingress:
  assumes "heap_ok h" "ptr_ok h True p" "run_state (copy_new IngressConfig_DeepCopyInto p) h = (p', h')"
  shows "heap_ok h' \<and> heap_le h h' \<and> copied h h' p p'"
proof (cases p)
  case None
  with assms(3) have "p' = None" "h' = h" by (simp_all add: run_copy_new)
  with None assms(1) show ?thesis by (simp add: copied_def look_def foot_def)
next
  case (Some a)
  with assms(2) obtain i where i: "at h a = Some (IngCell i)"
    by (auto simp: ptr_ok_def is_ing_def split: option.splits cell.splits)
  then have annk: "ptr_kind h Map (mAnnotations i)" using at_Some_ok [OF assms(1) i] by (simp add: cell_ok_def)
  note ann = ptr_kind_map_ok [OF annk]
  obtain q h1 where q: "run_state (copy_new copy_map (mAnnotations i)) h = (q, h1)" by (metis surj_pair)
  let ?i = "i\<lparr>mAnnotations := q\<rparr>"
  have q_ok: "heap_ok h1" "heap_le h h1" "copied h h1 (mAnnotations i) q"
    using copy_flat [OF assms(1) ann _ q] by auto
  have qk: "ptr_kind h1 Map q" by (rule copied_kind [OF q_ok(3) annk])
  note qp = ptr_kind_map_ok [OF qk]
  obtain b where b: "run_state (alloc (IngCell ?i)) h1 = (b, h')" "p' = Some b"
    using assms(3) Some i q by (auto simp: run_copy_new IngressConfig_DeepCopyInto_def split: prod.splits)
  have new: "heap_ok h'" "heap_le h1 h'" "at h' b = Some (IngCell ?i)" "at h1 b = None"
    using alloc_spec [OF q_ok(1) _ b(1)] qk by (simp_all add: cell_ok_def)
  note q' = copied_le [OF q_ok(3) new(2)]
  have "Option.bind q (at h') = Option.bind (mAnnotations i) (at h)"
    using bind_look [OF ann] bind_look [OF ptr_ok_le [OF new(2) qp]] q' by (simp add: copied_def)
  then have "look h' p' = look h p" using new(3) b(2) Some i by (simp add: look_def)
  moreover have "foot h' p' = insert b (set_option q)" using new(3) b(2) by (auto simp: foot_def)
  moreover have "set_option q \<subseteq> foot h' q" by (simp add: foot_def)
  moreover have "at h b = None" using q_ok(2) new(4) by (metis heap_leD option.distinct(1) option.exhaust)
  ultimately have "copied h h' p p'" using q' new(3) by (auto simp: copied_def)
  with new(1,2) q_ok(2) show ?thesis by (blast intro: heap_le_trans)
qed

text \<open>A step of a longer copy, seen from the heap \<open>h0\<close> in which it began.\<close>

lemma copy_step:
  assumes "heap_ok h0" "heap_le h0 h" "heap_ok h" "ptr_ok h0 ing p"
    "ing = False \<and> (copy = assign \<or> copy = copy_map) \<or> ing = True \<and> copy = IngressConfig_DeepCopyInto"
    "run_state (copy_new copy p) h = (p', h')"
  shows "heap_ok h'" "heap_le h0 h'" "heap_le h h'" "copied h0 h' p p'"
proof -
  have p: "ptr_ok h ing p" by (rule ptr_ok_le [OF assms(2,4)])
  have c: "heap_ok h' \<and> heap_le h h' \<and> copied h h' p p'"
    using assms(5) copy_flat [OF assms(3) _ _ assms(6)] copy_ingress [OF assms(3)] assms(6) p by auto
  have "look h p = look h0 p" by (rule look_le [OF assms(1,4,2)])
  moreover have "dom (at h0) \<subseteq> dom (at h)" using assms(2) by (simp add: heap_le_def map_le_implies_dom_le)
  ultimately show "copied h0 h' p p'" using c by (auto simp: copied_def)
  show "heap_ok h'" "heap_le h0 h'" "heap_le h h'" using c assms(2) heap_le_trans by blast+
qed

text \<open>
  The copies of structs copy their pointers one after the other; the second components say
  which cells are meant.
\<close>

fun copy_seq :: "((cell \<Rightarrow> (heap, cell) state) \<times> ptr) list \<Rightarrow> (heap, ptr list) state" where
  "copy_seq [] = State_Monad.return []"
| "copy_seq ((copy, p) # cps) = do {
     q \<leftarrow> copy_new copy p;
     qs \<leftarrow> copy_seq cps;
     State_Monad.return (q # qs)
   }"

definition copy_ok :: "heap \<Rightarrow> (cell \<Rightarrow> (heap, cell) state) \<times> ptr \<Rightarrow> bool" where
  "copy_ok h cp \<longleftrightarrow>
     ptr_ok h False (snd cp) \<and> (fst cp = assign \<or> fst cp = copy_map) \<or>
     ptr_ok h True (snd cp) \<and> fst cp = IngressConfig_DeepCopyInto"

lemma copy_seq_copied:
  assumes "heap_ok h0" "heap_le h0 h" "heap_ok h" "list_all (copy_ok h0) cps"
    and "run_state (copy_seq cps) h = (qs, h')"
  shows "heap_ok h' \<and> heap_le h0 h' \<and> heap_le h h' \<and> list_all2 (copied h0 h') (map snd cps) qs"
  using assms(2-5)
proof (induction cps arbitrary: h qs)
  case (Cons cp cps)
  obtain copy p where cp: "cp = (copy, p)" by (cases cp)
  obtain q h1 where q: "run_state (copy_new copy p) h = (q, h1)" by (metis surj_pair)
  obtain qs' where qs': "run_state (copy_seq cps) h1 = (qs', h')" "qs = q # qs'"
    using Cons.prems(4) cp q by (auto split: prod.splits)
  have "copy_ok h0 (copy, p)" using Cons.prems(3) cp by simp
  then obtain ing where ing: "ptr_ok h0 ing p"
    "ing = False \<and> (copy = assign \<or> copy = copy_map) \<or> ing = True \<and> copy = IngressConfig_DeepCopyInto"
    by (auto simp: copy_ok_def)
  note step = copy_step [OF assms(1) Cons.prems(1,2) ing q]
  have rest: "heap_ok h' \<and> heap_le h0 h' \<and> heap_le h1 h' \<and> list_all2 (copied h0 h') (map snd cps) qs'"
    by (rule Cons.IH [OF step(2,1) _ qs'(1)]) (use Cons.prems(3) in simp)
  then have "copied h0 h' p q" using copied_le [OF step(4)] by blast
  with rest step(3) cp qs'(2) show ?case by (auto intro: heap_le_trans)
qed simp

lemma ObjectMeta_copied:
  assumes "heap_ok h0" "heap_le h0 h" "heap_ok h" "list_all (ptr_ok h0 False) (meta_ptrs m)"
    and run: "run_state (ObjectMeta_DeepCopyInto m) h = (m', h')"
  shows "heap_ok h' \<and> heap_le h0 h' \<and> heap_le h h' \<and>
    list_all2 (copied h0 h') (meta_ptrs m) (meta_ptrs m') \<and> read_meta h' m' = read_meta h0 m"
proof -
  let ?cps = "[(assign, mDeletionTimestamp m), (copy_map, mLabels m), (copy_map, mMetaAnnotations m),
    (assign, mOwnerReferences m), (assign, mFinalizers m)]"
  obtain a b c d e where s: "run_state (copy_seq ?cps) h = ([a, b, c, d, e], h')"
    and m': "m' = m\<lparr>mDeletionTimestamp := a, mLabels := b, mMetaAnnotations := c, mOwnerReferences := d, mFinalizers := e\<rparr>"
    using run by (auto simp: ObjectMeta_DeepCopyInto_def split: prod.splits)
  have "list_all (copy_ok h0) ?cps" using assms(4) by (simp add: meta_ptrs_def copy_ok_def)
  from copy_seq_copied [OF assms(1-3) this s] show ?thesis
    by (simp add: m' meta_ptrs_def read_meta_def copied_def)
qed

lemma CloudShellSpec_copied:
  assumes "heap_ok h0" "heap_le h0 h" "heap_ok h" "ptr_ok h0 True (mIngressConfig s)"
    and "list_all (ptr_ok h0 False) [mSecretRef s, mTTLSecondsAfterStarted s, mVirtualServiceConfig s, mEnv s, mTtydClientOptions s]"
    and run: "run_state (CloudShellSpec_DeepCopyInto s) h = (s', h')"
  shows "heap_ok h' \<and> heap_le h0 h' \<and> heap_le h h' \<and>
    list_all2 (copied h0 h') (spec_ptrs s) (spec_ptrs s') \<and> read_spec h' s' = read_spec h0 s"
proof -
  let ?cps = "[(assign, mSecretRef s), (assign, mTTLSecondsAfterStarted s), (IngressConfig_DeepCopyInto, mIngressConfig s),
    (assign, mVirtualServiceConfig s), (assign, mEnv s), (copy_map, mTtydClientOptions s)]"
  obtain a b c d e f where r: "run_state (copy_seq ?cps) h = ([a, b, c, d, e, f], h')"
    and s': "s' = s\<lparr>mSecretRef := a, mTTLSecondsAfterStarted := b, mIngressConfig := c, mVirtualServiceConfig := d,
      mEnv := e, mTtydClientOptions := f\<rparr>"
    using run by (auto simp: CloudShellSpec_DeepCopyInto_def split: prod.splits)
  have "list_all (copy_ok h0) ?cps" using assms(4,5) by (simp add: copy_ok_def)
  from copy_seq_copied [OF assms(1-3) this r] show ?thesis
    by (simp add: s' spec_ptrs_def read_spec_def copied_def)
qed

lemma CloudShell_copied:
  assumes "heap_ok h0" "heap_le h0 h" "heap_ok h" "cloudshell_ok h0 c"
    and run: "run_state (CloudShell_DeepCopyInto c) h = (c', h')"
  shows "heap_ok h' \<and> heap_le h0 h' \<and> heap_le h h' \<and>
    list_all2 (copied h0 h') (cloudshell_ptrs c) (cloudshell_ptrs c') \<and> read_cloudshell h' c' = read_cloudshell h0 c"
proof -
  obtain m h1 where m: "run_state (ObjectMeta_DeepCopyInto (mMeta c)) h = (m, h1)" by (metis surj_pair)
  obtain s h2 where s: "run_state (CloudShellSpec_DeepCopyInto (mSpec c)) h1 = (s, h2)" by (metis surj_pair)
  obtain t where t: "run_state (copy_seq [(assign, mLastScheduleTime (mStatus c))]) h2 = ([t], h')"
    and c': "c' = c\<lparr>mMeta := m, mSpec := s, mStatus := (mStatus c)\<lparr>mLastScheduleTime := t\<rparr>\<rparr>"
    using run m s by (auto simp: CloudShell_DeepCopyInto_def CloudShellStatus_DeepCopyInto_def split: prod.splits)
  have ok: "list_all (ptr_ok h0 False) (meta_ptrs (mMeta c))" "ptr_ok h0 True (mIngressConfig (mSpec c))"
    "list_all (ptr_ok h0 False) [mSecretRef (mSpec c), mTTLSecondsAfterStarted (mSpec c), mVirtualServiceConfig (mSpec c),
       mEnv (mSpec c), mTtydClientOptions (mSpec c)]" "list_all (copy_ok h0) [(assign, mLastScheduleTime (mStatus c))]"
    using assms(4) by (simp_all add: cloudshell_ok_def copy_ok_def)
  have 1: "heap_ok h1 \<and> heap_le h0 h1 \<and> heap_le h h1 \<and> list_all2 (copied h0 h1) (meta_ptrs (mMeta c)) (meta_ptrs m)"
    and meta: "read_meta h1 m = read_meta h0 (mMeta c)"
    using ObjectMeta_copied [OF assms(1-3) ok(1) m] by auto
  have 2: "heap_ok h2 \<and> heap_le h0 h2 \<and> heap_le h1 h2 \<and> list_all2 (copied h0 h2) (spec_ptrs (mSpec c)) (spec_ptrs s)"
    and spec: "read_spec h2 s = read_spec h0 (mSpec c)"
    using CloudShellSpec_copied [OF assms(1) _ _ ok(2,3) s] 1 by auto
  have 3: "heap_ok h' \<and> heap_le h0 h' \<and> heap_le h2 h' \<and> copied h0 h' (mLastScheduleTime (mStatus c)) t"
    using copy_seq_copied [OF assms(1) _ _ ok(4) t] 2 by auto
  have metas: "list_all2 (copied h0 h') (meta_ptrs (mMeta c)) (meta_ptrs m)"
    using 1 2 3 by (auto intro: list_all2_mono copied_le heap_le_trans)
  have specs: "list_all2 (copied h0 h') (spec_ptrs (mSpec c)) (spec_ptrs s)"
    using 2 3 by (auto intro: list_all2_mono copied_le)
  have "list_all2 (copied h0 h') (cloudshell_ptrs c) (cloudshell_ptrs c')"
    using metas specs 3 by (simp add: cloudshell_ptrs_def c' list_all2_appendI)
  moreover have "read_meta h' m = read_meta h1 m"
    using 1 metas by (auto simp: read_meta_def meta_ptrs_def copied_def)
  moreover have "read_spec h' s = read_spec h2 s"
    using 2 specs by (auto simp: read_spec_def spec_ptrs_def copied_def)
  ultimately show ?thesis
    using 1 2 3 meta spec
    by (auto simp: c' read_cloudshell_def read_status_def copied_def intro: heap_le_trans)
qed

lemma read_cong:
  assumes "\<forall>p \<in> set (cloudshell_ptrs c). look h' p = look h p"
  shows "read_cloudshell h' c = read_cloudshell h c"
  using assms
  by (simp add: cloudshell_ptrs_def meta_ptrs_def spec_ptrs_def read_cloudshell_def read_meta_def read_spec_def read_status_def)

lemma copied_same:
  assumes "list_all2 (copied h0 h) ps qs" "list_all2 (copied h0 h') ps qs"
  shows "\<forall>q \<in> set qs. look h' q = look h q"
  using assms by (auto simp: list_all2_conv_all_nth in_set_conv_nth copied_def)

text \<open>The items of a list are copied the same way, however long it is.\<close>

lemma copy_items_copied:
  assumes "heap_ok h0" "heap_le h0 h" "heap_ok h" "list_all (cloudshell_ok h0) cs"
    and "run_state (copy_items cs) h = (cs', h')"
  shows "heap_ok h' \<and> heap_le h0 h' \<and> heap_le h h' \<and>
    list_all2 (\<lambda>c c'. list_all2 (copied h0 h') (cloudshell_ptrs c) (cloudshell_ptrs c') \<and>
      read_cloudshell h' c' = read_cloudshell h0 c) cs cs'"
  using assms(2-5)
proof (induction cs arbitrary: h cs')
  case (Cons c cs)
  obtain d h1 where d: "run_state (CloudShell_DeepCopyInto c) h = (d, h1)" by (metis surj_pair)
  obtain ds where ds: "run_state (copy_items cs) h1 = (ds, h')" "cs' = d # ds"
    using Cons.prems(4) d by (auto split: prod.splits)
  have c: "heap_ok h1" "heap_le h0 h1" "heap_le h h1"
    "list_all2 (copied h0 h1) (cloudshell_ptrs c) (cloudshell_ptrs d)" "read_cloudshell h1 d = read_cloudshell h0 c"
    using CloudShell_copied [OF assms(1) Cons.prems(1,2) _ d] Cons.prems(3) by simp_all
  note rest = Cons.IH [OF c(2,1) _ ds(1)]
  have le: "heap_le h1 h'" using rest Cons.prems(3) by simp
  have ptrs: "list_all2 (copied h0 h') (cloudshell_ptrs c) (cloudshell_ptrs d)"
    using c(4) by (rule list_all2_mono) (rule copied_le [OF _ le])
  have "read_cloudshell h' d = read_cloudshell h1 d"
    by (rule read_cong) (use copied_same [OF c(4) ptrs] in blast)
  with rest Cons.prems(3) c ptrs ds(2) show ?case by (auto intro: heap_le_trans)
qed simp

section \<open>The copy is equal and independent\<close>

text \<open>A write through a pointer, to a cell of whatever contents.\<close>

definition heap_write :: "nat \<Rightarrow> cell \<Rightarrow> heap \<Rightarrow> heap" where
  "heap_write a c h = h\<lparr>cells := AList.update a c (cells h)\<rparr>"

lemma at_heap_write: "at (heap_write a c h) b = (if b = a then Some c else at h b)"
  by (simp add: heap_write_def update_conv)

lemma read_write_outside:
  assumes "a \<notin> footprint h c" shows "read_cloudshell (heap_write a v h) c = read_cloudshell h c"
proof (rule read_cong, rule ballI)
  fix p assume "p \<in> set (cloudshell_ptrs c)"
  then have "\<forall>b \<in> foot h p. at (heap_write a v h) b = at h b"
    using assms by (auto simp: footprint_def at_heap_write)
  then show "look (heap_write a v h) p = look h p" using look_cong by blast
qed

lemma cloudshell_ok_ptrs: "cloudshell_ok h c \<Longrightarrow> p \<in> set (cloudshell_ptrs c) \<Longrightarrow> \<exists>ing. ptr_ok h ing p"
  by (auto simp: cloudshell_ok_def cloudshell_ptrs_def meta_ptrs_def spec_ptrs_def)

lemma copied_new:
  assumes "list_all2 (copied h h') (cloudshell_ptrs c) (cloudshell_ptrs c')"
  shows "footprint h' c' \<inter> dom (at h) = {}"
proof -
  have "foot h' q \<inter> dom (at h) = {}" if q: "q \<in> set (cloudshell_ptrs c')" for q
  proof -
    obtain i where "i < length (cloudshell_ptrs c')" "cloudshell_ptrs c' ! i = q"
      using q by (auto simp: in_set_conv_nth)
    then have "copied h h' (cloudshell_ptrs c ! i) q" using list_all2_nthD2 [OF assms] by blast
    then show ?thesis by (simp add: copied_def)
  qed
  then show ?thesis by (auto simp: footprint_def)
qed

lemma copied_typed:
  assumes "list_all2 (copied h h') (cloudshell_ptrs c) (cloudshell_ptrs c')" "cloudshell_typed h c"
  shows "cloudshell_typed h' c'"
  using assms copied_kind by (auto simp: cloudshell_typed_def list_all2_conv_all_nth)

text \<open>
  Property C23. The deep copy of a cloudshell is well typed in the heap it leaves, denotes the
  same value as the original, which is unchanged, and consists of new objects only: whatever
  is written later through a pointer, map or slice of the one cannot be seen through the
  other.
\<close>

theorem deep_copy_independent:
  assumes "heap_ok h" "cloudshell_typed h c" "run_state (CloudShell_DeepCopy (Some c)) h = (out, h')"
  shows "\<exists>c'. out = Some c' \<and> heap_ok h' \<and> cloudshell_typed h' c' \<and>
    read_cloudshell h' c' = read_cloudshell h c \<and> read_cloudshell h' c = read_cloudshell h c \<and>
    footprint h' c \<inter> footprint h' c' = {} \<and>
    (\<forall>a v. a \<in> footprint h' c \<longrightarrow> read_cloudshell (heap_write a v h') c' = read_cloudshell h' c') \<and>
    (\<forall>a v. a \<in> footprint h' c' \<longrightarrow> read_cloudshell (heap_write a v h') c = read_cloudshell h' c)"
proof -
  obtain c' where run: "run_state (CloudShell_DeepCopyInto c) h = (c', h')" "out = Some c'"
    using assms(3) by (auto simp: CloudShell_DeepCopy_def split: prod.splits)
  note ok = cloudshell_typed_ok [OF assms(2)]
  have cp: "heap_ok h'" "heap_le h h'" "list_all2 (copied h h') (cloudshell_ptrs c) (cloudshell_ptrs c')"
    "read_cloudshell h' c' = read_cloudshell h c"
    using CloudShell_copied [OF assms(1) heap_le_refl assms(1) ok run(1)] by simp_all
  have old: "look h' p = look h p \<and> foot h' p = foot h p \<and> foot h p \<subseteq> dom (at h)" if "p \<in> set (cloudshell_ptrs c)" for p
    using cloudshell_ok_ptrs [OF ok that] look_le [OF assms(1) _ cp(2)] foot_ok [OF assms(1)] by blast
  have new: "footprint h' c' \<inter> dom (at h) = {}" by (rule copied_new [OF cp(3)])
  have disj: "footprint h' c \<inter> footprint h' c' = {}"
  proof -
    have "footprint h' c \<subseteq> dom (at h)" using old by (auto simp: footprint_def)
    with new show ?thesis by blast
  qed
  have "read_cloudshell (heap_write a v h') c' = read_cloudshell h' c'" if "a \<in> footprint h' c" for a v
    using disj that by (intro read_write_outside) blast
  moreover have "read_cloudshell (heap_write a v h') c = read_cloudshell h' c" if "a \<in> footprint h' c'" for a v
    using disj that by (intro read_write_outside) blast
  moreover have "read_cloudshell h' c = read_cloudshell h c" using old by (intro read_cong) blast
  ultimately show ?thesis
    using run(2) cp disj copied_typed [OF cp(3) assms(2)] by blast
qed

text \<open>The same for a list: the copies denote the items and share no cell with what was there.\<close>

theorem deep_copy_list:
  assumes "heap_ok h" "list_all (cloudshell_typed h) cs"
    and "run_state (CloudShellList_DeepCopyInto (Some cs)) h = (out, h')"
  shows "\<exists>cs'. out = Some cs' \<and> heap_ok h' \<and> map (read_cloudshell h') cs' = map (read_cloudshell h) cs \<and>
    (\<forall>c' \<in> set cs'. cloudshell_typed h' c' \<and> footprint h' c' \<inter> dom (at h) = {})"
proof -
  obtain cs' where run: "run_state (copy_items cs) h = (cs', h')" "out = Some cs'"
    using assms(3) by (auto simp: CloudShellList_DeepCopyInto_def split: prod.splits)
  have "list_all (cloudshell_ok h) cs" using assms(2) cloudshell_typed_ok by (auto simp: list_all_iff)
  note items = copy_items_copied [OF assms(1) heap_le_refl assms(1) this run(1)]
  have ok: "heap_ok h'" and cp: "list_all2 (\<lambda>c c'. list_all2 (copied h h') (cloudshell_ptrs c) (cloudshell_ptrs c') \<and>
      read_cloudshell h' c' = read_cloudshell h c) cs cs'"
    using items by blast+
  have "map (read_cloudshell h') cs' = map (read_cloudshell h) cs"
    using cp by (simp add: list_eq_iff_nth_eq list_all2_conv_all_nth)
  moreover have "cloudshell_typed h' c' \<and> footprint h' c' \<inter> dom (at h) = {}" if c': "c' \<in> set cs'" for c'
  proof -
    obtain i where i: "i < length cs'" "cs' ! i = c'" using c' by (auto simp: in_set_conv_nth)
    then have "list_all2 (copied h h') (cloudshell_ptrs (cs ! i)) (cloudshell_ptrs c')" "i < length cs"
      using list_all2_nthD2 [OF cp] list_all2_lengthD [OF cp] by auto
    moreover from this have "cloudshell_typed h (cs ! i)" using assms(2) by (simp add: list_all_length)
    ultimately show ?thesis using copied_new copied_typed by blast
  qed
  ultimately show ?thesis using run(2) ok by blast
qed

definition sample_heap :: heap where
  "sample_heap = \<lparr>brk = 3, cells = [(0, MapCell [(''a'', ''b'')]),
     (1, IngCell \<lparr>mIngressName = ''i'', mIngNamespace = '''', mIngressClassName = '''', mAnnotations = Some 0, mHost = ''''\<rparr>),
     (2, TimeCell 5)]\<rparr>"

definition sample_mem :: cloudshell_mem where
  "sample_mem =
     \<lparr>mMeta = \<lparr>mName = ''a'', mGenerateName = '''', mNamespace = ''ns'', mUID = '''', mResourceVersion = 1, mLabels = None,
        mMetaAnnotations = None, mFinalizers = None, mOwnerReferences = None, mDeletionTimestamp = None, mCreationTimestamp = 0\<rparr>,
      mSpec = \<lparr>mSecretRef = None, mImage = '''', mOnce = False, mCommandAction = '''', mTTLSecondsAfterStarted = None,
        mCleanup = False, mExposeMode = '''', mIngressConfig = Some 1, mVirtualServiceConfig = None, mPathPrefix = '''',
        mPathSuffix = '''', mUrlArg = False, mEnv = None, mTtydClientOptions = None\<rparr>,
      mStatus = \<lparr>mPhase = '''', mAccessURL = '''', mLastScheduleTime = Some 2\<rparr>\<rparr>"

theorem deep_copy_independent_witness:
  "\<exists>c' h'. run_state (CloudShell_DeepCopy (Some sample_mem)) sample_heap = (Some c', h') \<and>
     read_cloudshell (heap_write 0 (MapCell []) h') c' = read_cloudshell sample_heap sample_mem"
proof -
  obtain out h' where run: "run_state (CloudShell_DeepCopy (Some sample_mem)) sample_heap = (out, h')" by (metis surj_pair)
  have ok: "heap_ok sample_heap" "cloudshell_typed sample_heap sample_mem" by code_simp+
  obtain c' where c': "out = Some c'" "read_cloudshell h' c' = read_cloudshell sample_heap sample_mem"
    "\<And>a v. a \<in> footprint h' sample_mem \<Longrightarrow> read_cloudshell (heap_write a v h') c' = read_cloudshell h' c'"
    using deep_copy_independent [OF ok run] by auto
  have "at (snd (run_state (CloudShell_DeepCopy (Some sample_mem)) sample_heap)) 1 =
      Some (IngCell \<lparr>mIngressName = ''i'', mIngNamespace = '''', mIngressClassName = '''', mAnnotations = Some 0, mHost = ''''\<rparr>)"
    by code_simp
  then have "0 \<in> footprint h' sample_mem"
    using run by (simp add: footprint_def cloudshell_ptrs_def spec_ptrs_def sample_mem_def foot_def)
  with c' run show ?thesis by auto
qed

end
