(* ===== verification/Call_Trace.thy ===== *)
theory Call_Trace
  imports Controller Pool_Invariant
begin

text \<open>
  Properties of the sequence of API calls that a program makes. \<open>call_inv C Inv s\<close> says that
  the calls made after the first ones, \<open>C\<close>, satisfy \<open>Inv\<close>; a program keeps it if each call it
  may make is allowed by \<open>Inv\<close>. The functions of the pool and of the controller are
  classified by the calls they may make.
\<close>

definition call_inv :: "(call \<times> bool) list \<Rightarrow> ((call \<times> bool) list \<Rightarrow> bool) \<Rightarrow> 'w sys \<Rightarrow> bool" where
  "call_inv C Inv s \<longleftrightarrow> (\<exists>D. calls s = C @ D \<and> Inv D)"

definition allowed :: "((call \<times> bool) list \<Rightarrow> bool) \<Rightarrow> call \<Rightarrow> bool" where
  "allowed Inv c \<longleftrightarrow> (\<forall>D ok. Inv D \<longrightarrow> Inv (D @ [(c, ok)]))"

lemma call_inv_cong: "calls s = calls t \<Longrightarrow> call_inv C Inv s = call_inv C Inv t"
  by (simp add: call_inv_def)

lemma keeps_same_calls:
  "(\<And>s. calls (snd (run_state m s)) = calls s) \<Longrightarrow> keeps (call_inv C Inv) m"
  by (rule keepsI) (metis call_inv_cong snd_conv)

lemma trace_frame [keeps_rules]:
  "keeps (call_inv C Inv) (client_read f)" "keeps (call_inv C Inv) (time_Now K)"
  "keeps (call_inv C Inv) (rand_String K n)" "keeps (call_inv C Inv) (upd_pool g)"
  "keeps (call_inv C Inv) (upd_ctrl h)" "keeps (call_inv C Inv) (write_cs ck c)"
  "keeps (call_inv C Inv) (write_cached_pod k p)"
  by (rule keeps_same_calls,
      simp add: run_simps write_cs_def write_cached_pod_def split: prod.split)+

lemma trace_write: "allowed Inv c \<Longrightarrow> keeps (call_inv C Inv) (client_write c f)"
  by (rule keepsI) (auto simp: call_inv_def allowed_def run_simps split: prod.splits)

lemma trace_queues [keeps_rules]:
  "keeps (call_inv C Inv) (worker_queue_Add key)" "keeps (call_inv C Inv) (worker_queue_Remove key)"
  "keeps (call_inv C Inv) (request_queue_Add req)" "keeps (call_inv C Inv) (request_queue_Remove K req)"
  "keeps (call_inv C Inv) send_match_signal" "keeps (call_inv C Inv) (upd_cqueue g)"
  by (simp_all add: pool_queue_defs upd_cqueue_def trace_frame)

section \<open>The bound worker\<close>

text \<open>The pod that the label of a cloudshell names.\<close>

definition bound_worker :: "CloudShell \<Rightarrow> nsname" where
  "bound_worker cs = (Namespace (cmeta cs), gm_get (Labels (cmeta cs)) CloudshellPodLabelKey)"

lemma cached_cs_write [simp]:
  "cached_cs ck (set_cached_cs k c s) = (if ck = k then c else cached_cs ck s)"
  by (simp add: cached_cs_def)

lemma bound_worker_status [simp]: "bound_worker (c\<lparr>Status := st\<rparr>) = bound_worker c"
  by (simp add: bound_worker_def)

lemma run_GetBindingWorkerFor:
  assumes "map_of (csIndexer s) ck = Some c"
  shows "run_state (GetBindingWorkerFor ck) s =
     (Ok (if snd (bound_worker c) \<noteq> [] \<and> map_of (podIndexer s) (bound_worker c) \<noteq> None
          then Some (bound_worker c) else None), s)"
  using assms
  by (auto simp: GetBindingWorkerFor_def cached_cs_def bound_worker_def Let_def run_simps split: option.splits)

section \<open>The calls of each function\<close>

fun pod_call :: "call \<Rightarrow> bool" where
  "pod_call (CreatePod _) = True"
| "pod_call (UpdatePod _) = True"
| "pod_call (DeletePod _) = True"
| "pod_call _ = False"

fun route_call :: "call \<Rightarrow> bool" where
  "route_call (CreateService _) = True"
| "route_call (UpdateService _) = True"
| "route_call (CreateIngress _) = True"
| "route_call (UpdateIngress _) = True"
| "route_call (DeleteIngress _) = True"
| "route_call (CreateVirtualService _) = True"
| "route_call (UpdateVirtualService _) = True"
| "route_call (DeleteVirtualService _) = True"
| "route_call _ = False"

text \<open>\<open>Back\<close> updates or deletes pods, and never creates one.\<close>

lemma trace_Back:
  assumes "\<And>p. allowed Inv (UpdatePod p)" "\<And>k. allowed Inv (DeletePod k)"
  shows "keeps (call_inv C Inv) (Back K p)"
  unfolding Back_def back_try_def deleteWorker_def Let_def
  by (intro keeps_rules trace_write assms keeps_matchRequestFor)

lemma trace_Back_pods:
  "(\<And>c. pod_call c \<Longrightarrow> allowed Inv c) \<Longrightarrow> keeps (call_inv C Inv) (Back K p)"
  by (rule trace_Back) simp_all

lemma trace_Borrow [keeps_rules]:
  assumes "\<And>c. pod_call c \<Longrightarrow> allowed Inv c"
  shows "keeps (call_inv C Inv) (Borrow K req)"
  unfolding Borrow_def borrow_try_def Let_def
  by (intro keeps_rules trace_write assms) simp_all

lemma trace_update_cs:
  "(\<And>c. allowed Inv (UpdateCloudShell c)) \<Longrightarrow> keeps (call_inv C Inv) (update_cs K ck)"
  unfolding update_cs_def by (intro keeps_rules trace_write)

lemma trace_routes [keeps_rules]:
  assumes "\<And>c. route_call c \<Longrightarrow> allowed Inv c"
  shows "keeps (call_inv C Inv) (CreateOrUpdateService K svc)"
    and "keeps (call_inv C Inv) (CreateCloudShellService K ck p)"
    and "keeps (call_inv C Inv) (CreateIngressForCloudshell K service ck)"
    and "keeps (call_inv C Inv) (CreateVirtualServiceForCloudshell K service ck)"
proof -
  show svc: "keeps (call_inv C Inv) (CreateOrUpdateService K svc)" for svc
    unfolding CreateOrUpdateService_def Let_def by (intro keeps_rules trace_write assms) simp_all
  show "keeps (call_inv C Inv) (CreateCloudShellService K ck p)"
    unfolding CreateCloudShellService_def Let_def by (intro keeps_rules svc)
  show "keeps (call_inv C Inv) (CreateIngressForCloudshell K service ck)"
    unfolding CreateIngressForCloudshell_def Let_def by (intro keeps_rules trace_write assms) simp_all
  show "keeps (call_inv C Inv) (CreateVirtualServiceForCloudshell K service ck)"
    unfolding CreateVirtualServiceForCloudshell_def Let_def
    by (intro keeps_rules trace_write assms) simp_all
qed

text \<open>Removing a route updates or deletes the shared object.\<close>

fun unroute_call :: "call \<Rightarrow> bool" where
  "unroute_call (UpdateIngress _) = True"
| "unroute_call (DeleteIngress _) = True"
| "unroute_call (UpdateVirtualService _) = True"
| "unroute_call (DeleteVirtualService _) = True"
| "unroute_call _ = False"

lemma unroute_route: "unroute_call c \<Longrightarrow> route_call c"
  by (cases c) simp_all

lemma trace_unroute:
  assumes "\<And>c. unroute_call c \<Longrightarrow> allowed Inv c"
  shows "keeps (call_inv C Inv) (removeCloudshellRoute K ck)"
  unfolding removeCloudshellRoute_def Let_def by (intro keeps_rules trace_write assms) simp_all

lemma trace_CreateRouteRule [keeps_rules]:
  assumes "\<And>c. route_call c \<Longrightarrow> allowed Inv c"
  shows "keeps (call_inv C Inv) (CreateRouteRule K ck p)"
  unfolding CreateRouteRule_def GetMasterNodeIP_def Let_def
  by (intro keeps_rules assms)

lemma trace_lookup [keeps_rules]:
  "keeps I (GetBindingWorkerFor ck)"
  "keeps (call_inv C Inv) (unbind_worker ck)" "keeps (call_inv C Inv) (nextRequeueTimeDuration K ck)"
  unfolding GetBindingWorkerFor_def unbind_worker_def nextRequeueTimeDuration_def Let_def
  by (intro keeps_rules)+

lemma trace_exec:
  "(\<And>tgt. allowed Inv (ExecPod tgt cmd)) \<Longrightarrow> keeps (call_inv C Inv) (execCommand K ck cmd)"
  unfolding execCommand_def Let_def by (intro keeps_rules trace_write)

lemma trace_startup:
  assumes "\<And>tgt cmd. allowed Inv (ExecPod tgt cmd)" "\<And>s. allowed Inv (CreateSecret s)"
    "\<And>c. allowed Inv (UpdateCloudShell c)"
  shows "keeps (call_inv C Inv) (StartupWorkerFor K ck)"
proof -
  have w: "keeps (call_inv C Inv) (StartupWorker K ck cfg)" for cfg
    unfolding StartupWorker_def by (intro keeps_rules trace_exec assms)
  show ?thesis
    unfolding StartupWorkerFor_def Let_def
    by (intro keeps_rules trace_write trace_update_cs w assms)
qed

lemma trace_status:
  assumes "\<And>c. Phase (Status c) = phase \<Longrightarrow> allowed Inv (UpdateCloudShellStatus c)"
  shows "keeps (call_inv C Inv) (UpdateCloudshellStatus K ck phase)"
proof -
  have "keeps (call_inv C Inv) (status_send K ck st)" if "Phase st = phase" for st
    unfolding status_send_def Let_def using that by (intro keeps_rules trace_write assms) simp
  then show ?thesis
    unfolding UpdateCloudshellStatus_def status_resend_def Let_def by (intro keeps_rules) simp_all
qed

end
