(* ===== verification/Mem_Cluster.thy ===== *)
theory Mem_Cluster
  imports Kube
begin

text \<open>
  An in-memory cluster: a concrete value \<open>mem_kube\<close> of the parameter \<open>'w kube\<close>, on which the
  definitions can be run. It follows the documented behaviour of the API server as far as
  the code depends on it: optimistic concurrency by resource version, the status
  subresource, finalizers that delay a deletion. \<open>mem_faults\<close> makes the next writes fail.
  The decoders read the quoted values of a rendered manifest. The interface locales of
  \<open>Kube\<close> are interpreted here.
\<close>

record mem =
  mem_pods :: "(nsname \<times> pod) list"
  mem_css :: "(nsname \<times> CloudShell) list"
  mem_svcs :: "(nsname \<times> service) list"
  mem_ings :: "(nsname \<times> ingress) list"
  mem_vss :: "(nsname \<times> virtual_service) list"
  mem_secrets :: "(nsname \<times> secret) list"
  mem_nodes :: "node list"
  mem_cms :: "gomap list"
  mem_now :: int
  mem_rand :: nat
  mem_faults :: "err option list"

definition mem_empty :: mem where
  "mem_empty = \<lparr>mem_pods = [], mem_css = [], mem_svcs = [], mem_ings = [], mem_vss = [],
                mem_secrets = [], mem_nodes = [], mem_cms = [], mem_now = 0, mem_rand = 0,
                mem_faults = []\<rparr>"

section \<open>Object stores\<close>

definition bump :: "nat \<Rightarrow> object_meta \<Rightarrow> object_meta" where
  "bump rv m = m\<lparr>ResourceVersion := Suc rv\<rparr>"

definition st_get :: "nsname \<Rightarrow> (nsname \<times> 'o) list \<Rightarrow> 'o res" where
  "st_get k st = (case map_of st k of None \<Rightarrow> Err NotFound | Some x \<Rightarrow> Ok x)"

definition st_create ::
  "('o \<Rightarrow> object_meta) \<Rightarrow> ((object_meta \<Rightarrow> object_meta) \<Rightarrow> 'o \<Rightarrow> 'o) \<Rightarrow> 'o \<Rightarrow> (nsname \<times> 'o) list \<Rightarrow>
   'o res \<times> (nsname \<times> 'o) list" where
  "st_create meta upd x st =
     (case map_of st (nsname_of (meta x)) of
        Some _ \<Rightarrow> (Err AlreadyExists, st)
      | None \<Rightarrow> (let x' = upd (bump 0) x in (Ok x', st @ [(nsname_of (meta x), x')])))"

text \<open>A stale resource version is a conflict; a released object that is being deleted goes.\<close>

definition st_update ::
  "('o \<Rightarrow> object_meta) \<Rightarrow> ((object_meta \<Rightarrow> object_meta) \<Rightarrow> 'o \<Rightarrow> 'o) \<Rightarrow> 'o \<Rightarrow> (nsname \<times> 'o) list \<Rightarrow>
   'o res \<times> (nsname \<times> 'o) list" where
  "st_update meta upd x st =
     (case map_of st (nsname_of (meta x)) of
        None \<Rightarrow> (Err NotFound, st)
      | Some old \<Rightarrow>
          if ResourceVersion (meta x) \<noteq> ResourceVersion (meta old) then (Err Conflict, st)
          else let x' = upd (bump (ResourceVersion (meta old))) x
               in if DeletionTimestamp (meta x) \<noteq> None \<and> Finalizers (meta x) = []
                  then (Ok x', AList.delete (nsname_of (meta x)) st)
                  else (Ok x', AList.update (nsname_of (meta x)) x' st))"

definition st_delete ::
  "('o \<Rightarrow> object_meta) \<Rightarrow> ((object_meta \<Rightarrow> object_meta) \<Rightarrow> 'o \<Rightarrow> 'o) \<Rightarrow> int \<Rightarrow> nsname \<Rightarrow>
   (nsname \<times> 'o) list \<Rightarrow> unit res \<times> (nsname \<times> 'o) list" where
  "st_delete meta upd now k st =
     (case map_of st k of
        None \<Rightarrow> (Err NotFound, st)
      | Some old \<Rightarrow>
          if Finalizers (meta old) = [] then (Ok (), AList.delete k st)
          else (Ok (), AList.update k
                  (upd (\<lambda>m. bump (ResourceVersion m) (m\<lparr>DeletionTimestamp := Some now\<rparr>)) old) st))"

text \<open>A write first consumes a planned fault.\<close>

definition with_fault :: "(mem \<Rightarrow> 'a res \<times> mem) \<Rightarrow> mem \<Rightarrow> 'a res \<times> mem" where
  "with_fault f w =
     (case mem_faults w of
        [] \<Rightarrow> f w
      | None # fs \<Rightarrow> f (w\<lparr>mem_faults := fs\<rparr>)
      | Some e # fs \<Rightarrow> (Err e, w\<lparr>mem_faults := fs\<rparr>))"

section \<open>Reading a rendered manifest\<close>

definition quoted :: "string \<Rightarrow> string list" where
  "quoted text = (let parts = Split text [CHR 0x22] in map (\<lambda>i. parts ! (2 * i + 1)) [0..<length parts div 2])"

definition mem_decodePod :: "string \<Rightarrow> pod res" where
  "mem_decodePod text =
     (case quoted text of
        ns # name # img # _ \<Rightarrow>
          Ok \<lparr>pmeta = blank_meta ns name, Containers = [\<lparr>CName = ''web-tty'', CImage = img\<rparr>],
              Conditions = []\<rparr>
      | _ \<Rightarrow> Err (Failure ''cannot decode''))"

definition mem_decodeService :: "string \<Rightarrow> service res" where
  "mem_decodeService text =
     (case quoted text of
        name # ns # worker # _ \<Rightarrow>
          Ok \<lparr>smeta = blank_meta ns name, Ports = [\<lparr>Port = 7681, NodePort = 0\<rparr>],
              Selector = Some [(WorkerNameLabelKey, worker)],
              ServiceType = (if Contains text ''type: NodePort'' then ''NodePort'' else ''ClusterIP'')\<rparr>
      | _ \<Rightarrow> Err (Failure ''cannot decode''))"

definition mem_decodeIngress :: "string \<Rightarrow> ingress res" where
  "mem_decodeIngress text =
     (case quoted text of
        [name, ns, cls, path, svc] \<Rightarrow>
          Ok \<lparr>imeta = blank_meta ns name, IngressClass = cls,
              Rules = [\<lparr>RuleHost = '''', HTTPPaths = Some
                [\<lparr>Path = path, PathType = ''Prefix'', BackendService = svc, BackendPort = 7681\<rparr>]\<rparr>]\<rparr>
      | [name, ns, cls, path, svc, host] \<Rightarrow>
          Ok \<lparr>imeta = blank_meta ns name, IngressClass = cls,
              Rules = [\<lparr>RuleHost = host, HTTPPaths = Some
                [\<lparr>Path = path, PathType = ''Prefix'', BackendService = svc, BackendPort = 7681\<rparr>]\<rparr>]\<rparr>
      | _ \<Rightarrow> Err (Failure ''cannot decode''))"

definition mem_decodeVirtualService :: "string \<Rightarrow> virtual_service res" where
  "mem_decodeVirtualService text =
     (case quoted text of
        [name, ns, exp, gw, path, hst] \<Rightarrow>
          Ok \<lparr>vmeta = blank_meta ns name, ExportToList = [exp], Gateways = [gw],
              Http = [\<lparr>Match = [Some (MatchPrefix path)], RouteHosts = [hst]\<rparr>]\<rparr>
      | _ \<Rightarrow> Err (Failure ''cannot decode''))"

text \<open>Insertion sort for \<open>sort.Slice\<close>.\<close>

fun insert_by :: "('a \<Rightarrow> 'a \<Rightarrow> bool) \<Rightarrow> 'a \<Rightarrow> 'a list \<Rightarrow> 'a list" where
  "insert_by lt x [] = [x]"
| "insert_by lt x (y # ys) = (if lt y x then y # insert_by lt x ys else x # y # ys)"

definition sort_by :: "('a \<Rightarrow> 'a \<Rightarrow> bool) \<Rightarrow> 'a list \<Rightarrow> 'a list" where
  "sort_by lt xs = foldr (insert_by lt) xs []"

section \<open>The cluster\<close>

definition mem_kube :: "mem kube" where
  "mem_kube = \<lparr>
     getPod = (\<lambda>k w. (st_get k (mem_pods w), w)),
     createPod = (\<lambda>p. with_fault (\<lambda>w. case st_create pmeta pmeta_update p (mem_pods w) of
        (r, st) \<Rightarrow> (r, w\<lparr>mem_pods := st\<rparr>))),
     updatePod = (\<lambda>p. with_fault (\<lambda>w. case st_update pmeta pmeta_update p (mem_pods w) of
        (r, st) \<Rightarrow> (r, w\<lparr>mem_pods := st\<rparr>))),
     deletePod = (\<lambda>k. with_fault (\<lambda>w. case st_delete pmeta pmeta_update (mem_now w) k (mem_pods w) of
        (r, st) \<Rightarrow> (r, w\<lparr>mem_pods := st\<rparr>))),
     getCloudShell = (\<lambda>k w. (st_get k (mem_css w), w)),
     updateCloudShell = (\<lambda>c. with_fault (\<lambda>w.
        let c0 = (case map_of (mem_css w) (nsname_of (cmeta c)) of
                    None \<Rightarrow> c | Some old \<Rightarrow> c\<lparr>Status := Status old\<rparr>)
        in case st_update cmeta cmeta_update c0 (mem_css w) of (r, st) \<Rightarrow> (r, w\<lparr>mem_css := st\<rparr>))),
     updateCloudShellStatus = (\<lambda>c. with_fault (\<lambda>w.
        case map_of (mem_css w) (nsname_of (cmeta c)) of
          None \<Rightarrow> (Err NotFound, w)
        | Some old \<Rightarrow>
            (case st_update cmeta cmeta_update
                (old\<lparr>cmeta := (cmeta old)\<lparr>ResourceVersion := ResourceVersion (cmeta c)\<rparr>,
                     Status := Status c\<rparr>) (mem_css w) of
              (r, st) \<Rightarrow> (r, w\<lparr>mem_css := st\<rparr>)))),
     deleteCloudShell = (\<lambda>k. with_fault (\<lambda>w.
        case st_delete cmeta cmeta_update (mem_now w) k (mem_css w) of (r, st) \<Rightarrow> (r, w\<lparr>mem_css := st\<rparr>))),
     getService = (\<lambda>k w. (st_get k (mem_svcs w), w)),
     createService = (\<lambda>p. with_fault (\<lambda>w. case st_create smeta smeta_update p (mem_svcs w) of
        (r, st) \<Rightarrow> (r, w\<lparr>mem_svcs := st\<rparr>))),
     updateService = (\<lambda>p. with_fault (\<lambda>w. case st_update smeta smeta_update p (mem_svcs w) of
        (r, st) \<Rightarrow> (r, w\<lparr>mem_svcs := st\<rparr>))),
     getIngress = (\<lambda>k w. (st_get k (mem_ings w), w)),
     createIngress = (\<lambda>p. with_fault (\<lambda>w. case st_create imeta imeta_update p (mem_ings w) of
        (r, st) \<Rightarrow> (r, w\<lparr>mem_ings := st\<rparr>))),
     updateIngress = (\<lambda>p. with_fault (\<lambda>w. case st_update imeta imeta_update p (mem_ings w) of
        (r, st) \<Rightarrow> (r, w\<lparr>mem_ings := st\<rparr>))),
     deleteIngress = (\<lambda>k. with_fault (\<lambda>w. case st_delete imeta imeta_update (mem_now w) k (mem_ings w) of
        (r, st) \<Rightarrow> (r, w\<lparr>mem_ings := st\<rparr>))),
     getVirtualService = (\<lambda>k w. (st_get k (mem_vss w), w)),
     createVirtualService = (\<lambda>p. with_fault (\<lambda>w. case st_create vmeta vmeta_update p (mem_vss w) of
        (r, st) \<Rightarrow> (r, w\<lparr>mem_vss := st\<rparr>))),
     updateVirtualService = (\<lambda>p. with_fault (\<lambda>w. case st_update vmeta vmeta_update p (mem_vss w) of
        (r, st) \<Rightarrow> (r, w\<lparr>mem_vss := st\<rparr>))),
     deleteVirtualService = (\<lambda>k. with_fault (\<lambda>w. case st_delete vmeta vmeta_update (mem_now w) k (mem_vss w) of
        (r, st) \<Rightarrow> (r, w\<lparr>mem_vss := st\<rparr>))),
     getSecret = (\<lambda>k w. (st_get k (mem_secrets w), w)),
     createSecret = (\<lambda>p. with_fault (\<lambda>w. case st_create secmeta secmeta_update p (mem_secrets w) of
        (r, st) \<Rightarrow> (r, w\<lparr>mem_secrets := st\<rparr>))),
     listNodes = (\<lambda>_ w. (Ok (mem_nodes w), w)),
     listConfigMaps = (\<lambda>_ _ w. (Ok (mem_cms w), w)),
     execPod = (\<lambda>_ _. with_fault (\<lambda>w. (Ok (), w))),
     timeNow = (\<lambda>w. (mem_now w, w)),
     randString = (\<lambda>n w. (replicate n (CHR ''a''), w\<lparr>mem_rand := Suc (mem_rand w)\<rparr>)),
     getenv = (\<lambda>_ _. ''''),
     readFile = (\<lambda>_ _. Err (Failure ''no such file'')),
     decodePod = mem_decodePod,
     decodeService = mem_decodeService,
     decodeIngress = mem_decodeIngress,
     decodeVirtualService = mem_decodeVirtualService,
     sortSlice = sort_by,
     deref = (\<lambda>_. \<lparr>Limits = None, Requests = None\<rparr>)\<rparr>"

section \<open>Interpretations\<close>

lemma with_fault_Inr:
  "with_fault f w = (Inr x, w') \<Longrightarrow> \<exists>w0. f w0 = (Inr x, w')"
  by (auto simp: with_fault_def split: list.splits option.splits)

lemma st_update_Inr: "st_update meta upd x st = (Inr x', st') \<Longrightarrow> \<exists>rv. x' = upd (bump rv) x"
  by (auto simp: st_update_def Let_def split: option.splits if_splits)

interpretation mem_pods: pod_writes mem_kube
proof
  fix p :: pod and w p' w'
  assume "updatePod mem_kube p w = (Inr p', w')"
  then obtain rv where "p' = pmeta_update (bump rv) p"
    by (auto simp: mem_kube_def dest!: with_fault_Inr st_update_Inr split: prod.splits)
  then show "\<exists>rv. p' = p\<lparr>pmeta := (pmeta p)\<lparr>ResourceVersion := rv\<rparr>\<rparr>"
    by (intro exI [of _ "Suc rv"]) (simp add: bump_def)
qed

interpretation mem_cloudshells: cloudshell_writes mem_kube
proof
  fix c :: CloudShell and w c' w'
  assume "updateCloudShell mem_kube c w = (Inr c', w')"
  then obtain rv c0 where c': "c' = cmeta_update (bump rv) c0"
    and c0: "c0 = c \<or> (\<exists>st. c0 = c\<lparr>Status := st\<rparr>)"
    by (auto simp: mem_kube_def Let_def dest!: with_fault_Inr st_update_Inr
        split: prod.splits option.splits) blast
  show "\<exists>rv st. c' = c\<lparr>cmeta := (cmeta c)\<lparr>ResourceVersion := rv\<rparr>, Status := st\<rparr>"
    by (rule exI [of _ "Suc rv"], rule exI [of _ "Status c0"])
      (use c' c0 in \<open>auto simp: bump_def\<close>)
qed

lemma insert_by_mset: "mset (insert_by lt x ys) = add_mset x (mset ys)"
  by (induction ys) auto

lemma insert_by_sorted:
  assumes "strict_weak lt"
  shows "sorted_wrt (\<lambda>x y. \<not> lt y x) ys \<Longrightarrow> sorted_wrt (\<lambda>x y. \<not> lt y x) (insert_by lt x ys)"
proof (induction ys)
  case (Cons y ys)
  have "set (insert_by lt x ys) = insert x (set ys)"
    using arg_cong [OF insert_by_mset, where f = set_mset] by simp
  with Cons assms show ?case by (auto simp: strict_weak_def) blast
qed simp

interpretation mem_sort: slice_sort mem_kube
proof
  fix lt :: "pod \<Rightarrow> pod \<Rightarrow> bool" and xs
  show "mset (sortSlice mem_kube lt xs) = mset xs"
    by (simp add: mem_kube_def sort_by_def) (induction xs; simp add: insert_by_mset)
  assume "strict_weak lt"
  then show "sorted_wrt (\<lambda>x y. \<not> lt y x) (sortSlice mem_kube lt xs)"
    by (simp add: mem_kube_def sort_by_def) (induction xs; simp add: insert_by_sorted)
qed

end
