(* ===== verification/Pool_Samples.thy ===== *)
theory Pool_Samples
  imports Pool_Invariant Mem_Cluster
begin

text \<open>Small states of the process over the in-memory cluster, on which the pool is run.\<close>

section \<open>A pool with one idle worker\<close>

definition idle_worker :: pod where
  "idle_worker =
     \<lparr>pmeta = (blank_meta ''ns'' ''w'')\<lparr>ResourceVersion := 1,
        Labels := Some [(WorkerOwnerLabelKey, ''''), (WorkerRequestLabelKey, ''a'')],
        Finalizers := [ControllerFinalizer]\<rparr>,
      Containers = [\<lparr>CName = ''web-tty'', CImage = ''img''\<rparr>],
      Conditions = [\<lparr>CondType = ''Ready'', CondStatus = ''True'', LastTransitionTime = Some 0\<rparr>]\<rparr>"

definition sample_req :: "string \<Rightarrow> Request" where
  "sample_req name =
     \<lparr>rCloudshell = name, rNamespace = ''ns'', rImage = ''img'',
      rNodeSelector = ''null'', rResources = None, rCloudShellQueue = 0\<rparr>"

definition sample_ctrl :: Controller where
  "sample_ctrl = \<lparr>cqueue = wq_new, ttydServiceBufferSize = '''', ttydPingInterval = '''',
     cloudshellImage = DefaultTtydImage, nodeSelector = None, resources = None\<rparr>"

definition empty_sys :: "mem \<Rightarrow> mem sys" where
  "empty_sys w = \<lparr>cluster = w, podIndexer = [], csIndexer = [], pool = newPool 1 10,
                  ctrl = sample_ctrl, calls = []\<rparr>"

definition sample_sys :: "mem sys" where
  "sample_sys =
     (empty_sys (mem_empty\<lparr>mem_pods := [(nsname_of (pmeta idle_worker), idle_worker)]\<rparr>))
       \<lparr>podIndexer := [(nsname_of (pmeta idle_worker), idle_worker)],
        pool := (newPool 1 10)\<lparr>workerQueue := Add (worker_key idle_worker) newQueue\<rparr>\<rparr>"

lemmas sample_defs = sample_sys_def empty_sys_def idle_worker_def sample_req_def sample_ctrl_def
  sample_worker_def blank_meta_def

lemma empty_sys_inv: "pool_inv res q (empty_sys w)"
  by (simp add: pool_inv_def empty_sys_def sample_ctrl_def newPool_ok wq_new_inv cache_ok_def)

lemma sample_sys_inv: "pool_inv None 0 sample_sys"
proof -
  have "pool_ok None 0 ((newPool 1 10)\<lparr>workerQueue := Add key newQueue\<rparr>)" for key
    using newPool_ok [of None 0 1 10] wq.inv_add [OF wq.inv_new, of key] by (simp add: pool_ok_def)
  then show ?thesis
    by (simp add: pool_inv_def sample_sys_def empty_sys_def sample_ctrl_def wq_new_inv cache_ok_def)
qed

end
