(* ===== verification/Controller_Samples.thy ===== *)
theory Controller_Samples
  imports Controller Pool_Samples
begin

text \<open>Small states of the process over the in-memory cluster, on which the controller is run.\<close>

section \<open>A cloudshell bound to a running worker\<close>

definition bound_cs :: CloudShell where
  "bound_cs = (blank_cs ''ns'' ''a'')
     \<lparr>cmeta := (blank_meta ''ns'' ''a'')\<lparr>ResourceVersion := 1,
        Labels := Some [(CloudshellPodLabelKey, ''w'')],
        Finalizers := [CloudshellControllerFinalizer]\<rparr>,
      Spec := blank_spec\<lparr>Image := ''img'', CommandAction := ''bash'',
        ExposeMode := ExposureServiceClusterIP, SecretRef := Some ''sec''\<rparr>\<rparr>"

definition lent_worker :: pod where
  "lent_worker = idle_worker\<lparr>pmeta := (pmeta idle_worker)\<lparr>
     Labels := Some [(WorkerOwnerLabelKey, ''a'')], Finalizers := []\<rparr>\<rparr>"

definition bound_sys :: "CloudShell \<Rightarrow> mem sys" where
  "bound_sys cs =
     (empty_sys (mem_empty\<lparr>mem_pods := [((''ns'', ''w''), lent_worker)],
        mem_css := [((''ns'', ''a''), cs)],
        mem_secrets := [((''ns'', ''sec''),
           \<lparr>secmeta = blank_meta ''ns'' ''sec'', SecretData = Some [(''config'', ''kc'')]\<rparr>)]\<rparr>))
       \<lparr>podIndexer := [((''ns'', ''w''), lent_worker)], csIndexer := [((''ns'', ''a''), cs)]\<rparr>"

lemma bound_sys_inv: "pool_inv None 0 (bound_sys cs)"
  by (simp add: pool_inv_def bound_sys_def empty_sys_def sample_ctrl_def newPool_ok wq_new_inv cache_ok_def
      nsname_of_def lent_worker_def idle_worker_def blank_meta_def)

lemma bound_sys_cached [simp]:
  "map_of (csIndexer (bound_sys cs)) (''ns'', ''a'') = Some cs"
  "map_of (podIndexer (bound_sys cs)) (''ns'', ''w'') = Some lent_worker"
  "calls (bound_sys cs) = []"
  by (simp_all add: bound_sys_def empty_sys_def)

section \<open>A cloudshell without a worker, and an idle worker in the pool\<close>

definition new_cs :: CloudShell where
  "new_cs = bound_cs\<lparr>cmeta := (cmeta bound_cs)\<lparr>Labels := None\<rparr>\<rparr>"

definition new_sys :: "mem sys" where
  "new_sys = sample_sys\<lparr>cluster := (cluster sample_sys)\<lparr>mem_css := [((''ns'', ''a''), new_cs)]\<rparr>,
     csIndexer := [((''ns'', ''a''), new_cs)]\<rparr>"

lemma new_sys_inv: "pool_inv None 0 new_sys"
  using sample_sys_inv by (simp add: new_sys_def pool_inv_def)

lemma new_sys_cached [simp]:
  "map_of (csIndexer new_sys) (''ns'', ''a'') = Some new_cs" "calls new_sys = []"
  by (simp_all add: new_sys_def sample_sys_def empty_sys_def)

end
