(* ===== verification/Pool_Lending.thy ===== *)
theory Pool_Lending
  imports Pool_Invariant Mem_Cluster
begin

text \<open>
  What \<open>Borrow\<close> and \<open>Back\<close> do to the pool, the cache and the cluster, for every cluster that
  stores what an update sends (locale \<open>pod_writes\<close>): a worker that was lent is out of the
  worker queue, carries its owner, has lost the finalizer of the pool and is stored; a
  worker that comes back is filed again or deleted, by its readiness, the waiting requests
  and the limit.
\<close>

section \<open>Runs of the retried functions\<close>

definition lend :: "Request \<Rightarrow> pod \<Rightarrow> pod" where
  "lend req p =
     p\<lparr>pmeta := (pmeta p)\<lparr>Labels := borrow_labels req (Labels (pmeta p)),
        Finalizers := filter (\<lambda>f. f \<noteq> ControllerFinalizer) (Finalizers (pmeta p))\<rparr>\<rparr>"

definition take_back :: "pod \<Rightarrow> pod" where
  "take_back p =
     p\<lparr>pmeta := (pmeta p)\<lparr>Labels := gm_set WorkerOwnerLabelKey '''' (Labels (pmeta p)),
        Finalizers := (if ControllerFinalizer \<in> set (Finalizers (pmeta p)) then Finalizers (pmeta p)
                       else Finalizers (pmeta p) @ [ControllerFinalizer])\<rparr>\<rparr>"

definition log_call :: "call \<Rightarrow> bool \<Rightarrow> 'w \<Rightarrow> 'w sys \<Rightarrow> 'w sys" where
  "log_call c ok w s = s\<lparr>cluster := w, calls := calls s @ [(c, ok)]\<rparr>"

lemma log_call_frame [simp]:
  "podIndexer (log_call c ok w s) = podIndexer s" "csIndexer (log_call c ok w s) = csIndexer s"
  "pool (log_call c ok w s) = pool s" "ctrl (log_call c ok w s) = ctrl s"
  "calls (log_call c ok w s) = calls s @ [(c, ok)]" "cluster (log_call c ok w s) = w"
  by (simp_all add: log_call_def)

lemma cached_log_call [simp]:
  "cached k (log_call c ok w s) = cached k s" "cached_pod k (log_call c ok w s) = cached_pod k s"
  by (simp_all add: cached_def cached_pod_def)

lemma pool_inv_log_call [simp]: "pool_inv res q (log_call c ok w s) = pool_inv res q s"
  by (simp add: pool_inv_def)

lemma run_borrow_try:
  "run_state (borrow_try K req k) s =
     (let worker = lend req (cached_pod k s); s1 = set_cached_pod k worker s
      in case updatePod K worker (cluster s) of
           (Inl e, w) \<Rightarrow> (Err e, log_call (UpdatePod worker) False w s1)
         | (Inr p, w) \<Rightarrow> (Ok (), set_cached_pod k p (log_call (UpdatePod worker) True w s1)))"
  by (simp add: borrow_try_def lend_def RemoveFinalizer_eq Let_def run_simps log_call_def
      split: prod.splits sum.splits)

lemma lend_same [simp]:
  "Containers (lend req p) = Containers p" "Conditions (lend req p) = Conditions p"
  "nsname_of (pmeta (lend req p)) = nsname_of (pmeta p)"
  "DeletionTimestamp (pmeta (lend req p)) = DeletionTimestamp (pmeta p)"
  by (simp_all add: lend_def nsname_of_def)

text \<open>The marks of a lent worker; a pod without labels gets none.\<close>

definition lent :: "Request \<Rightarrow> pod \<Rightarrow> bool" where
  "lent req p \<longleftrightarrow>
     ControllerFinalizer \<notin> set (Finalizers (pmeta p)) \<and>
     (gm_len (Labels (pmeta p)) > 0 \<longrightarrow>
        gm_lookup (Labels (pmeta p)) WorkerOwnerLabelKey = Some (rCloudshell req) \<and>
        gm_lookup (Labels (pmeta p)) WorkerRequestLabelKey = None \<and>
        gm_lookup (Labels (pmeta p)) WorkerBindingCountLabelKey \<noteq> None)"

lemma borrow_labels_len: "0 < gm_len (borrow_labels req l) \<longleftrightarrow> 0 < gm_len l"
proof -
  have "gm_len l > 0 \<Longrightarrow> gm_lookup (borrow_labels req l) WorkerOwnerLabelKey \<noteq> None"
    by (simp add: borrow_labels_def)
  then show ?thesis by (auto simp: gm_len_pos_iff [of "borrow_labels req l"])
      (auto simp: borrow_labels_def gm_len_pos_iff split: if_splits)
qed

lemma lend_lent: "lent req (lend req p)"
  using borrow_labels_len [of req "Labels (pmeta p)"]
  by (auto simp: lent_def lend_def borrow_labels_def)

lemma worker_key_cong:
  "Containers p = Containers p' \<Longrightarrow> nsname_of (pmeta p) = nsname_of (pmeta p') \<Longrightarrow>
   worker_key p = worker_key p'"
  by (simp add: worker_key_def WorkerKeyFunc_def nsname_of_def)

lemma is_labelled_lend: "gm_len (Labels (pmeta (lend req p))) > 0 \<longleftrightarrow> gm_len (Labels (pmeta p)) > 0"
  by (simp add: lend_def borrow_labels_len)

text \<open>What a run of the retried function keeps of the worker \<open>p0\<close> and of the queues.\<close>

definition lending :: "nat option \<Rightarrow> nat \<Rightarrow> nsname \<Rightarrow> 'w sys \<Rightarrow> 'w sys \<Rightarrow> bool" where
  "lending res q k s0 s \<longleftrightarrow>
     pool_inv res q s \<and> cached k s \<and> pool s = pool s0 \<and> ctrl s = ctrl s0 \<and>
     Containers (cached_pod k s) = Containers (cached_pod k s0) \<and>
     Conditions (cached_pod k s) = Conditions (cached_pod k s0) \<and>
     (0 < gm_len (Labels (pmeta (cached_pod k s))) \<longleftrightarrow>
      0 < gm_len (Labels (pmeta (cached_pod k s0))))"

definition borrowed :: "nat option \<Rightarrow> nat \<Rightarrow> Request \<Rightarrow> nsname \<Rightarrow> 'w sys \<Rightarrow> 'w sys \<Rightarrow> bool" where
  "borrowed res q req k s0 s \<longleftrightarrow>
     lending res q k s0 s \<and> lent req (cached_pod k s) \<and>
     (\<exists>p rv. last (calls s) = (UpdatePod p, True) \<and>
        cached_pod k s = p\<lparr>pmeta := (pmeta p)\<lparr>ResourceVersion := rv\<rparr>\<rparr>)"

context pod_writes
begin

lemma update_same_marks:
  assumes "updatePod K p w = (Inr p', w')"
  shows "nsname_of (pmeta p') = nsname_of (pmeta p)" "lent req p' = lent req p"
  using update_same [OF assms] by (simp_all add: nsname_of_def lent_def)

lemma lending_refl: "pool_inv res q s \<Longrightarrow> cached k s \<Longrightarrow> lending res q k s s"
  by (simp add: lending_def)

lemma lending_name: "lending res q k s0 s \<Longrightarrow> nsname_of (pmeta (cached_pod k s)) = k"
  unfolding lending_def by (blast intro: cached_pod_name)

lemma lending_step:
  assumes "lending res q k s0 s" "updatePod K (lend req (cached_pod k s)) w = (Inr p, w')"
  shows "lending res q k s0 (set_cached_pod k p
    (log_call (UpdatePod (lend req (cached_pod k s))) True w' (set_cached_pod k (lend req (cached_pod k s)) s)))"
proof -
  have "nsname_of (pmeta (cached_pod k s)) = k"
    using assms(1) by (rule lending_name)
  then show ?thesis
    using assms(1) update_same [OF assms(2)] update_same_marks [OF assms(2)]
      is_labelled_lend [of req "cached_pod k s"]
    by (auto simp: lending_def intro!: pool_inv_set_cached)
qed

lemma keeps_borrow_try: "keeps (lending res q k s0) (borrow_try K req k)"
proof (rule keepsI)
  fix s a s'
  assume I: "lending res q k s0 s" and run: "run_state (borrow_try K req k) s = (a, s')"
  have name: "nsname_of (pmeta (cached_pod k s)) = k"
    using I by (rule lending_name)
  show "lending res q k s0 s'"
  proof (cases "updatePod K (lend req (cached_pod k s)) (cluster s)")
    case (Pair r w)
    show ?thesis
    proof (cases r)
      case (Inl e)
      with Pair run I name is_labelled_lend [of req "cached_pod k s"] show ?thesis
        by (auto simp: run_borrow_try Let_def lending_def intro!: pool_inv_set_cached)
    next
      case (Inr p)
      with Pair run lending_step [OF I, of req "cluster s" p w] show ?thesis
        by (auto simp: run_borrow_try Let_def)
    qed
  qed
qed

lemma borrow_try_success:
  assumes "lending res q k s0 s" "run_state (borrow_try K req k) s = (Inr (), s')"
  shows "borrowed res q req k s0 s'"
proof -
  let ?p = "lend req (cached_pod k s)"
  obtain p w where u: "updatePod K ?p (cluster s) = (Inr p, w)"
    and s': "s' = set_cached_pod k p (log_call (UpdatePod ?p) True w (set_cached_pod k ?p s))"
    using assms(2) by (auto simp: run_borrow_try Let_def split: prod.splits sum.splits)
  have "lent req p" using update_same_marks [OF u] lend_lent by blast
  moreover have "lending res q k s0 s'" using lending_step [OF assms(1) u] s' by simp
  ultimately show ?thesis using update_returns [OF u] s' by (auto simp: borrowed_def)
qed

lemma Borrow_Inr:
  assumes inv: "pool_inv res q s" and run: "run_state (Borrow K req) s = (Inr p, s')"
  defines "k \<equiv> (rNamespace req, matching_worker_name req (All (workerQueue (pool s))))"
  shows "\<exists>s2. snd k \<noteq> '''' \<and> cached k s \<and> borrowed res q req k s s2 \<and> p = cached_pod k s2 \<and>
    s' = s2\<lparr>pool := (pool s2)\<lparr>workerQueue := Remove (=) (worker_key p) (workerQueue (pool s2))\<rparr>\<rparr>"
proof -
  obtain r s1 where m: "run_state (matchWorkerFor req) s = (r, s1)" by (metis surj_pair)
  then have r: "r = Inr k" "s1 = s" "snd k \<noteq> ''''" "cached k s"
    using run matchWorkerFor_cases [OF m]
    by (auto simp: Borrow_def k_def pool_queue_defs run_simps split: sum.splits if_splits)
  obtain s2 where t: "run_state (RetryOnConflict DefaultRetry (borrow_try K req k) ()) s = (Inr (), s2)"
    and p: "p = cached_pod k s2"
    and s': "s' = s2\<lparr>pool := (pool s2)\<lparr>workerQueue := Remove (=) (worker_key p) (workerQueue (pool s2))\<rparr>\<rparr>"
    using run m r by (auto simp: Borrow_def pool_queue_defs run_simps split: prod.splits sum.splits)
  have "borrowed res q req k s s2"
    by (rule RetryOnConflict_post [where I = "lending res q k s" and Q = "\<lambda>_. borrowed res q req k s",
          OF keeps_borrow_try _ _ _ t])
      (auto simp: DefaultRetry_def lending_refl inv r dest: borrow_try_success)
  with r p s' show ?thesis by blast
qed

lemma keeps_Borrow:
  assumes "req \<in> requests_of res q"
  shows "keeps (pool_inv res q) (Borrow K req)"
proof (rule keepsI)
  fix s a s'
  assume inv: "pool_inv res q s" and run: "run_state (Borrow K req) s = (a, s')"
  obtain r s1 where m: "run_state (matchWorkerFor req) s = (r, s1)" by (metis surj_pair)
  show "pool_inv res q s'"
  proof (cases r)
    case (Inl e)
    have "keeps (pool_inv res q)
       (State_Monad.bind (if e = ErrNotWorker
           then State_Monad.bind (request_queue_Add req) (\<lambda>_. send_match_signal)
           else State_Monad.return ()) (\<lambda>_. State_Monad.return (Err e :: pod res)))"
      using assms by (intro keeps_rules)
    moreover have "s1 = s" using matchWorkerFor_cases [OF m] by simp
    ultimately show ?thesis using run m Inl inv
      by (auto simp: Borrow_def dest!: keepsD)
  next
    case (Inr k)
    then have k: "cached k s" "s1 = s" using matchWorkerFor_cases [OF m] by auto
    obtain r2 s2 where t: "run_state (RetryOnConflict DefaultRetry (borrow_try K req k) ()) s = (r2, s2)"
      by (metis surj_pair)
    have "lending res q k s s2"
      using keepsD [OF keeps_RetryOnConflict [OF keeps_borrow_try] _ t] k inv by (simp add: lending_refl)
    then have I2: "pool_inv res q s2" by (simp add: lending_def)
    show ?thesis
    proof (cases r2)
      case (Inl e)
      with run m Inr k t I2 show ?thesis by (simp add: Borrow_def)
    next
      case r2: (Inr u)
      then have "run_state (worker_queue_Remove (worker_key (cached_pod k s2))) s2 = ((), s')"
        using run m Inr k t by (simp add: Borrow_def pool_queue_defs run_simps)
      then show ?thesis by (rule keepsD [OF keeps_queue_ops(2) I2])
    qed
  qed
qed

end

section \<open>Taking back\<close>

lemma take_back_same [simp]:
  "Containers (take_back p) = Containers p" "Conditions (take_back p) = Conditions p"
  "nsname_of (pmeta (take_back p)) = nsname_of (pmeta p)"
  by (simp_all add: take_back_def nsname_of_def)

lemma run_deleteWorker:
  "run_state (deleteWorker K p) s =
     (case deletePod K (nsname_of (pmeta p)) (cluster s) of
        (r, w) \<Rightarrow> (r, log_call (DeletePod (nsname_of (pmeta p))) (is_ok r) w s))"
  by (simp add: deleteWorker_def run_simps log_call_def)

definition must_delete :: "pod \<Rightarrow> 'w sys \<Rightarrow> bool" where
  "must_delete p s \<longleftrightarrow>
     \<not> IsPodReady p \<or>
     (match_request p (All (requestQueue (pool s))) = Ok None \<and>
      int (Len (workerQueue (pool s))) \<ge> maxWorkerLimit (pool s))"

definition filed :: "string \<Rightarrow> bool \<Rightarrow> WorkerPool \<Rightarrow> WorkerPool" where
  "filed key signal w =
     w\<lparr>workerQueue := Add key (workerQueue w),
       matchRequestSignal := (if signal then Suc else id) (matchRequestSignal w)\<rparr>"

lemma take_back_eq:
  "p\<lparr>pmeta := (snd (AddFinalizer ControllerFinalizer (pmeta p)))\<lparr>Labels :=
      gm_set WorkerOwnerLabelKey [] (Labels (snd (AddFinalizer ControllerFinalizer (pmeta p))))\<rparr>\<rparr> =
   take_back p"
  by (simp add: take_back_def AddFinalizer_eq)

lemma run_back_try:
  "run_state (back_try K worker) s =
     (let k = nsname_of (pmeta worker) in
      case map_of (podIndexer s) k of
        None \<Rightarrow> (Ok (), s)
      | Some p \<Rightarrow>
          if must_delete p s then run_state (deleteWorker K p) s
          else case match_request p (All (requestQueue (pool s))) of
            Inl e \<Rightarrow> (Err e, s)
          | Inr req \<Rightarrow>
              let p' = take_back p; s1 = set_cached_pod k p' s
              in case updatePod K p' (cluster s) of
                   (Inl e, w) \<Rightarrow> (Err e, log_call (UpdatePod p') False w s1)
                 | (Inr stored, w) \<Rightarrow>
                     (Ok (), (set_cached_pod k stored (log_call (UpdatePod p') True w s1))
                        \<lparr>pool := filed (worker_key worker) (req \<noteq> None) (pool s)\<rparr>))"
  by (auto simp: back_try_def Let_def run_simps nsname_of_def must_delete_def matchRequestFor_def
      take_back_eq log_call_def pool_queue_defs filed_def
      split: option.splits sum.splits prod.splits)

text \<open>What the tries keep of the pod and of the pool, and what a successful try leaves.\<close>

definition returning :: "nat option \<Rightarrow> nat \<Rightarrow> nsname \<Rightarrow> 'w sys \<Rightarrow> 'w sys \<Rightarrow> bool" where
  "returning res q k s0 s \<longleftrightarrow>
     pool_inv res q s \<and> cached k s \<and> pool s = pool s0 \<and> ctrl s = ctrl s0 \<and>
     Containers (cached_pod k s) = Containers (cached_pod k s0) \<and>
     Conditions (cached_pod k s) = Conditions (cached_pod k s0)"

definition taken_back :: "pod \<Rightarrow> bool" where
  "taken_back p \<longleftrightarrow>
     gm_lookup (Labels (pmeta p)) WorkerOwnerLabelKey = Some '''' \<and>
     ControllerFinalizer \<in> set (Finalizers (pmeta p))"

definition returned :: "nsname \<Rightarrow> string \<Rightarrow> 'w sys \<Rightarrow> 'w sys \<Rightarrow> bool" where
  "returned k key s0 s \<longleftrightarrow>
     (if must_delete (cached_pod k s0) s0
      then pool s = pool s0 \<and> last (calls s) = (DeletePod k, True)
      else (\<exists>req p. match_request (cached_pod k s0) (All (requestQueue (pool s0))) = Ok req \<and>
              pool s = filed key (req \<noteq> None) (pool s0) \<and>
              cached k s \<and> taken_back (cached_pod k s) \<and>
              last (calls s) = (UpdatePod p, True) \<and> taken_back p))"

lemma take_back_taken: "taken_back (take_back p)"
  by (simp add: taken_back_def take_back_def)

lemma match_request_cong:
  "Containers p = Containers p' \<Longrightarrow> nsname_of (pmeta p) = nsname_of (pmeta p') \<Longrightarrow>
   match_request p reqs = match_request p' reqs"
  by (induction reqs) (auto simp: nsname_of_def split: list.splits)

lemma returning_name: "returning res q k s0 s \<Longrightarrow> nsname_of (pmeta (cached_pod k s)) = k"
  unfolding returning_def by (blast intro: cached_pod_name)

lemma returning_same:
  assumes "returning res q k s0 s0" "returning res q k s0 s"
  shows "match_request (cached_pod k s) reqs = match_request (cached_pod k s0) reqs"
    and "must_delete (cached_pod k s) s = must_delete (cached_pod k s0) s0"
proof -
  have "nsname_of (pmeta (cached_pod k s)) = nsname_of (pmeta (cached_pod k s0))"
    using returning_name assms by metis
  then show m: "match_request (cached_pod k s) reqs = match_request (cached_pod k s0) reqs" for reqs
    using assms(2) by (intro match_request_cong) (simp_all add: returning_def)
  show "must_delete (cached_pod k s) s = must_delete (cached_pod k s0) s0"
    using assms(2) by (simp add: must_delete_def m returning_def IsPodReady_def)
qed

context pod_writes
begin

lemma update_taken_back: "updatePod K p w = (Inr p', w') \<Longrightarrow> taken_back p' = taken_back p"
  using update_same [of p w p' w'] by (simp add: taken_back_def)

lemma back_try_outcome:
  assumes R0: "returning res q k s0 s0" and R: "returning res q k s0 s"
    and k: "nsname_of (pmeta worker) = k"
    and run: "run_state (back_try K worker) s = (r, s')"
  shows "case r of Inl _ \<Rightarrow> returning res q k s0 s' | Inr _ \<Rightarrow> returned k (worker_key worker) s0 s'"
proof -
  let ?p = "cached_pod k s"
  have p: "map_of (podIndexer s) k = Some ?p" and name: "nsname_of (pmeta ?p) = k"
    and frame: "pool s = pool s0" "ctrl s = ctrl s0" "pool_inv res q s"
    using R returning_name [OF R] by (auto simp: returning_def intro: cached_podI)
  note same = returning_same [OF R0 R]
  consider (del) "must_delete ?p s"
    | (panic) e where "\<not> must_delete ?p s" "match_request ?p (All (requestQueue (pool s))) = Inl e"
    | (refile) req where "\<not> must_delete ?p s" "match_request ?p (All (requestQueue (pool s))) = Inr req"
    by (cases "match_request ?p (All (requestQueue (pool s)))") auto
  then show ?thesis
  proof cases
    case del
    then show ?thesis using run p name frame same R
      by (auto simp: run_back_try k run_deleteWorker returning_def returned_def split: prod.splits sum.splits)
  next
    case panic
    then show ?thesis using run p R by (auto simp: run_back_try k)
  next
    case refile
    obtain u w where u: "updatePod K (take_back ?p) (cluster s) = (u, w)" by (metis surj_pair)
    show ?thesis
    proof (cases u)
      case (Inl e)
      then show ?thesis using run p refile u R name
        by (auto simp: run_back_try k Let_def returning_def intro!: pool_inv_set_cached)
    next
      case (Inr stored)
      then have "taken_back stored" using u update_taken_back take_back_taken by metis
      with Inr show ?thesis using run p refile u frame same take_back_taken
        by (auto simp: run_back_try k Let_def returned_def)
    qed
  qed
qed

end

lemma RetryOnConflict_outcome:
  assumes step: "\<And>s r s'. I s \<Longrightarrow> run_state fn s = (r, s') \<Longrightarrow> (case r of Inl e \<Rightarrow> I s' | Inr x \<Rightarrow> Q x s')"
    and "0 < n" "I s" "run_state (RetryOnConflict n fn z) s = (r, s')"
  shows "case r of Inl e \<Rightarrow> I s' | Inr x \<Rightarrow> Q x s'"
  using assms(2-)
proof (induction n arbitrary: s)
  case (Suc n)
  obtain r0 s0 where r0: "run_state fn s = (r0, s0)" by (metis surj_pair)
  show ?case
  proof (cases r0)
    case (Inl e)
    then have "I s0" using step [OF Suc.prems(2) r0] by simp
    with Suc.prems r0 Inl Suc.IH [of s0] show ?thesis by (auto split: if_splits)
  next
    case (Inr x)
    with Suc.prems r0 step [OF Suc.prems(2) r0] show ?thesis by auto
  qed
qed simp

context pod_writes
begin

lemma Back_outcome:
  assumes "pool_inv res q s" "cached (nsname_of (pmeta worker)) s"
    and run: "run_state (Back K worker) s = (r, s')"
  shows "case r of
      Inl _ \<Rightarrow> returning res q (nsname_of (pmeta worker)) s s'
    | Inr _ \<Rightarrow> returned (nsname_of (pmeta worker)) (worker_key worker) s s'"
proof -
  let ?k = "nsname_of (pmeta worker)"
  have R: "returning res q ?k s s" using assms by (simp add: returning_def)
  show ?thesis
    by (rule RetryOnConflict_outcome [where I = "returning res q ?k s", OF _ _ R run [unfolded Back_def]])
      (auto simp: DefaultRetry_def intro: back_try_outcome [OF R _ refl])
qed

end

lemma Back_missing:
  assumes "\<not> cached (nsname_of (pmeta worker)) s"
  shows "run_state (Back K worker) s = (Ok (), s)"
  using assms by (simp add: Back_def DefaultRetry_def eval_nat_numeral run_back_try cached_def)

lemma pool_inv_filed:
  "pool_inv res q s \<Longrightarrow> pool s = w \<Longrightarrow> pool_inv res q (s\<lparr>pool := filed key sig w\<rparr>)"
  by (simp add: pool_inv_def pool_ok_def filed_def wq.inv_add)

context pod_writes
begin

lemma keeps_back_try: "keeps (pool_inv res q) (back_try K worker)"
proof (rule keepsI)
  fix s a s'
  assume I: "pool_inv res q s" and run: "run_state (back_try K worker) s = (a, s')"
  let ?k = "nsname_of (pmeta worker)"
  show "pool_inv res q s'"
  proof (cases "map_of (podIndexer s) ?k")
    case None
    then show ?thesis using I run by (simp add: run_back_try)
  next
    case (Some p)
    then have name: "nsname_of (pmeta p) = ?k"
      using I by (cases ?k) (auto simp: pool_inv_def cache_ok_def)
    show ?thesis
    proof (cases "must_delete p s")
      case True
      then show ?thesis using I run Some by (auto simp: run_back_try run_deleteWorker split: prod.splits)
    next
      case False
      obtain u w where u: "updatePod K (take_back p) (cluster s) = (u, w)" by (metis surj_pair)
      have "nsname_of (pmeta stored) = ?k" if "u = Inr stored" for stored
        using u that name update_same_marks [of "take_back p"] by simp
      then show ?thesis
        using I run Some False u name
        by (auto simp: run_back_try Let_def split: sum.splits
            intro!: pool_inv_filed pool_inv_set_cached)
    qed
  qed
qed

lemma keeps_Back: "keeps (pool_inv res q) (Back K worker)"
  unfolding Back_def by (intro keeps_rules keeps_back_try)

end

end
