(* ===== verification/Controller_Removal.thy ===== *)
theory Controller_Removal
  imports Call_Trace Controller_Samples Pool_Lending
begin

text \<open>
  Removing a cloudshell: the worker goes back to the pool, the route entry goes, and only then
  is the finalizer given up.
\<close>

section \<open>The steps\<close>

lemma allowed_list_all: "(\<And>ok. P (c, ok)) \<Longrightarrow> allowed (list_all P) c"
  by (simp add: allowed_def)

lemma Back_calls:
  assumes "run_state (Back K p) s = (r, s')"
  shows "\<exists>E. calls s' = calls s @ E \<and> list_all (\<lambda>(c, _). pod_call c) E"
proof -
  have "keeps (call_inv (calls s) (list_all (\<lambda>(c, _). pod_call c))) (Back K p)"
    by (rule trace_Back_pods) (simp add: allowed_list_all)
  moreover have "call_inv (calls s) (list_all (\<lambda>(c, _). pod_call c)) s" by (simp add: call_inv_def)
  ultimately have "call_inv (calls s) (list_all (\<lambda>(c, _). pod_call c)) s'" by (rule keepsD) (rule assms)
  then show ?thesis by (simp add: call_inv_def)
qed

lemma keeps_cs_frame:
  "keeps (\<lambda>s. csIndexer s = X) (client_write c f)" "keeps (\<lambda>s. csIndexer s = X) (write_cached_pod k p)"
  "keeps (\<lambda>s. csIndexer s = X) (upd_pool g)"
  by (rule keepsI, auto simp: run_simps write_cached_pod_def split: prod.splits)+

lemma Back_cs:
  assumes "run_state (Back K p) s = (r, s')"
  shows "csIndexer s' = csIndexer s"
proof -
  have "keeps (\<lambda>t. csIndexer t = csIndexer s) (Back K p)"
    unfolding Back_def back_try_def deleteWorker_def pool_queue_defs Let_def
    by (intro keeps_rules keeps_cs_frame keeps_matchRequestFor)
  from keepsD [OF this refl assms] show ?thesis .
qed

lemma removeCloudshellRoute_calls:
  assumes "run_state (removeCloudshellRoute K ck) s = (r, s')"
  shows "calls s' = calls s \<or> (\<exists>d. calls s' = calls s @ [(d, is_ok r)] \<and> route_call d)"
    and "pool s' = pool s" "csIndexer s' = csIndexer s" "podIndexer s' = podIndexer s" "ctrl s' = ctrl s"
  using assms
  by (auto simp: removeCloudshellRoute_def Let_def run_simps split: if_splits prod.splits sum.splits)

text \<open>The worker's part of \<open>removeCloudshell\<close>.\<close>

definition give_back :: "'w kube \<Rightarrow> nsname \<Rightarrow> nsname option \<Rightarrow> ('w sys, unit res) state" where
  "give_back K ck worker =
     (case worker of
        None \<Rightarrow> State_Monad.return (Ok ())
      | Some pk \<Rightarrow> do {
          _ \<leftarrow> ResetWorker K ck;
          p \<leftarrow> gets (cached_pod pk);
          bindE (Back K p) (\<lambda>_. do { unbind_worker ck; State_Monad.return (Ok ()) })
        })"

lemma removeCloudshell_eq:
  "removeCloudshell K ck = bindE (GetBindingWorkerFor ck) (\<lambda>worker.
     bindE (give_back K ck worker) (\<lambda>_. bindE (removeCloudshellRoute K ck) (\<lambda>_. removeFinalizer K ck)))"
  by (simp add: removeCloudshell_def give_back_def)

definition unbound :: "CloudShell \<Rightarrow> CloudShell" where
  "unbound c = c\<lparr>cmeta := (cmeta c)\<lparr>Labels := gm_delete CloudshellPodLabelKey (Labels (cmeta c))\<rparr>\<rparr>"

text \<open>Where a bound worker has gone when it was given back.\<close>

definition worker_released :: "pod \<Rightarrow> 'w sys \<Rightarrow> (call \<times> bool) list \<Rightarrow> 'w sys \<Rightarrow> bool" where
  "worker_released p s E s' \<longleftrightarrow>
     (if must_delete p s
      then pool s' = pool s \<and> (DeletePod (nsname_of (pmeta p)), True) \<in> set E
      else worker_key p \<in> set (All (workerQueue (pool s'))) \<and>
           (\<exists>p'. (UpdatePod p', True) \<in> set E \<and> taken_back p'))"

lemma run_ResetWorker:
  "\<exists>w ok r. run_state (ResetWorker K ck) s =
     (r, log_call (ExecPod (bound_worker (cached_cs ck s)) [resetScriptPath]) ok w s)"
  by (auto simp: ResetWorker_def execCommand_def bound_worker_def log_call_def Let_def run_simps split: prod.split)

lemma last_append_pod:
  assumes "last (C @ [(ExecPod t cmd, ok)] @ E) = (d, True)" "pod_call d"
  shows "(d, True) \<in> set E"
  using assms by (cases E rule: rev_cases) auto

lemma give_back_Some:
  assumes K: "pod_writes K" and I: "pool_inv res q s" and c: "map_of (csIndexer s) ck = Some c"
    and p: "map_of (podIndexer s) (bound_worker c) = Some p"
    and run: "run_state (give_back K ck (Some (bound_worker c))) s = (r, s')"
  shows "\<exists>ok E. calls s' = calls s @ (ExecPod (bound_worker c) [resetScriptPath], ok) # E \<and>
    list_all (\<lambda>(d, _). pod_call d) E \<and>
    (r = Ok () \<longrightarrow> map_of (csIndexer s') ck = Some (unbound c) \<and> worker_released p s E s')"
proof -
  let ?k = "bound_worker c"
  have cc: "cached_cs ck s = c" using c by (simp add: cached_cs_def)
  obtain w ok r0 where reset: "run_state (ResetWorker K ck) s =
      (r0, log_call (ExecPod ?k [resetScriptPath]) ok w s)"
    using run_ResetWorker [of K ck s] cc by auto
  let ?s1 = "log_call (ExecPod ?k [resetScriptPath]) ok w s"
  have cp: "cached_pod ?k ?s1 = p" using p by (simp add: cached_pod_def)
  have name: "nsname_of (pmeta p) = ?k" using I p by (cases ?k) (auto simp: pool_inv_def cache_ok_def)
  obtain rb s2 where bk: "run_state (Back K p) ?s1 = (rb, s2)" by (metis surj_pair)
  obtain E where E: "calls s2 = calls ?s1 @ E" "list_all (\<lambda>(d, _). pod_call d) E"
    using Back_calls [OF bk] by blast
  have cs2: "csIndexer s2 = csIndexer s" using Back_cs [OF bk] by simp
  show ?thesis
  proof (cases rb)
    case (Inl e)
    then have "r = Err e" "s' = s2"
      using run reset bk cp by (simp_all add: give_back_def)
    then show ?thesis using E by auto
  next
    case (Inr u)
    then have r: "r = Ok ()" "s' = set_cached_cs ck (unbound c) s2"
      using run reset bk cp cs2 c
      by (simp_all add: give_back_def unbind_worker_def write_cs_def cached_cs_def unbound_def)
    have "cached (nsname_of (pmeta p)) ?s1" "pool_inv res q ?s1" using p name I by (simp_all add: cached_def)
    then have "returned ?k (worker_key p) ?s1 s2"
      using pod_writes.Back_outcome [OF K _ _ bk] Inr name by fastforce
    moreover have "must_delete p ?s1 = must_delete p s" by (simp add: must_delete_def)
    moreover have inv: "queue_inv UNIV (workerQueue (pool s))" using I by (simp add: pool_inv_def pool_ok_def)
    have "worker_key p \<in> set (queue (Add (worker_key p) (workerQueue (pool s))))"
      by (simp add: queue_Add [OF inv])
    ultimately have "worker_released p s E s2"
      using last_append_pod [of "calls s" ?k "[resetScriptPath]" ok E] E(1) cp name
      by (auto simp: returned_def worker_released_def filed_def split: if_splits)
    then show ?thesis using E r by (auto simp: worker_released_def)
  qed
qed

section \<open>The finalizer comes last\<close>

lemma run_removeFinalizer:
  assumes "map_of (csIndexer s) ck = Some c" "run_state (removeFinalizer K ck) s = (r, s')"
  shows "(if CloudshellControllerFinalizer \<in> set (Finalizers (cmeta c))
     then \<exists>c'. calls s' = calls s @ [(UpdateCloudShell c', is_ok r)] \<and>
            CloudshellControllerFinalizer \<notin> set (Finalizers (cmeta c')) \<and>
            Labels (cmeta c') = Labels (cmeta c)
     else r = Ok () \<and> calls s' = calls s) \<and> pool s' = pool s"
  using assms
  by (auto simp: removeFinalizer_def RemoveFinalizer_eq update_cs_def write_cs_def cached_cs_def run_simps
      split: prod.splits sum.splits)

lemma split_last:
  assumes "D @ x # E = A @ B" "x \<notin> set A" "B = [] \<or> B = [y]"
  shows "E = [] \<and> D = A \<and> x = y"
proof -
  have "x \<in> set (A @ B)" using assms(1) [symmetric] by simp
  then have B: "B = [x]" "x = y" using assms(2,3) by auto
  have "E = []" using assms(1,2) B by (cases E rule: rev_cases) auto
  then show ?thesis using assms(1) B by simp
qed

lemma route_then_finalizer:
  assumes c: "map_of (csIndexer s) ck = Some c"
    and run: "run_state (bindE (removeCloudshellRoute K ck) (\<lambda>_. removeFinalizer K ck)) s = (r, s')"
  shows "\<exists>F G. calls s' = calls s @ F @ G \<and> list_all (\<lambda>(d, _). route_call d) F \<and> pool s' = pool s \<and>
    (G = [] \<or> (\<exists>c'. G = [(UpdateCloudShell c', is_ok r)] \<and> list_all snd F \<and>
       CloudshellControllerFinalizer \<notin> set (Finalizers (cmeta c')) \<and> Labels (cmeta c') = Labels (cmeta c)))"
proof -
  obtain r1 s1 where rt: "run_state (removeCloudshellRoute K ck) s = (r1, s1)" by (metis surj_pair)
  note route = removeCloudshellRoute_calls [OF rt]
  have "\<exists>F. calls s1 = calls s @ F \<and> list_all (\<lambda>(d, ok). route_call d \<and> ok = is_ok r1) F"
    using route(1)
  proof
    assume "calls s1 = calls s"
    then show ?thesis by simp
  next
    assume "\<exists>d. calls s1 = calls s @ [(d, is_ok r1)] \<and> route_call d"
    then obtain d where "calls s1 = calls s @ [(d, is_ok r1)]" "route_call d" by blast
    then show ?thesis by (intro exI [of _ "[(d, is_ok r1)]"]) simp
  qed
  then obtain F where F: "calls s1 = calls s @ F" "list_all (\<lambda>(d, ok). route_call d \<and> ok = is_ok r1) F"
    by blast
  show ?thesis
  proof (cases r1)
    case (Inl e)
    then have "s' = s1" using run rt by simp
    moreover have "list_all (\<lambda>(d, _). route_call d) F" using F(2) by (auto simp: list_all_iff)
    ultimately show ?thesis using F(1) route(2) by (intro exI [of _ F] exI [of _ "[]"]) simp
  next
    case (Inr u)
    then have fin: "run_state (removeFinalizer K ck) s1 = (r, s')" using run rt by simp
    have "map_of (csIndexer s1) ck = Some c" using route(3) c by simp
    note f = run_removeFinalizer [OF this fin]
    have "\<exists>G. calls s' = calls s1 @ G \<and>
      (G = [] \<or> (\<exists>c'. G = [(UpdateCloudShell c', is_ok r)] \<and>
       CloudshellControllerFinalizer \<notin> set (Finalizers (cmeta c')) \<and> Labels (cmeta c') = Labels (cmeta c)))"
      using f by (auto split: if_splits)
    then obtain G where "calls s' = calls s1 @ G" "G = [] \<or> (\<exists>c'. G = [(UpdateCloudShell c', is_ok r)] \<and>
       CloudshellControllerFinalizer \<notin> set (Finalizers (cmeta c')) \<and> Labels (cmeta c') = Labels (cmeta c))"
      by blast
    moreover have "pool s' = pool s" using f route(2) by simp
    moreover have "list_all (\<lambda>(d, _). route_call d) F" "list_all snd F"
      using F(2) Inr by (auto simp: list_all_iff)
    ultimately show ?thesis using F(1) by (intro exI [of _ F] exI [of _ G]) simp
  qed
qed

text \<open>Giving the worker back, whether there is one or not.\<close>

lemma give_back_stage:
  assumes "pod_writes K" "pool_inv res q s" "map_of (csIndexer s) ck = Some c"
    and b: "b \<longleftrightarrow> snd (bound_worker c) \<noteq> [] \<and> map_of (podIndexer s) (bound_worker c) \<noteq> None"
    and run: "run_state (give_back K ck (if b then Some (bound_worker c) else None)) s = (r, s')"
  shows "\<exists>E. calls s' = calls s @ E \<and> list_all (\<lambda>(d, _). \<not> route_call d \<and> (\<forall>x. d \<noteq> UpdateCloudShell x)) E \<and>
      (r = Ok () \<longrightarrow> map_of (csIndexer s') ck = Some (if b then unbound c else c) \<and>
         (\<forall>p. b \<and> map_of (podIndexer s) (bound_worker c) = Some p \<longrightarrow> worker_released p s E s'))"
proof (cases b)
  case True
  then obtain p where p: "map_of (podIndexer s) (bound_worker c) = Some p" using b by blast
  have pod: "pod_call d \<Longrightarrow> \<not> route_call d \<and> (\<forall>x. d \<noteq> UpdateCloudShell x)" for d by (cases d) auto
  from give_back_Some [OF assms(1-3) p] run True
  obtain ok0 E0 where e: "calls s' = calls s @ (ExecPod (bound_worker c) [resetScriptPath], ok0) # E0"
    "list_all (\<lambda>(d, _). pod_call d) E0"
    "r = Ok () \<longrightarrow> map_of (csIndexer s') ck = Some (unbound c) \<and> worker_released p s E0 s'"
    by fastforce
  then show ?thesis
    using True p pod
    by (intro exI [of _ "(ExecPod (bound_worker c) [resetScriptPath], ok0) # E0"])
      (auto simp: list_all_iff worker_released_def split: if_splits)
next
  case False
  then show ?thesis using run assms(3) by (auto simp: give_back_def)
qed

text \<open>
  Property C5. When a run of \<open>removeCloudshell\<close> sends the update that gives up the finalizer of the
  cloudshell, this is its last call, the object sent has no finalizer of the controller, and
  the function fails only if that update fails. Before it, no call on an ingress or a virtual
  service has failed; and if the cloudshell was bound to a worker in the cache, the object
  sent is not bound any more and the worker has either been deleted or been stored without an
  owner and filed in the worker queue. So no worker and no route is left behind by a cloudshell
  that disappears.
\<close>

theorem removeCloudshell_finalizer_last:
  assumes "pod_writes K" "pool_inv res q s" "map_of (csIndexer s) ck = Some c"
    and "run_state (removeCloudshell K ck) s = (r, s')"
    and "calls s' = calls s @ D @ (UpdateCloudShell c', ok) # E"
  shows "E = [] \<and> ok = is_ok r \<and> CloudshellControllerFinalizer \<notin> set (Finalizers (cmeta c')) \<and>
    (\<forall>d. (d, False) \<in> set D \<longrightarrow> \<not> route_call d) \<and>
    (\<forall>p. snd (bound_worker c) \<noteq> [] \<and> map_of (podIndexer s) (bound_worker c) = Some p \<longrightarrow>
       gm_lookup (Labels (cmeta c')) CloudshellPodLabelKey = None \<and> worker_released p s D s')"
proof -
  define b where "b \<longleftrightarrow> snd (bound_worker c) \<noteq> [] \<and> map_of (podIndexer s) (bound_worker c) \<noteq> None"
  let ?w = "if b then Some (bound_worker c) else None"
  obtain r1 s1 where g: "run_state (give_back K ck ?w) s = (r1, s1)" by (metis surj_pair)
  have gb: "run_state (GetBindingWorkerFor ck) s = (Ok ?w, s)"
    using run_GetBindingWorkerFor [OF assms(3)] by (simp add: b_def)
  from give_back_stage [OF assms(1-3) b_def g] obtain E1 where E1: "calls s1 = calls s @ E1"
      "list_all (\<lambda>(d, _). \<not> route_call d \<and> (\<forall>x. d \<noteq> UpdateCloudShell x)) E1"
      "r1 = Ok () \<longrightarrow> map_of (csIndexer s1) ck = Some (if b then unbound c else c) \<and>
         (\<forall>p. b \<and> map_of (podIndexer s) (bound_worker c) = Some p \<longrightarrow> worker_released p s E1 s1)"
    by blast
  have notU: "(UpdateCloudShell c', ok) \<notin> set E1" using E1(2) by (auto simp: list_all_iff)
  have r1: "r1 = Ok ()"
  proof (rule ccontr)
    assume "r1 \<noteq> Ok ()"
    then have "s' = s1" using assms(4) gb g by (cases r1) (auto simp: removeCloudshell_eq)
    then show False using E1(1) assms(5) notU by simp
  qed
  then have "run_state (bindE (removeCloudshellRoute K ck) (\<lambda>_. removeFinalizer K ck)) s1 = (r, s')"
    using assms(4) gb g by (simp add: removeCloudshell_eq)
  from route_then_finalizer [OF _ this] E1(3) r1
  obtain F G where F: "calls s' = calls s1 @ F @ G" "list_all (\<lambda>(d, _). route_call d) F" "pool s' = pool s1"
    and G: "G = [] \<or> (\<exists>c'. G = [(UpdateCloudShell c', is_ok r)] \<and> list_all snd F \<and>
       CloudshellControllerFinalizer \<notin> set (Finalizers (cmeta c')) \<and>
       Labels (cmeta c') = Labels (cmeta (if b then unbound c else c)))" by blast
  have eq: "D @ (UpdateCloudShell c', ok) # E = (E1 @ F) @ G" using assms(5) E1(1) F(1) by simp
  have notF: "(UpdateCloudShell c', ok) \<notin> set (E1 @ F)" using notU F(2) by (auto simp: list_all_iff)
  then have "G \<noteq> []" using eq by (metis append_Nil2 in_set_conv_decomp)
  with G obtain c1 where G1: "G = [(UpdateCloudShell c1, is_ok r)]" "list_all snd F"
      "CloudshellControllerFinalizer \<notin> set (Finalizers (cmeta c1))"
      "Labels (cmeta c1) = Labels (cmeta (if b then unbound c else c))" by blast
  have D: "E = []" "D = E1 @ F" "c' = c1" "ok = is_ok r" using split_last [OF eq notF] G1(1) by auto
  have "\<not> route_call d" if "(d, False) \<in> set D" for d
    using that D(2) E1(2) G1(2) by (auto simp: list_all_iff)
  moreover have "gm_lookup (Labels (cmeta c')) CloudshellPodLabelKey = None \<and> worker_released p s D s'"
    if "snd (bound_worker c) \<noteq> []" "map_of (podIndexer s) (bound_worker c) = Some p" for p
    using that G1(4) D(2,3) E1(3) r1 F(3)
    by (auto simp: b_def unbound_def worker_released_def split: if_splits)
  ultimately show ?thesis using D G1(3) by auto
qed

lemma remove_bound_calls:
  "case calls (snd (run_state (removeCloudshell mem_kube (''ns'', ''a'')) (bound_sys bound_cs))) of
     [d, e, (UpdateCloudShell c', ok)] \<Rightarrow> True | _ \<Rightarrow> False"
  by code_simp

theorem removeCloudshell_finalizer_last_witness:
  "\<exists>c'. fst (last (calls (snd (run_state (removeCloudshell mem_kube (''ns'', ''a'')) (bound_sys bound_cs))))) =
          UpdateCloudShell c' \<and> CloudshellControllerFinalizer \<notin> set (Finalizers (cmeta c'))"
proof -
  let ?C = "calls (snd (run_state (removeCloudshell mem_kube (''ns'', ''a'')) (bound_sys bound_cs)))"
  obtain d e c' ok where C: "?C = [d, e] @ [(UpdateCloudShell c', ok)]"
    using remove_bound_calls by (auto split: list.splits prod.splits call.splits)
  then show ?thesis
    using removeCloudshell_finalizer_last [OF mem_pods.pod_writes_axioms bound_sys_inv bound_sys_cached(1)
        surjective_pairing, where D = "[d, e]" and c' = c' and ok = ok and E = "[]"] by simp
qed

end
