(* ===== verification/Controller_Status.thy ===== *)
theory Controller_Status
  imports Controller_Samples
begin

text \<open>
  Writing the status of a cloudshell: \<open>UpdateCloudshellStatus\<close> retries on conflict.
\<close>

section \<open>One try\<close>

definition with_status :: "CloudShellStatus \<Rightarrow> CloudShell \<Rightarrow> CloudShell" where
  "with_status st c = c\<lparr>Status := st\<rparr>"

lemma with_status_idem [simp]: "with_status st (with_status st c) = with_status st c"
  by (simp add: with_status_def)

text \<open>The state after a status call answered \<open>ok\<close>: the cached object has the status, the call is
  recorded, and apart from the cluster nothing else has changed.\<close>

definition status_sent :: "nsname \<Rightarrow> CloudShell \<Rightarrow> bool \<Rightarrow> 'w \<Rightarrow> 'w sys \<Rightarrow> 'w sys" where
  "status_sent ck c ok w s =
     (set_cached_cs ck c s)\<lparr>cluster := w, calls := calls s @ [(UpdateCloudShellStatus c, ok)]\<rparr>"

lemma run_status_send:
  assumes "map_of (csIndexer s) ck = Some c"
  shows "run_state (status_send K ck st) s =
     (case updateCloudShellStatus K (with_status st c) (cluster s) of
        (r, w) \<Rightarrow> (map_sum id (\<lambda>_. ()) r, status_sent ck (with_status st c) (is_ok r) w s))"
  using assms
  by (auto simp: status_send_def write_cs_def Let_def run_simps cached_cs_def with_status_def
      status_sent_def split: prod.splits sum.splits)

lemma status_sent_cached:
  "map_of (csIndexer (status_sent ck c ok w s)) ck = Some c"
  "calls (status_sent ck c ok w s) = calls s @ [(UpdateCloudShellStatus c, ok)]"
  "pool (status_sent ck c ok w s) = pool s" "ctrl (status_sent ck c ok w s) = ctrl s"
  "podIndexer (status_sent ck c ok w s) = podIndexer s"
  by (simp_all add: status_sent_def)

section \<open>The retries\<close>

definition status_tries :: "nsname \<Rightarrow> CloudShell \<Rightarrow> nat \<Rightarrow> unit res \<Rightarrow> 'w sys \<Rightarrow> 'w sys \<Rightarrow> bool" where
  "status_tries ck c n r s s' \<longleftrightarrow>
     calls s' = calls s @ replicate n (UpdateCloudShellStatus c, False) @ [(UpdateCloudShellStatus c, is_ok r)] \<and>
     map_of (csIndexer s') ck = Some c \<and>
     (\<forall>k. k \<noteq> ck \<longrightarrow> map_of (csIndexer s') k = map_of (csIndexer s) k) \<and>
     pool s' = pool s \<and> ctrl s' = ctrl s \<and> podIndexer s' = podIndexer s"

lemma status_tries_step:
  assumes "status_tries ck c n r (status_sent ck c False w s) s'"
  shows "status_tries ck c (Suc n) r s s'"
  using assms by (auto simp: status_tries_def status_sent_def)

lemma status_tries_one: "status_tries ck c 0 r s (status_sent ck c (is_ok r) w s)"
  by (simp add: status_tries_def status_sent_def)

lemma retry_status:
  assumes "0 < n" "map_of (csIndexer s) ck = Some c" "with_status st c = c"
    and "run_state (RetryOnConflict n (status_resend K ck st) ()) s = (r, s')"
  shows "\<exists>k < n. status_tries ck c k r s s' \<and> (\<forall>e. r = Inl e \<and> IsConflict e \<longrightarrow> k = n - 1)"
  using assms
proof (induction n arbitrary: s)
  case 0
  then show ?case by simp
next
  case (Suc n)
  obtain r0 w where u: "updateCloudShellStatus K c (cluster s) = (r0, w)" by fastforce
  let ?s1 = "status_sent ck c (is_ok r0) w s"
  have one: "run_state (status_resend K ck st) s = (map_sum id (\<lambda>_. ()) r0, ?s1)"
    using Suc.prems(2,3) u by (simp add: status_resend_def run_simps run_status_send)
  show ?case
  proof (cases "\<exists>e. r0 = Inl e \<and> IsConflict e \<and> n \<noteq> 0")
    case True
    then obtain e where e: "r0 = Inl e" "IsConflict e" "n \<noteq> 0" by blast
    then have "run_state (RetryOnConflict n (status_resend K ck st) ()) ?s1 = (r, s')"
      using Suc.prems(4) one by simp
    from Suc.IH [OF _ status_sent_cached(1) Suc.prems(3) this] e(3)
    obtain k where k: "k < n" "status_tries ck c k r ?s1 s'" "\<forall>e. r = Inl e \<and> IsConflict e \<longrightarrow> k = n - 1"
      by blast
    have "status_tries ck c (Suc k) r s s'" using k(2) e(1) status_tries_step by simp
    then show ?thesis using k(1,3) e(3) by (intro exI [of _ "Suc k"]) simp
  next
    case False
    have "r = map_sum id (\<lambda>_. ()) r0 \<and> s' = ?s1"
    proof (cases r0)
      case (Inl e)
      then have "\<not> (IsConflict e \<and> n \<noteq> 0)" using False by blast
      then show ?thesis using Suc.prems(4) one Inl by auto
    next
      case (Inr x)
      then show ?thesis using Suc.prems(4) one by auto
    qed
    then have "r = map_sum id (\<lambda>_. ()) r0" "s' = ?s1" by blast+
    moreover have "is_ok r0 = is_ok (map_sum id (\<lambda>_. ()) r0)" by (cases r0) auto
    ultimately have "status_tries ck c 0 r s s'" using status_tries_one [of ck c r s w] by simp
    moreover have "n = 0" if "r = Inl e" "IsConflict e" for e
      using that False \<open>r = map_sum id (\<lambda>_. ()) r0\<close> by (cases r0) auto
    ultimately show ?thesis by (intro exI [of _ 0]) auto
  qed
qed

lemma UpdateCloudshellStatus_tries:
  assumes "map_of (csIndexer s) ck = Some c"
    and "run_state (UpdateCloudshellStatus K ck phase) s = (r, s')"
  shows "\<exists>k < 4. status_tries ck (c\<lparr>Status := (Status c)\<lparr>Phase := phase\<rparr>\<rparr>) k r s s' \<and>
    (\<forall>e. r = Inl e \<and> IsConflict e \<longrightarrow> k = 3)"
proof -
  let ?st = "(Status c)\<lparr>Phase := phase\<rparr>"
  let ?c = "with_status ?st c"
  obtain r0 w where u: "updateCloudShellStatus K ?c (cluster s) = (r0, w)" by fastforce
  let ?s1 = "status_sent ck ?c (is_ok r0) w s"
  have one: "run_state (status_send K ck ?st) s = (map_sum id (\<lambda>_. ()) r0, ?s1)"
    using assms(1) u by (simp add: run_status_send)
  have "\<exists>k < 4. status_tries ck ?c k r s s' \<and> (\<forall>e. r = Inl e \<and> IsConflict e \<longrightarrow> k = 3)"
  proof (cases "\<exists>e. r0 = Inl e \<and> IsConflict e")
    case True
    then obtain e where e: "r0 = Inl e" "IsConflict e" by blast
    then have "run_state (RetryOnConflict 3 (status_resend K ck ?st) ()) ?s1 = (r, s')"
      using assms one by (simp add: UpdateCloudshellStatus_def cached_cs_def DefaultBackoff_def Let_def)
    from retry_status [OF _ status_sent_cached(1) with_status_idem this]
    obtain k where k: "k < 3" "status_tries ck ?c k r ?s1 s'" "\<forall>e. r = Inl e \<and> IsConflict e \<longrightarrow> k = 2"
      by auto
    have "status_tries ck ?c (Suc k) r s s'" using k(2) e(1) status_tries_step by simp
    then show ?thesis using k(1,3) by (intro exI [of _ "Suc k"]) simp
  next
    case False
    then have "r = map_sum id (\<lambda>_. ()) r0" "s' = ?s1"
      using assms one False
      by (cases r0; simp add: UpdateCloudshellStatus_def cached_cs_def Let_def)+
    moreover have "is_ok r0 = is_ok (map_sum id (\<lambda>_. ()) r0)" by (cases r0) auto
    ultimately have "status_tries ck ?c 0 r s s'" using status_tries_one [of ck ?c r s w] by simp
    moreover have "\<not> IsConflict e" if "r = Inl e" for e
      using that False \<open>r = map_sum id (\<lambda>_. ()) r0\<close> by (cases r0) auto
    ultimately show ?thesis by (intro exI [of _ 0]) auto
  qed
  then show ?thesis by (simp add: with_status_def)
qed



end
