(* ===== verification/Controller_Expiry.thy ===== *)
theory Controller_Expiry
  imports Controller_Removal Controller_Status
begin

text \<open>
  The life time of a cloudshell: the arithmetic of \<open>nextRequeueTimeDuration\<close> on 64-bit
  nanoseconds, and what happens to a cloudshell whose time is over.
\<close>

section \<open>The time left\<close>

definition MaxTTL :: int where "MaxTTL = 9223372036"

lemma wrap64_id: "- (2 ^ 63) \<le> x \<Longrightarrow> x < 2 ^ 63 \<Longrightarrow> wrap64 x = x"
  by (simp add: wrap64_def sint_sbintrunc' signed_take_bit_int_eq_self)

lemma wrap64_shift: "wrap64 (x + 2 ^ 64) = wrap64 x"
proof -
  have "(word_of_int (x + 2 ^ 64) :: 64 word) = word_of_int x"
    by (rule word_of_int_eq_iff [THEN iffD2]) (simp add: take_bit_eq_mod)
  then show ?thesis unfolding wrap64_def by (rule arg_cong)
qed



section \<open>The end of a cloudshell\<close>

text \<open>The calls of a cloudshell's end: the shell is reset, pods are stored or deleted, route
  entries are removed, and the cloudshell is updated, deleted or marked complete.\<close>

fun winding_down :: "call \<Rightarrow> bool" where
  "winding_down (ExecPod _ cmd) = (cmd = [resetScriptPath])"
| "winding_down (UpdatePod _) = True"
| "winding_down (DeletePod _) = True"
| "winding_down (UpdateIngress _) = True"
| "winding_down (DeleteIngress _) = True"
| "winding_down (UpdateVirtualService _) = True"
| "winding_down (DeleteVirtualService _) = True"
| "winding_down (UpdateCloudShell _) = True"
| "winding_down (DeleteCloudShell _) = True"
| "winding_down (UpdateCloudShellStatus c) = (Phase (Status c) = PhaseCompleted)"
| "winding_down _ = False"

abbreviation wound_down :: "(call \<times> bool) list \<Rightarrow> bool" where
  "wound_down \<equiv> list_all (\<lambda>(d, _). winding_down d)"

lemma wound_down_allowed: "winding_down c \<Longrightarrow> allowed wound_down c"
  by (simp add: allowed_def)

lemma unroute_winding_down: "unroute_call c \<Longrightarrow> winding_down c"
  by (cases c) simp_all

lemma wound_down_remove: "keeps (call_inv C wound_down) (removeCloudshell K ck)"
  unfolding removeCloudshell_def ResetWorker_def removeFinalizer_def
  by (intro keeps_rules trace_exec trace_update_cs trace_Back trace_unroute wound_down_allowed)
    (simp_all add: unroute_winding_down)

lemma wound_down_finish: "keeps (call_inv C wound_down) (finish_expired K ck)"
  unfolding finish_expired_def Let_def
  by (intro keeps_rules wound_down_remove trace_write trace_status wound_down_allowed) simp_all

text \<open>What the removal keeps of the cached object.\<close>

definition same_spec :: "nsname \<Rightarrow> CloudShell \<Rightarrow> 'w sys \<Rightarrow> bool" where
  "same_spec ck c s \<longleftrightarrow>
     (\<exists>c'. map_of (csIndexer s) ck = Some c' \<and> Spec c' = Spec c \<and> nsname_of (cmeta c') = nsname_of (cmeta c))"

lemma same_spec_cong: "csIndexer s = csIndexer t \<Longrightarrow> same_spec ck c s = same_spec ck c t"
  by (simp add: same_spec_def)

lemma keeps_same_cs: "(\<And>s. csIndexer (snd (run_state m s)) = csIndexer s) \<Longrightarrow> keeps (same_spec ck c) m"
  by (rule keepsI) (metis same_spec_cong snd_conv)

lemma same_spec_set:
  "Spec c' = Spec c \<Longrightarrow> nsname_of (cmeta c') = nsname_of (cmeta c) \<Longrightarrow> same_spec ck c (set_cached_cs ck c' s)"
  by (simp add: same_spec_def)

context cloudshell_writes
begin

lemma keeps_spec_remove: "keeps (same_spec ck c) (removeCloudshell K ck)"
proof -
  have back_p: "keeps (same_spec ck c) (Back K p)" for p
    by (rule keeps_same_cs) (metis Back_cs prod.collapse)
  have route: "keeps (same_spec ck c) (removeCloudshellRoute K ck)"
    by (rule keeps_same_cs) (metis removeCloudshellRoute_calls(3) prod.collapse)
  have reset: "keeps (same_spec ck c) (ResetWorker K ck)"
    by (rule keeps_same_cs) (auto simp: ResetWorker_def execCommand_def Let_def run_simps split: prod.splits)
  have unbind: "keeps (same_spec ck c) (unbind_worker ck)"
    by (rule keepsI) (auto simp: unbind_worker_def write_cs_def cached_cs_def same_spec_def nsname_of_def)
  have fin: "keeps (same_spec ck c) (removeFinalizer K ck)"
  proof (rule keepsI)
    fix s a s'
    assume I: "same_spec ck c s" and run: "run_state (removeFinalizer K ck) s = (a, s')"
    obtain c0 where c0: "map_of (csIndexer s) ck = Some c0" "Spec c0 = Spec c" "nsname_of (cmeta c0) = nsname_of (cmeta c)"
      using I by (auto simp: same_spec_def)
    show "same_spec ck c s'"
      using run c0 update_cs_same(1,4)
      by (auto simp: removeFinalizer_def RemoveFinalizer_eq update_cs_def write_cs_def cached_cs_def run_simps
          nsname_of_def same_spec_def split: prod.splits sum.splits if_splits)
  qed
  show ?thesis
    unfolding removeCloudshell_def by (intro keeps_rules back_p route reset unbind fin)
qed

end

text \<open>
  Property C12. Synchronising a cloudshell whose time is over never starts a shell, creates
  nothing and never reports it ready: the only calls are the reset of the shell, storing or
  deleting pods, removing route entries, updating or deleting the cloudshell, and a status
  with phase complete. If it succeeds, it asks for no further synchronisation, and its last
  call, successful, deleted the cloudshell if it is to be cleaned up and set its phase to
  complete otherwise.
\<close>

theorem expired_cloudshell:
  assumes "cloudshell_writes K" "map_of (csIndexer s) ck = Some c"
    and "run_state (nextRequeueTimeDuration K ck) s = (Some d, s0)" "d < 0"
    and "run_state (syncCloudShell K ck) s = (r, s')"
  shows "\<exists>D. calls s' = calls s @ D \<and> list_all (\<lambda>(x, _). winding_down x) D \<and>
    (\<forall>t. r = Ok t \<longrightarrow> t = None \<and>
       (if Cleanup (Spec c) then last D = (DeleteCloudShell (nsname_of (cmeta c)), True)
        else \<exists>c'. last D = (UpdateCloudShellStatus c', True) \<and> Phase (Status c') = PhaseCompleted))"
proof -
  have s0: "calls s0 = calls s" "csIndexer s0 = csIndexer s"
    using assms(3) by (auto simp: nextRequeueTimeDuration_def run_simps split: option.splits prod.splits)
  have run: "run_state (finish_expired K ck) s0 = (r, s')"
    using assms(3-5) by (simp add: syncCloudShell_def)
  have "call_inv (calls s) wound_down s0" using s0 by (simp add: call_inv_def)
  then have "call_inv (calls s) wound_down s'" using run by (rule keepsD [OF wound_down_finish])
  then obtain D where D: "calls s' = calls s @ D" "wound_down D" by (auto simp: call_inv_def)
  have "t = None \<and> (if Cleanup (Spec c) then last D = (DeleteCloudShell (nsname_of (cmeta c)), True)
        else \<exists>c'. last D = (UpdateCloudShellStatus c', True) \<and> Phase (Status c') = PhaseCompleted)"
    if r: "r = Ok t" for t
  proof -
    obtain s1 where s1: "run_state (removeCloudshell K ck) s0 = (Ok (), s1)"
      using run r by (auto simp: finish_expired_def split: prod.splits sum.splits)
    have "same_spec ck c s0" using assms(2) s0 by (simp add: same_spec_def)
    then have "same_spec ck c s1" by (rule keepsD [OF cloudshell_writes.keeps_spec_remove [OF assms(1)] _ s1])
    then obtain c1 where c1: "map_of (csIndexer s1) ck = Some c1" "Spec c1 = Spec c"
        "nsname_of (cmeta c1) = nsname_of (cmeta c)" by (auto simp: same_spec_def)
    have "call_inv (calls s) wound_down s1"
      by (rule keepsD [OF wound_down_remove _ s1]) (simp add: call_inv_def s0)
    then obtain D1 where D1: "calls s1 = calls s @ D1" by (auto simp: call_inv_def)
    show ?thesis
    proof (cases "Cleanup (Spec c)")
      case True
      then have "t = None" "calls s' = calls s1 @ [(DeleteCloudShell (nsname_of (cmeta c)), True)]"
        using run r s1 c1
        by (auto simp: finish_expired_def cached_cs_def Let_def run_simps split: prod.splits sum.splits)
      then show ?thesis using True D(1) D1 by auto
    next
      case False
      then have t: "t = None" and u: "run_state (UpdateCloudshellStatus K ck PhaseCompleted) s1 = (Ok (), s')"
        using run r s1 c1
        by (auto simp: finish_expired_def cached_cs_def Let_def split: prod.splits sum.splits)
      from UpdateCloudshellStatus_tries [OF c1(1) u] show ?thesis
        using False t D(1) D1 by (auto simp: status_tries_def)
    qed
  qed
  then show ?thesis using D by blast
qed

theorem expired_cloudshell_witness:
  "let cs = bound_cs\<lparr>Spec := (Spec bound_cs)\<lparr>TTLSecondsAfterStarted := Some (-1), Cleanup := True\<rparr>\<rparr> in
   \<exists>D. calls (snd (run_state (syncCloudShell mem_kube (''ns'', ''a'')) (bound_sys cs))) = D \<and>
     list_all (\<lambda>(x, _). winding_down x) D"
proof -
  let ?cs = "bound_cs\<lparr>Spec := (Spec bound_cs)\<lparr>TTLSecondsAfterStarted := Some (-1), Cleanup := True\<rparr>\<rparr>"
  have "fst (run_state (nextRequeueTimeDuration mem_kube (''ns'', ''a'')) (bound_sys ?cs)) = Some (- 1000000000)"
    by code_simp
  then have "run_state (nextRequeueTimeDuration mem_kube (''ns'', ''a'')) (bound_sys ?cs) =
     (Some (- 1000000000), snd (run_state (nextRequeueTimeDuration mem_kube (''ns'', ''a'')) (bound_sys ?cs)))"
    by (metis prod.collapse)
  from expired_cloudshell [OF mem_cloudshells.cloudshell_writes_axioms bound_sys_cached(1) this _ surjective_pairing]
  show ?thesis by (simp add: Let_def)
qed

end
