(* ===== verification/Clientset.thy ===== *)
theory Clientset
  imports Rest_Client Informers Controller_Expiry
begin

text \<open>
  The generated client of \<open>pkg/generated/clientset/versioned\<close>: the construction of the
  clientset from a configuration (\<open>clientset.go\<close>, \<open>cloudshell_client.go\<close>) and the requests of the
  methods of \<open>CloudShells(ns)\<close> (\<open>typed/cloudshell/v1alpha1/cloudshell.go\<close>).

  The HTTP client, the discovery client, parsing the host's URL, the parameter codec and the
  body encoder are parameters. Options are an opaque type \<open>'o\<close> except for the fields of
  \<open>ListOptions\<close> that the client itself reads or writes.

  Shown: each method sends at most one request, namely for the object it is about, and none
  exactly in the cases listed.
\<close>

section \<open>Construction\<close>

record client_config =
  cHost :: string
  cUserAgent :: string
  APIPath :: string
  GroupVersion :: "(string \<times> string) option"
  NegotiatedSerializer :: "string option"
  cContentType :: string
  cQPS :: rat
  cBurst :: int
  cRateLimiter :: "limiter option"

record ('h, 'd) client_env =
  HTTPClientFor :: "client_config \<Rightarrow> 'h res"
  hTimeout :: "'h \<Rightarrow> int"
  DefaultServerPath :: "client_config \<Rightarrow> string res"
  NewDiscoveryClient :: "client_config \<Rightarrow> 'h \<Rightarrow> 'd res"
  DefaultKubernetesUserAgent :: string

record 'd clientset =
  DiscoveryClient :: 'd
  cloudshellV1alpha1 :: rest_client

definition res_bind :: "'a res \<Rightarrow> ('a \<Rightarrow> 'b res) \<Rightarrow> 'b res" where
  "res_bind r f = (case r of Inl e \<Rightarrow> Err e | Inr x \<Rightarrow> f x)"

definition DefaultVersionedAPIPath :: "string \<Rightarrow> string \<times> string \<Rightarrow> string" where
  "DefaultVersionedAPIPath apiPath gv =
     (let p = path_Join [''/'', apiPath]
      in if length (fst gv) > 0 then path_Join [p, fst gv, snd gv] else path_Join [p, snd gv])"

text \<open>
  \<open>RESTClientForConfigAndClient\<close> of client-go. The path of the base URL ends in a slash, and a
  client without a rate limiter gets one of 5 requests a second, and a burst of 10, by default.
\<close>

definition RESTClientForConfigAndClient :: "('h, 'd) client_env \<Rightarrow> client_config \<Rightarrow> 'h \<Rightarrow> rest_client res" where
  "RESTClientForConfigAndClient E config h =
     (case GroupVersion config of
        None \<Rightarrow> Err (Failure ''GroupVersion is required when initializing a RESTClient'')
      | Some gv \<Rightarrow>
          if NegotiatedSerializer config = None
          then Err (Failure ''NegotiatedSerializer is required when initializing a RESTClient'')
          else res_bind (DefaultServerPath E config) (\<lambda>base.
            let qps = (if cQPS config = 0 then 5 else cQPS config);
                burst = (if cBurst config = 0 then 10 else cBurst config);
                limiter = (case cRateLimiter config of
                    Some l \<Rightarrow> Some l
                  | None \<Rightarrow> if qps > 0 then Some (TokenBucket qps burst) else None)
            in Ok \<lparr>rateLimiter = limiter,
                   basePath = (if HasSuffix base ''/'' then base else base @ ''/''),
                   versionedAPIPath = DefaultVersionedAPIPath (APIPath config) gv,
                   clientTimeout = hTimeout E h,
                   clientContent = (if cContentType config = '''' then ''application/json'' else cContentType config)\<rparr>))"

text \<open>\<open>cloudshell_client.go\<close>.\<close>

definition setConfigDefaults :: "('h, 'd) client_env \<Rightarrow> client_config \<Rightarrow> client_config" where
  "setConfigDefaults E config =
     (let config = config\<lparr>GroupVersion := Some SchemeGroupVersion, APIPath := ''/apis'',
                          NegotiatedSerializer := Some ''scheme.Codecs''\<rparr>
      in if cUserAgent config = '''' then config\<lparr>cUserAgent := DefaultKubernetesUserAgent E\<rparr> else config)"

definition v1alpha1_NewForConfigAndClient :: "('h, 'd) client_env \<Rightarrow> client_config \<Rightarrow> 'h \<Rightarrow> rest_client res" where
  "v1alpha1_NewForConfigAndClient E c h = RESTClientForConfigAndClient E (setConfigDefaults E c) h"

definition v1alpha1_NewForConfig :: "('h, 'd) client_env \<Rightarrow> client_config \<Rightarrow> rest_client res" where
  "v1alpha1_NewForConfig E c =
     (let config = setConfigDefaults E c
      in res_bind (HTTPClientFor E config) (v1alpha1_NewForConfigAndClient E config))"

text \<open>The panic of the \<open>OrDie\<close> variants.\<close>

definition or_die :: "'a res \<Rightarrow> 'a res" where
  "or_die r = (case r of Inl e \<Rightarrow> Err (GoPanic ''error in the config'') | Inr x \<Rightarrow> Ok x)"

definition v1alpha1_NewForConfigOrDie :: "('h, 'd) client_env \<Rightarrow> client_config \<Rightarrow> rest_client res" where
  "v1alpha1_NewForConfigOrDie E c = or_die (v1alpha1_NewForConfig E c)"

definition v1alpha1_New :: "rest_client \<Rightarrow> rest_client" where
  "v1alpha1_New c = c"

definition RESTClient :: "rest_client option \<Rightarrow> rest_client option" where
  "RESTClient c = (case c of None \<Rightarrow> None | Some c \<Rightarrow> Some c)"

text \<open>\<open>clientset.go\<close>.\<close>

definition NewForConfigAndClient :: "('h, 'd) client_env \<Rightarrow> client_config \<Rightarrow> 'h \<Rightarrow> 'd clientset res" where
  "NewForConfigAndClient E c h =
     (if cRateLimiter c = None \<and> cQPS c > 0 \<and> cBurst c \<le> 0
      then Err (Failure ''burst is required to be greater than 0 when RateLimiter is not set and QPS is set to greater than 0'')
      else
        let config = (if cRateLimiter c = None \<and> cQPS c > 0
                      then c\<lparr>cRateLimiter := Some (TokenBucket (cQPS c) (cBurst c))\<rparr> else c)
        in res_bind (v1alpha1_NewForConfigAndClient E config h) (\<lambda>cs.
           res_bind (NewDiscoveryClient E config h) (\<lambda>d.
             Ok \<lparr>DiscoveryClient = d, cloudshellV1alpha1 = cs\<rparr>)))"

definition NewForConfig :: "('h, 'd) client_env \<Rightarrow> client_config \<Rightarrow> 'd clientset res" where
  "NewForConfig E c =
     (let config = (if cUserAgent c = '''' then c\<lparr>cUserAgent := DefaultKubernetesUserAgent E\<rparr> else c)
      in res_bind (HTTPClientFor E config) (NewForConfigAndClient E config))"

definition NewForConfigOrDie :: "('h, 'd) client_env \<Rightarrow> client_config \<Rightarrow> 'd clientset res" where
  "NewForConfigOrDie E c = or_die (NewForConfig E c)"

definition clientset_New :: "(rest_client \<Rightarrow> 'd) \<Rightarrow> rest_client \<Rightarrow> 'd clientset" where
  "clientset_New newDiscovery c = \<lparr>DiscoveryClient = newDiscovery c, cloudshellV1alpha1 = v1alpha1_New c\<rparr>"

definition CloudshellV1alpha1 :: "'d clientset \<Rightarrow> rest_client" where
  "CloudshellV1alpha1 c = cloudshellV1alpha1 c"

definition Discovery :: "'d clientset option \<Rightarrow> 'd option" where
  "Discovery c = map_option DiscoveryClient c"

section \<open>The requests for cloudshells\<close>

record cloudShells =
  csClient :: rest_client
  csNs :: string

definition newCloudShells :: "rest_client \<Rightarrow> string \<Rightarrow> cloudShells" where
  "newCloudShells c ns = \<lparr>csClient = c, csNs = ns\<rparr>"

definition CloudShells :: "rest_client \<Rightarrow> string \<Rightarrow> cloudShells" where
  "CloudShells c ns = newCloudShells c ns"

text \<open>Options: the fields of \<open>ListOptions\<close> that the client uses, and everything else.\<close>

record 'o list_options =
  TimeoutSeconds :: "int option"
  WatchOpt :: bool
  otherOpts :: 'o

datatype 'o options = Plain 'o | Listing "'o list_options"

datatype 'o body = CloudShellBody CloudShell | DeleteBody 'o

record 'o codec =
  EncodeParameters :: "'o options \<Rightarrow> (string \<times> string list) list res"
  EncodeBody :: "'o body \<Rightarrow> string res"

text \<open>\<open>time.Duration(*opts.TimeoutSeconds) * time.Second\<close> in 64 bits, 0 without one.\<close>

definition list_timeout :: "'o list_options \<Rightarrow> int" where
  "list_timeout opts = (case TimeoutSeconds opts of None \<Rightarrow> 0 | Some t \<Rightarrow> wrap64 (t * 10 ^ 9))"

definition begin_request :: "string \<Rightarrow> cloudShells \<Rightarrow> rest_request" where
  "begin_request v c = Resource ''cloudshells'' (request_Namespace (csNs c) (Verb v (csClient c)))"

definition Get_request :: "'o codec \<Rightarrow> cloudShells \<Rightarrow> string \<Rightarrow> 'o \<Rightarrow> rest_request" where
  "Get_request C c name opts =
     VersionedParams (EncodeParameters C) (Plain opts) (request_Name name (begin_request ''GET'' c))"

definition List_request :: "'o codec \<Rightarrow> cloudShells \<Rightarrow> 'o list_options \<Rightarrow> rest_request" where
  "List_request C c opts =
     Timeout (list_timeout opts) (VersionedParams (EncodeParameters C) (Listing opts) (begin_request ''GET'' c))"

definition Watch_request :: "'o codec \<Rightarrow> cloudShells \<Rightarrow> 'o list_options \<Rightarrow> rest_request" where
  "Watch_request C c opts =
     Timeout (list_timeout opts)
       (VersionedParams (EncodeParameters C) (Listing (opts\<lparr>WatchOpt := True\<rparr>)) (begin_request ''GET'' c))"

definition Create_request :: "'o codec \<Rightarrow> cloudShells \<Rightarrow> CloudShell option \<Rightarrow> 'o \<Rightarrow> rest_request" where
  "Create_request C c cs opts =
     Body_object (EncodeBody C) (map_option CloudShellBody cs)
       (VersionedParams (EncodeParameters C) (Plain opts) (begin_request ''POST'' c))"

definition Update_request :: "'o codec \<Rightarrow> cloudShells \<Rightarrow> CloudShell \<Rightarrow> 'o \<Rightarrow> rest_request" where
  "Update_request C c cs opts =
     Body_object (EncodeBody C) (Some (CloudShellBody cs))
       (VersionedParams (EncodeParameters C) (Plain opts)
         (request_Name (Name (cmeta cs)) (begin_request ''PUT'' c)))"

definition UpdateStatus_request :: "'o codec \<Rightarrow> cloudShells \<Rightarrow> CloudShell \<Rightarrow> 'o \<Rightarrow> rest_request" where
  "UpdateStatus_request C c cs opts =
     Body_object (EncodeBody C) (Some (CloudShellBody cs))
       (VersionedParams (EncodeParameters C) (Plain opts)
         (SubResource [''status''] (request_Name (Name (cmeta cs)) (begin_request ''PUT'' c))))"

definition Delete_request :: "'o codec \<Rightarrow> cloudShells \<Rightarrow> string \<Rightarrow> 'o \<Rightarrow> rest_request" where
  "Delete_request C c name opts =
     Body_object (EncodeBody C) (Some (DeleteBody opts)) (request_Name name (begin_request ''DELETE'' c))"

definition DeleteCollection_request :: "'o codec \<Rightarrow> cloudShells \<Rightarrow> 'o \<Rightarrow> 'o list_options \<Rightarrow> rest_request" where
  "DeleteCollection_request C c opts listOpts =
     Body_object (EncodeBody C) (Some (DeleteBody opts))
       (Timeout (list_timeout listOpts)
         (VersionedParams (EncodeParameters C) (Listing listOpts) (begin_request ''DELETE'' c)))"

definition Patch_request ::
  "'o codec \<Rightarrow> cloudShells \<Rightarrow> string \<Rightarrow> string \<Rightarrow> string \<Rightarrow> 'o \<Rightarrow> string list \<Rightarrow> rest_request" where
  "Patch_request C c name pt data opts subresources =
     Body_bytes data
       (VersionedParams (EncodeParameters C) (Plain opts)
         (SubResource subresources (request_Name name
           (Resource ''cloudshells'' (request_Namespace (csNs c) (client_Patch pt (csClient c)))))))"

section \<open>What is sent\<close>

text \<open>The methods as one type, with what the interface promises of each.\<close>

datatype 'o op =
    OpGet string 'o
  | OpList "'o list_options"
  | OpWatch "'o list_options"
  | OpCreate CloudShell 'o
  | OpUpdate CloudShell 'o
  | OpUpdateStatus CloudShell 'o
  | OpDelete string 'o
  | OpDeleteCollection 'o "'o list_options"
  | OpPatch string string string 'o "string list"

fun request_of :: "'o codec \<Rightarrow> cloudShells \<Rightarrow> 'o op \<Rightarrow> rest_request" where
  "request_of C c (OpGet name opts) = Get_request C c name opts"
| "request_of C c (OpList opts) = List_request C c opts"
| "request_of C c (OpWatch opts) = Watch_request C c opts"
| "request_of C c (OpCreate cs opts) = Create_request C c (Some cs) opts"
| "request_of C c (OpUpdate cs opts) = Update_request C c cs opts"
| "request_of C c (OpUpdateStatus cs opts) = UpdateStatus_request C c cs opts"
| "request_of C c (OpDelete name opts) = Delete_request C c name opts"
| "request_of C c (OpDeleteCollection opts lopts) = DeleteCollection_request C c opts lopts"
| "request_of C c (OpPatch name pt data opts subs) = Patch_request C c name pt data opts subs"

definition execute ::
  "(rest_request \<Rightarrow> 'w \<Rightarrow> 'a res \<times> 'w) \<Rightarrow> 'o codec \<Rightarrow> cloudShells \<Rightarrow> 'o op \<Rightarrow> 'w \<Rightarrow> 'a res \<times> 'w" where
  "execute send C c op w =
     (case op of OpWatch _ \<Rightarrow> Watch send (request_of C c op) w | _ \<Rightarrow> Do send (request_of C c op) w)"

fun op_verb :: "'o op \<Rightarrow> string" where
  "op_verb (OpGet _ _) = ''GET''"
| "op_verb (OpList _) = ''GET''"
| "op_verb (OpWatch _) = ''GET''"
| "op_verb (OpCreate _ _) = ''POST''"
| "op_verb (OpUpdate _ _) = ''PUT''"
| "op_verb (OpUpdateStatus _ _) = ''PUT''"
| "op_verb (OpDelete _ _) = ''DELETE''"
| "op_verb (OpDeleteCollection _ _) = ''DELETE''"
| "op_verb (OpPatch _ _ _ _ _) = ''PATCH''"

text \<open>The object a method is about, none for all cloudshells, and the subresource.\<close>

fun op_name :: "'o op \<Rightarrow> string option" where
  "op_name (OpGet name _) = Some name"
| "op_name (OpUpdate cs _) = Some (Name (cmeta cs))"
| "op_name (OpUpdateStatus cs _) = Some (Name (cmeta cs))"
| "op_name (OpDelete name _) = Some name"
| "op_name (OpPatch name _ _ _ _) = Some name"
| "op_name _ = None"

fun op_subs :: "'o op \<Rightarrow> string list" where
  "op_subs (OpUpdateStatus _ _) = [''status'']"
| "op_subs (OpPatch _ _ _ _ subs) = subs"
| "op_subs _ = []"

fun op_encodes :: "'o codec \<Rightarrow> 'o op \<Rightarrow> bool" where
  "op_encodes C (OpGet _ opts) = is_ok (EncodeParameters C (Plain opts))"
| "op_encodes C (OpList opts) = is_ok (EncodeParameters C (Listing opts))"
| "op_encodes C (OpWatch opts) = is_ok (EncodeParameters C (Listing (opts\<lparr>WatchOpt := True\<rparr>)))"
| "op_encodes C (OpCreate cs opts) = (is_ok (EncodeParameters C (Plain opts)) \<and> is_ok (EncodeBody C (CloudShellBody cs)))"
| "op_encodes C (OpUpdate cs opts) = (is_ok (EncodeParameters C (Plain opts)) \<and> is_ok (EncodeBody C (CloudShellBody cs)))"
| "op_encodes C (OpUpdateStatus cs opts) = (is_ok (EncodeParameters C (Plain opts)) \<and> is_ok (EncodeBody C (CloudShellBody cs)))"
| "op_encodes C (OpDelete _ opts) = is_ok (EncodeBody C (DeleteBody opts))"
| "op_encodes C (OpDeleteCollection opts lopts) = (is_ok (EncodeParameters C (Listing lopts)) \<and> is_ok (EncodeBody C (DeleteBody opts)))"
| "op_encodes C (OpPatch _ _ _ opts _) = is_ok (EncodeParameters C (Plain opts))"

text \<open>
  When a request is sent at all: the names are path segments, the options can be encoded, and
  only lists, watches, deletions of collections and patches go without a namespace.
\<close>

definition op_built :: "'o codec \<Rightarrow> string \<Rightarrow> 'o op \<Rightarrow> bool" where
  "op_built C ns op \<longleftrightarrow>
     IsValidPathSegmentName ns \<and>
     (case op_name op of None \<Rightarrow> True | Some n \<Rightarrow> n \<noteq> '''' \<and> IsValidPathSegmentName n) \<and>
     list_all IsValidPathSegmentName (op_subs op) \<and> op_encodes C op"

definition op_sent :: "'o codec \<Rightarrow> string \<Rightarrow> 'o op \<Rightarrow> bool" where
  "op_sent C ns op \<longleftrightarrow>
     op_built C ns op \<and> (ns = '''' \<longrightarrow> op_verb op = ''PATCH'' \<or> op_verb op \<noteq> ''POST'' \<and> op_name op = None)"

text \<open>The segments after the resource.\<close>

definition op_tail :: "'o op \<Rightarrow> string list" where
  "op_tail op = filter (\<lambda>s. s \<noteq> '''') (case_option [] (\<lambda>n. [n]) (op_name op) @ op_subs op)"

definition object_segments :: "string \<Rightarrow> 'o op \<Rightarrow> string list" where
  "object_segments ns op =
     (if ns = '''' then [] else [''namespaces'', ns]) @ [''cloudshells''] @ op_tail op"

subsection \<open>The setters\<close>

named_theorems request_simps \<open>the fields of a request under the setters\<close>

lemmas setter_defs = Resource_def SubResource_def request_Name_def request_Namespace_def VersionedParams_def
  Timeout_def Body_bytes_def Body_object_def unless_err_def fails_def add_params_def

lemma setter_err [request_simps]:
  "rerr (Resource x r) = None \<longleftrightarrow> rerr r = None \<and> resource r = '''' \<and> IsValidPathSegmentName x"
  "rerr (SubResource xs r) = None \<longleftrightarrow> rerr r = None \<and> subresource r = '''' \<and> list_all IsValidPathSegmentName xs"
  "rerr (request_Name x r) = None \<longleftrightarrow> rerr r = None \<and> x \<noteq> '''' \<and> resourceName r = '''' \<and> IsValidPathSegmentName x"
  "rerr (request_Namespace x r) = None \<longleftrightarrow> rerr r = None \<and> \<not> namespaceSet r \<and> IsValidPathSegmentName x"
  "rerr (VersionedParams enc o' r) = None \<longleftrightarrow> rerr r = None \<and> is_ok (enc o')"
  "rerr (Timeout d r) = rerr r"
  "rerr (Body_bytes b r) = rerr r"
  "rerr (Body_object encb (Some ob) r) = None \<longleftrightarrow> rerr r = None \<and> is_ok (encb ob)"
  by (auto simp: setter_defs is_ok_def split: sum.splits)

lemma setter_verb [request_simps]:
  "verb (Resource x r) = verb r" "verb (SubResource xs r) = verb r" "verb (request_Name x r) = verb r"
  "verb (request_Namespace x r) = verb r" "verb (VersionedParams enc o' r) = verb r" "verb (Timeout d r) = verb r"
  "verb (Body_bytes b r) = verb r" "verb (Body_object encb ob r) = verb r"
  by (simp_all add: setter_defs split: sum.splits option.splits)

lemma setter_prefix [request_simps]:
  "pathPrefix (Resource x r) = pathPrefix r" "pathPrefix (SubResource xs r) = pathPrefix r"
  "pathPrefix (request_Name x r) = pathPrefix r" "pathPrefix (request_Namespace x r) = pathPrefix r"
  "pathPrefix (VersionedParams enc o' r) = pathPrefix r" "pathPrefix (Timeout d r) = pathPrefix r"
  "pathPrefix (Body_bytes b r) = pathPrefix r" "pathPrefix (Body_object encb ob r) = pathPrefix r"
  by (simp_all add: setter_defs split: sum.splits option.splits)

lemma setter_subpath [request_simps]:
  "subpath (Resource x r) = subpath r" "subpath (SubResource xs r) = subpath r"
  "subpath (request_Name x r) = subpath r" "subpath (request_Namespace x r) = subpath r"
  "subpath (VersionedParams enc o' r) = subpath r" "subpath (Timeout d r) = subpath r"
  "subpath (Body_bytes b r) = subpath r" "subpath (Body_object encb ob r) = subpath r"
  by (simp_all add: setter_defs split: sum.splits option.splits)

lemma setter_namespace [request_simps]:
  "namespace (Resource x r) = namespace r" "namespace (SubResource xs r) = namespace r"
  "namespace (request_Name x r) = namespace r"
  "rerr (request_Namespace x r) = None \<Longrightarrow> namespace (request_Namespace x r) = x"
  "namespace (VersionedParams enc o' r) = namespace r" "namespace (Timeout d r) = namespace r"
  "namespace (Body_bytes b r) = namespace r" "namespace (Body_object encb ob r) = namespace r"
  by (auto simp: setter_defs split: sum.splits option.splits if_splits)

lemma setter_namespaceSet [request_simps]:
  "namespaceSet (Resource x r) = namespaceSet r" "namespaceSet (SubResource xs r) = namespaceSet r"
  "namespaceSet (request_Name x r) = namespaceSet r"
  "rerr (request_Namespace x r) = None \<Longrightarrow> namespaceSet (request_Namespace x r)"
  "namespaceSet (VersionedParams enc o' r) = namespaceSet r" "namespaceSet (Timeout d r) = namespaceSet r"
  "namespaceSet (Body_bytes b r) = namespaceSet r" "namespaceSet (Body_object encb ob r) = namespaceSet r"
  by (auto simp: setter_defs split: sum.splits option.splits if_splits)

lemma setter_resource [request_simps]:
  "rerr (Resource x r) = None \<Longrightarrow> resource (Resource x r) = x" "resource (SubResource xs r) = resource r"
  "resource (request_Name x r) = resource r" "resource (request_Namespace x r) = resource r"
  "resource (VersionedParams enc o' r) = resource r" "resource (Timeout d r) = resource r"
  "resource (Body_bytes b r) = resource r" "resource (Body_object encb ob r) = resource r"
  by (auto simp: setter_defs split: sum.splits option.splits if_splits)

lemma setter_resourceName [request_simps]:
  "resourceName (Resource x r) = resourceName r" "resourceName (SubResource xs r) = resourceName r"
  "rerr (request_Name x r) = None \<Longrightarrow> resourceName (request_Name x r) = x"
  "resourceName (request_Namespace x r) = resourceName r"
  "resourceName (VersionedParams enc o' r) = resourceName r" "resourceName (Timeout d r) = resourceName r"
  "resourceName (Body_bytes b r) = resourceName r" "resourceName (Body_object encb ob r) = resourceName r"
  by (auto simp: setter_defs split: sum.splits option.splits if_splits)

lemma setter_subresource [request_simps]:
  "subresource (Resource x r) = subresource r"
  "rerr (SubResource xs r) = None \<Longrightarrow> subresource (SubResource xs r) = path_Join xs"
  "subresource (request_Name x r) = subresource r" "subresource (request_Namespace x r) = subresource r"
  "subresource (VersionedParams enc o' r) = subresource r" "subresource (Timeout d r) = subresource r"
  "subresource (Body_bytes b r) = subresource r" "subresource (Body_object encb ob r) = subresource r"
  by (auto simp: setter_defs split: sum.splits option.splits if_splits)

lemma request_begin [request_simps]:
  "verb (Verb v c) = v" "pathPrefix (Verb v c) = path_Join [''/'', basePath c, versionedAPIPath c]"
  "subpath (Verb v c) = ''''" "\<not> namespaceSet (Verb v c)" "resource (Verb v c) = ''''"
  "resourceName (Verb v c) = ''''" "subresource (Verb v c) = ''''" "rerr (Verb v c) = None"
  by (simp_all add: Verb_def NewRequest_def)

lemma patch_begin [request_simps]:
  "verb (client_Patch pt c) = ''PATCH''" "pathPrefix (client_Patch pt c) = path_Join [''/'', basePath c, versionedAPIPath c]"
  "subpath (client_Patch pt c) = ''''" "\<not> namespaceSet (client_Patch pt c)" "resource (client_Patch pt c) = ''''"
  "resourceName (client_Patch pt c) = ''''" "subresource (client_Patch pt c) = ''''" "rerr (client_Patch pt c) = None"
  by (simp_all add: client_Patch_def Verb_def NewRequest_def)

lemmas request_defs = Get_request_def List_request_def Watch_request_def Create_request_def Update_request_def
  UpdateStatus_request_def Delete_request_def DeleteCollection_request_def Patch_request_def begin_request_def

subsection \<open>The requests of the methods\<close>

lemma Contains_char: "Contains s [c] \<longleftrightarrow> c \<in> set s"
  by (auto simp: Contains_def sublist_def in_set_conv_decomp)

lemma valid_segment: "IsValidPathSegmentName s \<Longrightarrow> s = '''' \<or> proper s"
  by (auto simp: IsValidPathSegmentName_def proper_def Contains_char)

lemma valid_consts: "IsValidPathSegmentName ''cloudshells''" "IsValidPathSegmentName ''status''"
  "proper ''cloudshells''" "proper ''status''" "proper ''namespaces''"
  by (simp_all add: IsValidPathSegmentName_def proper_def Contains_char)

lemma request_built: "rerr (request_of C c op) = None \<longleftrightarrow> op_built C (csNs c) op"
  by (cases op) (auto simp: op_built_def request_defs request_simps valid_consts)

lemma request_verb: "verb (request_of C c op) = op_verb op"
  by (cases op) (simp_all add: request_defs request_simps)

lemma request_fields:
  assumes "op_built C (csNs c) op"
  shows "pathPrefix (request_of C c op) = path_Join [''/'', basePath (csClient c), versionedAPIPath (csClient c)]"
    "subpath (request_of C c op) = ''''" "namespaceSet (request_of C c op)" "namespace (request_of C c op) = csNs c"
    "resource (request_of C c op) = ''cloudshells''" "resourceName (request_of C c op) = case_option '''' id (op_name op)"
    "subresource (request_of C c op) = path_Join (op_subs op)"
  using assms
  by (cases op; simp add: op_built_def request_defs request_simps valid_consts path_Join_def; fail)+

lemma URL_path_segments:
  assumes "pathPrefix r = abs_path pre" "list_all proper pre" "subpath r = ''''" "namespaceSet r"
    "namespace r = '''' \<or> proper (namespace r)" "proper (resource r)"
    "resourceName r = '''' \<or> proper (resourceName r)" "list_all proper (segs (subresource r))"
  shows "URL_path r = abs_path (pre @ (if namespace r = '''' then [] else [''namespaces'', namespace r]) @ [resource r] @
    segs (resourceName r) @ segs (subresource r))"
proof -
  define ns where "ns = (if namespace r = '''' then [] else [''namespaces'', namespace r])"
  have ns: "list_all proper (pre @ ns)" using assms(2,5) valid_consts by (auto simp: ns_def)
  have p1: "(if namespaceSet r \<and> length (namespace r) > 0 then path_Join [pathPrefix r, ''namespaces'', namespace r]
      else pathPrefix r) = abs_path (pre @ ns)"
    using assms(1,4,5) path_Join_segs [OF assms(2), of "[''namespaces'', namespace r]"] valid_consts
    by (auto simp: ns_def segs_segment)
  have p2: "path_Join [abs_path (pre @ ns), resource r] = abs_path (pre @ ns @ [resource r])"
    using path_Join_segs [OF ns, of "[resource r]"] assms(6) by (simp add: segs_segment)
  have "list_all proper (pre @ ns @ [resource r])" using ns assms(6) by simp
  moreover have name: "list_all proper (segs (resourceName r))" using assms(7) by (auto simp: segs_segment)
  ultimately have p3: "path_Join [abs_path (pre @ ns @ [resource r]), resourceName r, subresource r, subpath r] =
      abs_path (pre @ ns @ [resource r] @ segs (resourceName r) @ segs (subresource r))"
    using path_Join_segs [of "pre @ ns @ [resource r]" "[resourceName r, subresource r, subpath r]"] assms(3,8)
    by (simp add: segs_segment)
  have "resource r \<noteq> ''''" using assms(6) by (simp add: proper_def)
  then show ?thesis
    using p1 p2 p3 assms(3) unfolding URL_path_def Let_def ns_def [symmetric] by (auto simp: segs_segment)
qed

text \<open>Where a client that was made from a configuration sends its requests.\<close>

lemma api_path: "DefaultVersionedAPIPath ''/apis'' SchemeGroupVersion = abs_path [''apis'', GroupName, ''v1alpha1'']"
  by code_simp

lemma RESTClient_path:
  "RESTClientForConfigAndClient E config h = Ok k \<Longrightarrow> GroupVersion config = Some gv \<Longrightarrow>
   versionedAPIPath k = DefaultVersionedAPIPath (APIPath config) gv"
  by (auto simp: RESTClientForConfigAndClient_def res_bind_def Let_def split: sum.splits if_splits)

lemma client_prefix:
  assumes "NewForConfig E cfg = Ok cs"
  shows "\<exists>hs. list_all proper hs \<and>
    path_Join [''/'', basePath (CloudshellV1alpha1 cs), versionedAPIPath (CloudshellV1alpha1 cs)] =
      abs_path (hs @ [''apis'', GroupName, ''v1alpha1''])"
proof -
  let ?k = "CloudshellV1alpha1 cs"
  obtain config h where "v1alpha1_NewForConfigAndClient E config h = Ok ?k"
    using assms
    by (auto simp: NewForConfig_def NewForConfigAndClient_def res_bind_def Let_def CloudshellV1alpha1_def
        split: sum.splits if_splits)
  moreover have gv: "GroupVersion (setConfigDefaults E config) = Some SchemeGroupVersion"
    "APIPath (setConfigDefaults E config) = ''/apis''" by (simp_all add: setConfigDefaults_def Let_def)
  ultimately have api: "versionedAPIPath ?k = abs_path [''apis'', GroupName, ''v1alpha1'']"
    using api_path RESTClient_path [of E "setConfigDefaults E config" h ?k]
    by (simp add: v1alpha1_NewForConfigAndClient_def)
  let ?hs = "clean_segs True [] (Split (basePath ?k) ''/'')"
  have hs: "list_all proper ?hs" by (rule clean_segs_rooted) (auto dest: Split_no_sep)
  have "Split (abs_path [''apis'', GroupName, ''v1alpha1'']) ''/'' = ['''', ''apis'', GroupName, ''v1alpha1'']"
    by code_simp
  moreover have "proper ''apis''" "proper GroupName" "proper ''v1alpha1''" by code_simp+
  ultimately have "path_Join [''/'', basePath ?k, versionedAPIPath ?k] = abs_path (?hs @ [''apis'', GroupName, ''v1alpha1''])"
    using path_Join_rooted [of "''''" "[basePath ?k, versionedAPIPath ?k]"] api
    by (simp add: clean_segs_append clean_segs_proper Split_def split_from_char proper_def)
  with hs show ?thesis by blast
qed

lemma request_path:
  assumes "op_built C ns op" "list_all proper pre" "path_Join [''/'', basePath k, versionedAPIPath k] = abs_path pre"
  shows "URL_path (request_of C (CloudShells k ns) op) = abs_path (pre @ object_segments ns op)"
    "list_all proper (object_segments ns op)"
proof -
  have c: "op_built C (csNs (CloudShells k ns)) op" using assms(1) by (simp add: CloudShells_def newCloudShells_def)
  note f = request_fields [OF c]
  have subs: "list_all (\<lambda>s. s = '''' \<or> proper s) (op_subs op)"
    using assms(1) valid_segment by (auto simp: op_built_def list_all_iff)
  have name: "op_name op = Some n \<Longrightarrow> proper n" for n
    using assms(1) valid_segment [of n] by (auto simp: op_built_def)
  have ns: "ns = '''' \<or> proper ns" using assms(1) valid_segment by (simp add: op_built_def)
  have tail: "segs (case_option '''' id (op_name op)) @ filter (\<lambda>s. s \<noteq> '''') (op_subs op) = op_tail op"
    using name by (auto simp: op_tail_def segs_segment proper_def split: option.splits)
  have "list_all proper (op_tail op)"
    using name subs by (auto simp: op_tail_def list_all_iff split: option.splits)
  then show "list_all proper (object_segments ns op)"
    using ns valid_consts by (auto simp: object_segments_def)
  have "list_all proper (segs (path_Join (op_subs op)))"
    using segs_path_Join [OF subs] subs by (auto simp: list_all_iff)
  moreover have "case_option '''' id (op_name op) = '''' \<or> proper (case_option '''' id (op_name op))"
    using name by (auto split: option.splits)
  ultimately show "URL_path (request_of C (CloudShells k ns) op) = abs_path (pre @ object_segments ns op)"
    using URL_path_segments [of "request_of C (CloudShells k ns) op" pre] f assms(2,3) ns valid_consts segs_path_Join [OF subs] tail
    by (simp add: CloudShells_def newCloudShells_def object_segments_def)
qed

lemma object_segments_inj:
  assumes "object_segments ns op = object_segments ns' op'" shows "ns = ns' \<and> op_tail op = op_tail op'"
  using assms by (auto simp: object_segments_def split: if_splits)

lemma execute_sent:
  "execute send C (CloudShells k ns) op w =
     (if op_sent C ns op then send (request_of C (CloudShells k ns) op) w
      else (Err (case rerr (request_of C (CloudShells k ns) op) of
              Some e \<Rightarrow> e | None \<Rightarrow> the (requestPreflightCheck (request_of C (CloudShells k ns) op))), w))"
proof (cases "op_built C ns op")
  case True
  then have c: "op_built C (csNs (CloudShells k ns)) op" by (simp add: CloudShells_def newCloudShells_def)
  from request_built [of C "CloudShells k ns" op] c have e: "rerr (request_of C (CloudShells k ns) op) = None" by simp
  have "requestPreflightCheck (request_of C (CloudShells k ns) op) = None \<longleftrightarrow>
      ns \<noteq> '''' \<or> op_verb op \<noteq> ''POST'' \<and> \<not> (op_verb op \<in> {''GET'', ''PUT'', ''DELETE''} \<and> op_name op \<noteq> None)"
    using request_fields [OF c] request_verb [of C "CloudShells k ns" op] True
    by (auto simp: requestPreflightCheck_def CloudShells_def newCloudShells_def op_built_def split: option.splits)
  with True e show ?thesis
    by (cases op) (auto simp: execute_def Do_def Watch_def op_sent_def)
next
  case False
  then have "rerr (request_of C (CloudShells k ns) op) \<noteq> None"
    using request_built [of C "CloudShells k ns" op] by (simp add: CloudShells_def newCloudShells_def)
  then obtain e where "rerr (request_of C (CloudShells k ns) op) = Some e" by blast
  with False show ?thesis by (cases op) (simp_all add: execute_def Do_def Watch_def op_sent_def)
qed

text \<open>
  A configured rate is honoured: it is refused without a burst, and otherwise the client has
  a token bucket of exactly that rate and burst.
\<close>

theorem configured_rate:
  assumes "cRateLimiter cfg = None" "cQPS cfg > 0"
  shows "cBurst cfg \<le> 0 \<Longrightarrow> \<not> is_ok (NewForConfig E cfg)"
    and "NewForConfig E cfg = Ok cs \<Longrightarrow>
      rateLimiter (CloudshellV1alpha1 cs) = Some (TokenBucket (cQPS cfg) (cBurst cfg))"
  using assms
  by (auto simp: NewForConfig_def NewForConfigAndClient_def v1alpha1_NewForConfigAndClient_def setConfigDefaults_def
      RESTClientForConfigAndClient_def CloudshellV1alpha1_def res_bind_def Let_def is_ok_def split: sum.splits if_splits)

text \<open>
  The timeout of a list is the given number of seconds only up to 9223372036 of them; above,
  the product wraps around.
\<close>

theorem list_timeout_exact:
  assumes "TimeoutSeconds opts = Some t"
  shows "0 \<le> t \<and> t \<le> 9223372036 \<Longrightarrow> list_timeout opts = t * 10 ^ 9"
    and "t = 9223372037 \<Longrightarrow> list_timeout opts < 0"
proof -
  show "0 \<le> t \<and> t \<le> 9223372036 \<Longrightarrow> list_timeout opts = t * 10 ^ 9"
    using assms by (simp add: list_timeout_def wrap64_id)
  have "wrap64 (9223372037 * 10 ^ 9) < 0" by code_simp
  then show "t = 9223372037 \<Longrightarrow> list_timeout opts < 0" using assms by (simp add: list_timeout_def)
qed

text \<open>
  Property C26. A client made from a configuration sends for each call exactly one request,
  with the verb of the method, to the path of the object: the host's own path,
  \<open>/apis/cloudshell.cloudtty.io/v1alpha1\<close>, the namespace if there is one, \<open>cloudshells\<close>, the
  name and the subresource. It sends none, and returns an error, exactly if the namespace,
  the name or a subresource is no path segment, the name is missing, something cannot be
  encoded, or a single object is addressed without a namespace other than by a patch. Calls
  about different namespaces, objects or subresources never go to the same path.
\<close>

theorem client_requests:
  assumes "NewForConfig E cfg = Ok cs"
  shows "\<exists>hs. list_all proper hs \<and>
    (\<forall>(C :: 'o codec) ns op. op_sent C ns op \<longrightarrow>
       (\<exists>r. execute send C (CloudShells (CloudshellV1alpha1 cs) ns) op w = send r w \<and> verb r = op_verb op \<and>
         URL_path r = abs_path (hs @ [''apis'', GroupName, ''v1alpha1''] @ object_segments ns op))) \<and>
    (\<forall>(C :: 'o codec) ns op. \<not> op_sent C ns op \<longrightarrow>
       (\<exists>e. execute send C (CloudShells (CloudshellV1alpha1 cs) ns) op w = (Err e, w))) \<and>
    (\<forall>(C :: 'o codec) ns op ns' op'. op_sent C ns op \<and> op_sent C ns' op' \<and>
       URL_path (request_of C (CloudShells (CloudshellV1alpha1 cs) ns) op) =
         URL_path (request_of C (CloudShells (CloudshellV1alpha1 cs) ns') op') \<longrightarrow>
       ns = ns' \<and> op_tail op = op_tail op')"
proof -
  let ?k = "CloudshellV1alpha1 cs"
  obtain hs where hs: "list_all proper hs"
    "path_Join [''/'', basePath ?k, versionedAPIPath ?k] = abs_path (hs @ [''apis'', GroupName, ''v1alpha1''])"
    using client_prefix [OF assms] by blast
  let ?pre = "hs @ [''apis'', GroupName, ''v1alpha1'']"
  have "proper ''apis''" "proper GroupName" "proper ''v1alpha1''" by code_simp+
  with hs(1) have pre: "list_all proper ?pre" by simp
  have path: "URL_path (request_of C (CloudShells ?k ns) op) = abs_path (?pre @ object_segments ns op)"
    "list_all proper (?pre @ object_segments ns op)" if "op_sent C ns op" for C ns and op :: "'o op"
    using request_path [OF _ pre hs(2), of C ns op] that pre by (simp_all add: op_sent_def)
  have "ns = ns' \<and> op_tail op = op_tail op'"
    if "op_sent C ns op" "op_sent C ns' op'"
      "URL_path (request_of C (CloudShells ?k ns) op) = URL_path (request_of C (CloudShells ?k ns') op')"
    for C ns ns' and op op' :: "'o op"
    using abs_path_inj [of "?pre @ object_segments ns op" "?pre @ object_segments ns' op'"] path that object_segments_inj by simp
  moreover have "\<exists>r. execute send C (CloudShells ?k ns) op w = send r w \<and> verb r = op_verb op \<and>
      URL_path r = abs_path (hs @ [''apis'', GroupName, ''v1alpha1''] @ object_segments ns op)"
    if "op_sent C ns op" for C ns and op :: "'o op"
    using path(1) [OF that] execute_sent [of send C ?k ns op w] that request_verb [of C "CloudShells ?k ns" op] by auto
  moreover have "\<exists>e. execute send C (CloudShells ?k ns) op w = (Err e, w)" if "\<not> op_sent C ns op" for C ns and op :: "'o op"
    using execute_sent [of send C ?k ns op w] that by simp
  ultimately show ?thesis using hs(1) by blast
qed

definition sample_client_env :: "(unit, unit) client_env" where
  "sample_client_env =
     \<lparr>HTTPClientFor = (\<lambda>_. Ok ()), hTimeout = (\<lambda>_. 0), DefaultServerPath = (\<lambda>_. Ok ''''),
      NewDiscoveryClient = (\<lambda>_ _. Ok ()), DefaultKubernetesUserAgent = ''cloudtty''\<rparr>"

definition sample_client_config :: client_config where
  "sample_client_config =
     \<lparr>cHost = ''https://10.0.0.1'', cUserAgent = '''', APIPath = '''', GroupVersion = None, NegotiatedSerializer = None,
      cContentType = '''', cQPS = 40, cBurst = 60, cRateLimiter = None\<rparr>"

definition sample_codec :: "unit codec" where
  "sample_codec = \<lparr>EncodeParameters = (\<lambda>_. Ok []), EncodeBody = (\<lambda>_. Ok ''{}'')\<rparr>"

theorem client_requests_witness:
  "\<exists>cs. NewForConfig sample_client_env sample_client_config = Ok cs \<and>
     (\<exists>e. execute (\<lambda>r w. (Ok r, Suc w)) sample_codec (CloudShells (CloudshellV1alpha1 cs) ''ns'') (OpGet '''' ()) 0 = (Err e, 0)) \<and>
     (\<exists>r. execute (\<lambda>r w. (Ok r, Suc w)) sample_codec (CloudShells (CloudshellV1alpha1 cs) ''ns'') (OpDelete ''a'' ()) 0 = (Ok r, 1) \<and>
        verb r = ''DELETE'')"
proof -
  have "is_ok (NewForConfig sample_client_env sample_client_config)" by code_simp
  then obtain cs where cs: "NewForConfig sample_client_env sample_client_config = Ok cs" by (rule is_okE)
  have sent: "op_sent sample_codec ''ns'' (OpDelete ''a'' ())" "\<not> op_sent sample_codec ''ns'' (OpGet '''' ())" by code_simp+
  have "\<exists>e. execute (\<lambda>r w. (Ok r, Suc w)) sample_codec (CloudShells (CloudshellV1alpha1 cs) ''ns'') (OpGet '''' ()) 0 = (Err e, 0)"
    using client_requests [OF cs, of "\<lambda>r w. (Ok r, Suc w)" 0] sent(2) by blast
  moreover have "\<exists>r. execute (\<lambda>r w. (Ok r, Suc w)) sample_codec (CloudShells (CloudshellV1alpha1 cs) ''ns'') (OpDelete ''a'' ()) 0 = (Ok r, 1) \<and>
        verb r = ''DELETE''"
    using client_requests [OF cs, of "\<lambda>r w. (Ok r, Suc w)" 0] sent(1) by (metis One_nat_def op_verb.simps(7))
  ultimately show ?thesis using cs by blast
qed

end
