(* ===== verification/Fake_Client.thy ===== *)
theory Fake_Client
  imports Clientset
begin

text \<open>
  The generated fake clientset (\<open>clientset/versioned/fake\<close>, \<open>typed/cloudshell/v1alpha1/fake\<close>) on top
  of \<open>Fake\<close> of \<open>k8s.io/client-go/testing\<close>: a call records an action and asks the reactors in
  turn. The reactors, with whatever state \<open>'w\<close> they have, are given with the fake; the object
  tracker of \<open>NewSimpleClientset\<close> is one of them.

  Shown: whatever the reactors do, a call of the fake records exactly one action, and this is
  the verb and the object that the real client would address.
\<close>

section \<open>Actions and reactors\<close>

record action =
  aVerb :: string
  aResource :: "(string \<times> string) \<times> string"
  aSubresource :: string
  aNamespace :: string
  aName :: string
  aObject :: "CloudShell option"

definition cloudshellsResource :: "(string \<times> string) \<times> string" where
  "cloudshellsResource = (SchemeGroupVersion, ''cloudshells'')"

definition new_action :: "string \<Rightarrow> string \<Rightarrow> action" where
  "new_action v ns =
     \<lparr>aVerb = v, aResource = cloudshellsResource, aSubresource = '''', aNamespace = ns, aName = '''', aObject = None\<rparr>"

definition NewGetAction :: "string \<Rightarrow> string \<Rightarrow> action" where
  "NewGetAction ns name = (new_action ''get'' ns)\<lparr>aName := name\<rparr>"

definition NewListAction :: "string \<Rightarrow> action" where
  "NewListAction ns = new_action ''list'' ns"

definition NewWatchAction :: "string \<Rightarrow> action" where
  "NewWatchAction ns = new_action ''watch'' ns"

definition NewCreateAction :: "string \<Rightarrow> CloudShell \<Rightarrow> action" where
  "NewCreateAction ns c = (new_action ''create'' ns)\<lparr>aObject := Some c\<rparr>"

definition NewUpdateAction :: "string \<Rightarrow> CloudShell \<Rightarrow> action" where
  "NewUpdateAction ns c = (new_action ''update'' ns)\<lparr>aObject := Some c\<rparr>"

definition NewUpdateSubresourceAction :: "string \<Rightarrow> string \<Rightarrow> CloudShell \<Rightarrow> action" where
  "NewUpdateSubresourceAction sub ns c = (new_action ''update'' ns)\<lparr>aSubresource := sub, aObject := Some c\<rparr>"

definition NewDeleteActionWithOptions :: "string \<Rightarrow> string \<Rightarrow> action" where
  "NewDeleteActionWithOptions ns name = (new_action ''delete'' ns)\<lparr>aName := name\<rparr>"

definition NewDeleteCollectionAction :: "string \<Rightarrow> action" where
  "NewDeleteCollectionAction ns = new_action ''delete-collection'' ns"

definition NewPatchSubresourceAction :: "string \<Rightarrow> string \<Rightarrow> string list \<Rightarrow> action" where
  "NewPatchSubresourceAction ns name subs = (new_action ''patch'' ns)\<lparr>aSubresource := path_Join subs, aName := name\<rparr>"

text \<open>What a reactor answers: whether it handles the action, an object or nil, and an error.\<close>

datatype ret = RShell CloudShell | RShells "CloudShell list" | RWatch nat

type_synonym 'w reactor = "(action \<Rightarrow> bool) \<times> (action \<Rightarrow> 'w \<Rightarrow> (bool \<times> ret option \<times> err option) \<times> 'w)"

record 'w Fake =
  actions :: "action list"
  ReactionChain :: "'w reactor list"
  WatchReactionChain :: "'w reactor list"
  tracker :: 'w

fun react :: "'w reactor list \<Rightarrow> action \<Rightarrow> 'w \<Rightarrow> (ret option \<times> err option) option \<times> 'w" where
  "react [] a w = (None, w)"
| "react ((handles, f) # chain) a w =
     (if \<not> handles a then react chain a w
      else case f a w of ((handled, r), w') \<Rightarrow> if \<not> handled then react chain a w' else (Some r, w'))"

definition Invokes :: "action \<Rightarrow> ret \<Rightarrow> 'w Fake \<Rightarrow> (ret option \<times> err option) \<times> 'w Fake" where
  "Invokes a defaultReturnObj f =
     (case react (ReactionChain f) a (tracker f) of
        (r, w) \<Rightarrow> (case r of None \<Rightarrow> (Some defaultReturnObj, None) | Some r \<Rightarrow> r, f\<lparr>actions := actions f @ [a], tracker := w\<rparr>))"

definition InvokesWatch :: "action \<Rightarrow> 'w Fake \<Rightarrow> (ret option \<times> err option) \<times> 'w Fake" where
  "InvokesWatch a f =
     (case react (WatchReactionChain f) a (tracker f) of
        (r, w) \<Rightarrow> (case r of None \<Rightarrow> (None, Some (Failure ''unhandled watch'')) | Some r \<Rightarrow> r,
                   f\<lparr>actions := actions f @ [a], tracker := w\<rparr>))"

section \<open>The methods\<close>

definition zero_shell :: CloudShell where
  "zero_shell =
     \<lparr>cmeta = blank_meta '''' '''',
      Spec = \<lparr>SecretRef = None, Image = '''', Once = False, CommandAction = '''', TTLSecondsAfterStarted = None, Cleanup = False,
        ExposeMode = '''', IngConfig = None, VsConfig = None, PathPrefix = '''', PathSuffix = '''', UrlArg = False,
        Env = [], TtydClientOptions = None\<rparr>,
      Status = \<lparr>Phase = '''', AccessURL = '''', LastScheduleTime = None\<rparr>\<rparr>"

text \<open>
  A method returns an object or nil together with an error or nil; the type assertion on
  what the reactor gave panics for an object of another type.
\<close>

type_synonym 'a reply = "('a option \<times> err option) res"

definition as_shell :: "ret option \<times> err option \<Rightarrow> CloudShell reply" where
  "as_shell r =
     (case fst r of
        None \<Rightarrow> Ok (None, snd r)
      | Some (RShell c) \<Rightarrow> Ok (Some c, snd r)
      | Some _ \<Rightarrow> Err (GoPanic ''interface conversion''))"

definition fake_Get :: "string \<Rightarrow> string \<Rightarrow> 'w Fake \<Rightarrow> CloudShell reply \<times> 'w Fake" where
  "fake_Get ns name f = apfst as_shell (Invokes (NewGetAction ns name) (RShell zero_shell) f)"

text \<open>\<open>List\<close> filters by the label selector once more, \<open>None\<close> being the one of everything.\<close>

definition fake_List :: "string \<Rightarrow> (gomap \<Rightarrow> bool) option \<Rightarrow> 'w Fake \<Rightarrow> CloudShell list reply \<times> 'w Fake" where
  "fake_List ns label f =
     (case Invokes (NewListAction ns) (RShells []) f of
        (r, f') \<Rightarrow>
          (case fst r of
             None \<Rightarrow> Ok (None, snd r)
           | Some (RShells items) \<Rightarrow>
               Ok (Some (filter (\<lambda>c. case label of None \<Rightarrow> True | Some m \<Rightarrow> m (Labels (cmeta c))) items), snd r)
           | Some _ \<Rightarrow> Err (GoPanic ''interface conversion''), f'))"

definition fake_Watch :: "string \<Rightarrow> 'w Fake \<Rightarrow> (ret option \<times> err option) \<times> 'w Fake" where
  "fake_Watch ns f = InvokesWatch (NewWatchAction ns) f"

definition fake_Create :: "string \<Rightarrow> CloudShell \<Rightarrow> 'w Fake \<Rightarrow> CloudShell reply \<times> 'w Fake" where
  "fake_Create ns c f = apfst as_shell (Invokes (NewCreateAction ns c) (RShell zero_shell) f)"

definition fake_Update :: "string \<Rightarrow> CloudShell \<Rightarrow> 'w Fake \<Rightarrow> CloudShell reply \<times> 'w Fake" where
  "fake_Update ns c f = apfst as_shell (Invokes (NewUpdateAction ns c) (RShell zero_shell) f)"

definition fake_UpdateStatus :: "string \<Rightarrow> CloudShell \<Rightarrow> 'w Fake \<Rightarrow> CloudShell reply \<times> 'w Fake" where
  "fake_UpdateStatus ns c f =
     apfst as_shell (Invokes (NewUpdateSubresourceAction ''status'' ns c) (RShell zero_shell) f)"

definition fake_Delete :: "string \<Rightarrow> string \<Rightarrow> 'w Fake \<Rightarrow> err option \<times> 'w Fake" where
  "fake_Delete ns name f = apfst snd (Invokes (NewDeleteActionWithOptions ns name) (RShell zero_shell) f)"

definition fake_DeleteCollection :: "string \<Rightarrow> 'w Fake \<Rightarrow> err option \<times> 'w Fake" where
  "fake_DeleteCollection ns f = apfst snd (Invokes (NewDeleteCollectionAction ns) (RShells []) f)"

definition fake_Patch :: "string \<Rightarrow> string \<Rightarrow> string list \<Rightarrow> 'w Fake \<Rightarrow> CloudShell reply \<times> 'w Fake" where
  "fake_Patch ns name subs f =
     apfst as_shell (Invokes (NewPatchSubresourceAction ns name subs) (RShell zero_shell) f)"

text \<open>
  \<open>NewSimpleClientset\<close>: one reactor for everything that asks the object tracker, and one for
  watches. The tracker, its \<open>Add\<close>, \<open>ObjectReaction\<close> and \<open>Watch\<close>, are parameters.
\<close>

fun add_objects :: "('o \<Rightarrow> 'w \<Rightarrow> 'w res) \<Rightarrow> 'o list \<Rightarrow> 'w \<Rightarrow> 'w res" where
  "add_objects add [] w = Ok w"
| "add_objects add (obj # objs) w =
     (case add obj w of Inl e \<Rightarrow> Err (GoPanic ''object refused'') | Inr w' \<Rightarrow> add_objects add objs w')"

definition NewSimpleClientset ::
  "('o \<Rightarrow> 'w \<Rightarrow> 'w res) \<Rightarrow> (action \<Rightarrow> 'w \<Rightarrow> (bool \<times> ret option \<times> err option) \<times> 'w) \<Rightarrow>
   ((string \<times> string) \<times> string \<Rightarrow> string \<Rightarrow> 'w \<Rightarrow> nat res \<times> 'w) \<Rightarrow> 'w \<Rightarrow> 'o list \<Rightarrow> 'w Fake res" where
  "NewSimpleClientset add objectReaction watch w0 objs =
     (case add_objects add objs w0 of
        Inl e \<Rightarrow> Err e
      | Inr w \<Rightarrow> Ok
          \<lparr>actions = [], ReactionChain = [(\<lambda>_. True, objectReaction)],
           WatchReactionChain = [(\<lambda>_. True, \<lambda>a w. case watch (aResource a) (aNamespace a) w of
               (Inl e, w') \<Rightarrow> ((False, None, Some e), w')
             | (Inr i, w') \<Rightarrow> ((True, Some (RWatch i), None), w'))],
           tracker = w\<rparr>)"

section \<open>The fake addresses what the client addresses\<close>

fun fake_execute :: "string \<Rightarrow> 'o op \<Rightarrow> 'w Fake \<Rightarrow> 'w Fake" where
  "fake_execute ns (OpGet name _) f = snd (fake_Get ns name f)"
| "fake_execute ns (OpList _) f = snd (fake_List ns None f)"
| "fake_execute ns (OpWatch _) f = snd (fake_Watch ns f)"
| "fake_execute ns (OpCreate c _) f = snd (fake_Create ns c f)"
| "fake_execute ns (OpUpdate c _) f = snd (fake_Update ns c f)"
| "fake_execute ns (OpUpdateStatus c _) f = snd (fake_UpdateStatus ns c f)"
| "fake_execute ns (OpDelete name _) f = snd (fake_Delete ns name f)"
| "fake_execute ns (OpDeleteCollection _ _) f = snd (fake_DeleteCollection ns f)"
| "fake_execute ns (OpPatch name _ _ _ subs) f = snd (fake_Patch ns name subs f)"

definition http_verb :: "string \<Rightarrow> string" where
  "http_verb v =
     (if v \<in> {''get'', ''list'', ''watch''} then ''GET'' else if v = ''create'' then ''POST''
      else if v = ''update'' then ''PUT'' else if v \<in> {''delete'', ''delete-collection''} then ''DELETE'' else ''PATCH'')"

text \<open>The object of an action: an update is about the object it carries.\<close>

definition action_segments :: "action \<Rightarrow> string list" where
  "action_segments a =
     (if aNamespace a = '''' then [] else [''namespaces'', aNamespace a]) @ [snd (aResource a)] @
     segs (if aVerb a = ''update'' then case_option '''' (\<lambda>c. Name (cmeta c)) (aObject a) else aName a) @
     segs (aSubresource a)"

lemma Invokes_records: "actions (snd (Invokes a d f)) = actions f @ [a]"
  by (simp add: Invokes_def split: prod.splits)

lemma InvokesWatch_records: "actions (snd (InvokesWatch a f)) = actions f @ [a]"
  by (simp add: InvokesWatch_def split: prod.splits)

lemma fake_List_records: "actions (snd (fake_List ns label f)) = actions f @ [NewListAction ns]"
  using Invokes_records [of "NewListAction ns" "RShells []" f] by (auto simp: fake_List_def split: prod.splits)

lemmas action_defs = new_action_def NewGetAction_def NewListAction_def NewWatchAction_def NewCreateAction_def
  NewUpdateAction_def NewUpdateSubresourceAction_def NewDeleteActionWithOptions_def NewDeleteCollectionAction_def
  NewPatchSubresourceAction_def cloudshellsResource_def

lemmas fake_defs = fake_Get_def fake_Watch_def fake_Create_def fake_Update_def fake_UpdateStatus_def
  fake_Delete_def fake_DeleteCollection_def fake_Patch_def

text \<open>
  For every call that the real client sends, the fake records one action, with the verb of
  the request and about the object the request's path names.
\<close>

theorem fake_mirrors_client:
  assumes "op_sent C ns op"
  shows "\<exists>a. actions (fake_execute ns op f) = actions f @ [a] \<and> http_verb (aVerb a) = op_verb op \<and>
    action_segments a = object_segments ns op"
proof -
  have subs: "list_all (\<lambda>s. s = '''' \<or> proper s) (op_subs op)"
    using assms valid_segment by (auto simp: op_sent_def op_built_def list_all_iff)
  have name: "op_name op = Some n \<Longrightarrow> segs n = [n]" for n
    using assms valid_segment [of n] by (auto simp: op_sent_def op_built_def segs_segment)
  have ne: "op_name op = Some n \<Longrightarrow> n \<noteq> ''''" for n using assms by (auto simp: op_sent_def op_built_def)
  show ?thesis
    using name ne segs_path_Join [OF subs] valid_consts
    by (cases op)
      (auto simp: fake_defs fake_List_records Invokes_records InvokesWatch_records action_defs http_verb_def
        action_segments_def object_segments_def op_tail_def segs_segment)
qed

end
