(* ===== verification/Scheme.thy ===== *)
theory Scheme
  imports Informers
begin

text \<open>
  The run-time scheme in which the operator registers its types at start-up:
  \<open>register.go\<close> and \<open>defaults.go\<close> of \<open>pkg/apis/cloudshell/v1alpha1\<close>, \<open>pkg/utils/gclient\<close> and the
  two \<open>register.go\<close> of the generated clientset, over the parts of \<open>runtime.Scheme\<close> of
  apimachinery they use. The converter of the scheme, which the operator never calls, is left
  out. What the packages of Kubernetes and Istio register is a parameter: for each package its
  group and version and its types.

  Shown: registration never panics as long as no two packages claim the same kind for different
  types, and afterwards the scheme does for the operator what the other theories assume of it:
  defaulting a cloudshell is \<open>SetObjectDefaultsCloudShell\<close>, and the group, version and kind of a
  cloudshell or a pod are those written into owner references.
\<close>

section \<open>The scheme\<close>

type_synonym gv = "string \<times> string"

type_synonym gvk = "gv \<times> string"

text \<open>A struct type: the path of its package and its name.\<close>

type_synonym rtype = "string \<times> string"

record scheme =
  gvkToType :: "gvk \<rightharpoonup> rtype"
  typeToGVK :: "rtype \<Rightarrow> gvk list"
  unversionedTypes :: "rtype \<rightharpoonup> gvk"
  unversionedKinds :: "string \<rightharpoonup> rtype"
  defaulterFuncs :: "rtype \<rightharpoonup> (obj \<Rightarrow> obj)"
  observedVersions :: "gv list"

text \<open>A function that adds to a scheme may return an error or panic; the scheme is changed in place.\<close>

type_synonym adder = "scheme \<Rightarrow> scheme \<times> err option"

definition andthen :: "adder \<Rightarrow> adder \<Rightarrow> adder" where
  "andthen f g s = (case f s of (s', None) \<Rightarrow> g s' | (s', Some e) \<Rightarrow> (s', Some e))"

fun each :: "('a \<Rightarrow> adder) \<Rightarrow> 'a list \<Rightarrow> adder" where
  "each f [] = (\<lambda>s. (s, None))"
| "each f (x # xs) = andthen (f x) (each f xs)"

definition NewScheme :: scheme where
  "NewScheme = \<lparr>gvkToType = Map.empty, typeToGVK = (\<lambda>_. []), unversionedTypes = Map.empty,
     unversionedKinds = Map.empty, defaulterFuncs = Map.empty, observedVersions = []\<rparr>"

definition APIVersionInternal :: string where "APIVersionInternal = ''__internal''"

definition addObservedVersion :: "gv \<Rightarrow> scheme \<Rightarrow> scheme" where
  "addObservedVersion v s =
     (if snd v = '''' \<or> snd v = APIVersionInternal \<or> v \<in> set (observedVersions s) then s
      else s\<lparr>observedVersions := observedVersions s @ [v]\<rparr>)"

definition AddKnownTypeWithName :: "gvk \<Rightarrow> rtype \<Rightarrow> adder" where
  "AddKnownTypeWithName g t s0 =
     (let s = addObservedVersion (fst g) s0 in
      if snd (fst g) = '''' then (s, Some (GoPanic ''version is required on all types''))
      else if gvkToType s g \<noteq> None \<and> gvkToType s g \<noteq> Some t
      then (s, Some (GoPanic ''Double registration of different types''))
      else let s1 = s\<lparr>gvkToType := (gvkToType s)(g \<mapsto> t)\<rparr> in
        if g \<in> set (typeToGVK s1 t) then (s1, None)
        else (s1\<lparr>typeToGVK := (typeToGVK s1)(t := typeToGVK s1 t @ [g])\<rparr>, None))"

definition AddKnownTypes :: "gv \<Rightarrow> rtype list \<Rightarrow> adder" where
  "AddKnownTypes v types s =
     each (\<lambda>t. AddKnownTypeWithName (v, snd t) t) types (addObservedVersion v s)"

definition AddUnversionedType :: "gv \<Rightarrow> rtype \<Rightarrow> adder" where
  "AddUnversionedType v t s0 =
     (let s = s0\<lparr>unversionedTypes := (unversionedTypes s0)(t \<mapsto> (v, snd t))\<rparr> in
      case unversionedKinds s (snd t) of
        Some old \<Rightarrow>
          if t \<noteq> old then (s, Some (GoPanic ''kind name must be unique in scheme''))
          else (s, None)
      | None \<Rightarrow> (s\<lparr>unversionedKinds := (unversionedKinds s)(snd t \<mapsto> t)\<rparr>, None))"

definition AddUnversionedTypes :: "gv \<Rightarrow> rtype list \<Rightarrow> adder" where
  "AddUnversionedTypes v types s =
     andthen (AddKnownTypes v types) (each (AddUnversionedType v) types) (addObservedVersion v s)"

definition AddTypeDefaultingFunc :: "rtype \<Rightarrow> (obj \<Rightarrow> obj) \<Rightarrow> scheme \<Rightarrow> scheme" where
  "AddTypeDefaultingFunc t fn s = s\<lparr>defaulterFuncs := (defaulterFuncs s)(t \<mapsto> fn)\<rparr>"

definition ObjectKinds :: "scheme \<Rightarrow> rtype \<Rightarrow> (gvk list \<times> bool) res" where
  "ObjectKinds s t =
     (if typeToGVK s t = [] then Err (Failure ''no kind is registered for the type'')
      else Ok (typeToGVK s t, unversionedTypes s t \<noteq> None))"

definition New_object :: "scheme \<Rightarrow> gvk \<Rightarrow> rtype res" where
  "New_object s g =
     (case gvkToType s g of
        Some t \<Rightarrow> Ok t
      | None \<Rightarrow>
          (case unversionedKinds s (snd g) of
             Some t \<Rightarrow> Ok t
           | None \<Rightarrow> Err (Failure ''no kind is registered for the version'')))"

text \<open>\<open>SchemeBuilder\<close>.\<close>

definition SchemeBuilder_AddToScheme :: "adder list \<Rightarrow> adder" where
  "SchemeBuilder_AddToScheme sb = each id sb"

definition SchemeBuilder_Register :: "adder list \<Rightarrow> adder list \<Rightarrow> adder list" where
  "SchemeBuilder_Register sb funcs = sb @ funcs"

text \<open>\<open>utilruntime.Must\<close>, and \<open>_ = f(s)\<close>, which drops a returned error but not a panic.\<close>

definition Must :: "adder \<Rightarrow> adder" where
  "Must f s = (case f s of (s', None) \<Rightarrow> (s', None) | (s', Some e) \<Rightarrow> (s', Some (GoPanic ''Must'')))"

definition ignoring :: "adder \<Rightarrow> adder" where
  "ignoring f s =
     (case f s of (s', Some e) \<Rightarrow> if is_panic e then (s', Some e) else (s', None) | (s', None) \<Rightarrow> (s', None))"

section \<open>Common types of every group\<close>

definition meta_type :: "string \<Rightarrow> rtype" where
  "meta_type name = (''k8s.io/apimachinery/pkg/apis/meta/v1'', name)"

definition optionsTypes :: "rtype list" where
  "optionsTypes = map meta_type
     [''ListOptions'', ''GetOptions'', ''DeleteOptions'', ''CreateOptions'', ''UpdateOptions'', ''PatchOptions'']"

definition Unversioned :: gv where "Unversioned = ('''', ''v1'')"

definition unversioned_meta :: "rtype list" where
  "unversioned_meta = map meta_type [''Status'', ''APIVersions'', ''APIGroupList'', ''APIGroup'', ''APIResourceList'']"

text \<open>\<open>metav1.AddToGroupVersion\<close>; its own conversions and defaults concern the converter only.\<close>

definition AddToGroupVersion :: "gv \<Rightarrow> adder" where
  "AddToGroupVersion v =
     andthen (AddKnownTypeWithName (v, ''WatchEvent'') (meta_type ''WatchEvent''))
     (andthen (AddKnownTypeWithName ((fst v, APIVersionInternal), ''WatchEvent'') (meta_type ''InternalEvent''))
     (andthen (AddKnownTypes v optionsTypes)
       (AddUnversionedTypes Unversioned unversioned_meta)))"

section \<open>The types of the operator\<close>

definition v1alpha1 :: string where
  "v1alpha1 = ''github.com/cloudtty/cloudtty/pkg/apis/cloudshell/v1alpha1''"

definition CloudShell_type :: rtype where "CloudShell_type = (v1alpha1, ''CloudShell'')"

definition CloudShellList_type :: rtype where "CloudShellList_type = (v1alpha1, ''CloudShellList'')"

definition Pod_type :: rtype where "Pod_type = (''k8s.io/api/core/v1'', ''Pod'')"

fun type_of :: "obj \<Rightarrow> rtype" where
  "type_of (ObjPod _) = Pod_type"
| "type_of (ObjCloudShell _) = CloudShell_type"
| "type_of (DeletedFinalStateUnknown _ _) = (''k8s.io/client-go/tools/cache'', ''DeletedFinalStateUnknown'')"
| "type_of ObjNil = ('''', '''')"

text \<open>\<open>Scheme.Default\<close>.\<close>

definition Default :: "scheme \<Rightarrow> obj \<Rightarrow> obj" where
  "Default s src = (case defaulterFuncs s (type_of src) of None \<Rightarrow> src | Some fn \<Rightarrow> fn src)"

definition v1alpha1_Resource :: "string \<Rightarrow> string \<times> string" where
  "v1alpha1_Resource resource = (fst SchemeGroupVersion, resource)"

definition addKnownTypes :: adder where
  "addKnownTypes =
     andthen (AddKnownTypes SchemeGroupVersion [CloudShell_type, CloudShellList_type])
       (AddToGroupVersion SchemeGroupVersion)"

text \<open>The defaulter asserts its type, which \<open>Default\<close> has checked.\<close>

fun cloudshell_defaulter :: "obj \<Rightarrow> obj" where
  "cloudshell_defaulter (ObjCloudShell c) = ObjCloudShell (SetObjectDefaultsCloudShell c)"
| "cloudshell_defaulter obj = obj"

definition RegisterDefaults :: adder where
  "RegisterDefaults s = (AddTypeDefaultingFunc CloudShell_type cloudshell_defaulter s, None)"

definition addDefaultingFuncs :: adder where
  "addDefaultingFuncs = RegisterDefaults"

text \<open>\<open>localSchemeBuilder\<close> once \<open>init\<close> has run, and \<open>AddToScheme\<close> (also called \<open>Install\<close>).\<close>

definition localSchemeBuilder :: "adder list" where
  "localSchemeBuilder = SchemeBuilder_Register [] [addKnownTypes, addDefaultingFuncs]"

definition AddToScheme :: adder where
  "AddToScheme = SchemeBuilder_AddToScheme localSchemeBuilder"

section \<open>The schemes of the program\<close>

text \<open>The \<open>addKnownTypes\<close> of an API package of Kubernetes or Istio.\<close>

definition api_package :: "gv \<times> rtype list \<Rightarrow> adder" where
  "api_package p = andthen (AddKnownTypes (fst p) (snd p)) (AddToGroupVersion (fst p))"

text \<open>\<open>aggregatedScheme\<close> of \<open>gclient.go\<close> after its \<open>init\<close>, which \<open>NewSchema\<close> returns.\<close>

definition NewSchema ::
  "(gv \<times> rtype list) list \<Rightarrow> gv \<times> rtype list \<Rightarrow> gv \<times> rtype list \<Rightarrow> gv \<times> rtype list \<Rightarrow> scheme \<times> err option" where
  "NewSchema kubernetes batchv1 corev1 istio =
     each id
       [ignoring (SchemeBuilder_AddToScheme (map api_package kubernetes)),
        Must (api_package batchv1),
        Must (api_package corev1),
        Must AddToScheme,
        Must (api_package istio)] NewScheme"

text \<open>\<open>Scheme\<close> of the generated clientset, and the scheme of the fake clientset.\<close>

definition clientset_localSchemeBuilder :: "adder list" where
  "clientset_localSchemeBuilder = [AddToScheme]"

definition clientset_Scheme :: "scheme \<times> err option" where
  "clientset_Scheme =
     andthen (AddToGroupVersion ('''', ''v1'')) (Must (SchemeBuilder_AddToScheme clientset_localSchemeBuilder)) NewScheme"

definition fake_localSchemeBuilder :: "adder list" where
  "fake_localSchemeBuilder = [AddToScheme]"

definition fake_scheme :: "scheme \<times> err option" where
  "fake_scheme =
     andthen (AddToGroupVersion ('''', ''v1'')) (Must (SchemeBuilder_AddToScheme fake_localSchemeBuilder)) NewScheme"

text \<open>
  \<open>apiutil.GVKForObject\<close>, with the group, version and kind that the object itself carries, and
  \<open>GroupVersion.String\<close>.
\<close>

definition GVKForObject :: "scheme \<Rightarrow> rtype \<Rightarrow> gvk option \<Rightarrow> gvk res" where
  "GVKForObject s t current =
     (case ObjectKinds s t of
        Inl e \<Rightarrow> Err e
      | Inr (gvks, isUnversioned) \<Rightarrow>
          if isUnversioned then Err (Failure ''cannot create group-version-kind for unversioned type'')
          else case gvks of
            [] \<Rightarrow> Err (Failure ''no GroupVersionKind associated with Go type'')
          | [g] \<Rightarrow> Ok g
          | _ \<Rightarrow>
              (case current of
                 Some g \<Rightarrow> if g \<in> set gvks then Ok g else Err (Failure ''refusing to guess'')
               | None \<Rightarrow> Err (Failure ''refusing to guess'')))"

definition gv_String :: "gv \<Rightarrow> string" where
  "gv_String v = (if fst v \<noteq> '''' then fst v @ ''/'' @ snd v else snd v)"

section \<open>What a registration does\<close>

text \<open>The two directions of the scheme agree, and only common types are unversioned.\<close>

definition scheme_ok :: "scheme \<Rightarrow> bool" where
  "scheme_ok s \<longleftrightarrow>
     (\<forall>t. distinct (typeToGVK s t) \<and> set (typeToGVK s t) = {g. gvkToType s g = Some t}) \<and>
     (\<forall>k t. unversionedKinds s k = Some t \<longrightarrow> t = meta_type k) \<and>
     (\<forall>t. unversionedTypes s t \<noteq> None \<longrightarrow> t \<in> set unversioned_meta)"

definition registered :: "scheme \<Rightarrow> (gvk \<times> rtype) set" where
  "registered s = {(g, t). gvkToType s g = Some t}"

text \<open>
  \<open>adds R N D f\<close>: where nothing but \<open>R\<close> is registered, \<open>f\<close> succeeds and adds exactly the
  registrations \<open>N\<close> and the defaulters \<open>D\<close>.
\<close>

definition adds :: "(gvk \<times> rtype) set \<Rightarrow> (gvk \<times> rtype) set \<Rightarrow> (rtype \<rightharpoonup> (obj \<Rightarrow> obj)) \<Rightarrow> adder \<Rightarrow> bool" where
  "adds R N D f \<longleftrightarrow>
     N \<subseteq> R \<and>
     (\<forall>s. scheme_ok s \<longrightarrow> registered s \<subseteq> R \<longrightarrow>
        (\<exists>s'. f s = (s', None) \<and> scheme_ok s' \<and> registered s' = registered s \<union> N \<and>
              defaulterFuncs s' = defaulterFuncs s ++ D))"

lemma scheme_ok_observed [simp]:
  "scheme_ok (addObservedVersion v s) = scheme_ok s" "registered (addObservedVersion v s) = registered s"
  "defaulterFuncs (addObservedVersion v s) = defaulterFuncs s" "gvkToType (addObservedVersion v s) = gvkToType s"
  "typeToGVK (addObservedVersion v s) = typeToGVK s"
  by (simp_all add: addObservedVersion_def scheme_ok_def registered_def)

lemma addsE:
  assumes "adds R N D f" "scheme_ok s" "registered s \<subseteq> R"
  obtains s' where "f s = (s', None)" "scheme_ok s'" "registered s' = registered s \<union> N" "registered s' \<subseteq> R"
    "defaulterFuncs s' = defaulterFuncs s ++ D"
  using assms unfolding adds_def by (metis Un_subset_iff)

lemma adds_andthen:
  assumes "adds R N D f" "adds R N' D' g"
  shows "adds R (N \<union> N') (D ++ D') (andthen f g)"
  unfolding adds_def
proof (intro conjI allI impI)
  show "N \<union> N' \<subseteq> R" using assms by (simp add: adds_def)
  fix s assume s: "scheme_ok s" "registered s \<subseteq> R"
  from assms(1) s obtain s1 where 1: "f s = (s1, None)" "scheme_ok s1" "registered s1 = registered s \<union> N"
    "registered s1 \<subseteq> R" "defaulterFuncs s1 = defaulterFuncs s ++ D" by (rule addsE)
  from assms(2) 1(2,4) obtain s2 where 2: "g s1 = (s2, None)" "scheme_ok s2" "registered s2 = registered s1 \<union> N'"
    "registered s2 \<subseteq> R" "defaulterFuncs s2 = defaulterFuncs s1 ++ D'" by (rule addsE)
  from 1 2 show "\<exists>s'. andthen f g s = (s', None) \<and> scheme_ok s' \<and> registered s' = registered s \<union> (N \<union> N') \<and>
      defaulterFuncs s' = defaulterFuncs s ++ (D ++ D')"
    by (auto simp: andthen_def)
qed

lemma adds_none: "adds R {} Map.empty (\<lambda>s. (s, None))"
  by (simp add: adds_def)

lemma adds_each:
  "(\<And>x. x \<in> set xs \<Longrightarrow> adds R (N x) Map.empty (f x)) \<Longrightarrow> adds R (\<Union>x \<in> set xs. N x) Map.empty (each f xs)"
proof (induction xs)
  case (Cons x xs)
  then have "adds R (N x \<union> (\<Union>x \<in> set xs. N x)) (Map.empty ++ Map.empty) (andthen (f x) (each f xs))"
    by (intro adds_andthen) simp_all
  then show ?case by simp
qed (simp add: adds_none)

lemma adds_known:
  assumes "single_valued R" "(g, t) \<in> R" "snd (fst g) \<noteq> ''''"
  shows "adds R {(g, t)} Map.empty (AddKnownTypeWithName g t)"
  unfolding adds_def
proof (intro conjI allI impI)
  fix s assume s: "scheme_ok s" "registered s \<subseteq> R"
  let ?s = "addObservedVersion (fst g) s"
  consider "gvkToType s g = None" | "gvkToType s g = Some t"
    using s assms(1,2) by (cases "gvkToType s g") (auto simp: registered_def dest: single_valuedD)
  then show "\<exists>s'. AddKnownTypeWithName g t s = (s', None) \<and> scheme_ok s' \<and> registered s' = registered s \<union> {(g, t)} \<and>
      defaulterFuncs s' = defaulterFuncs s ++ Map.empty"
  proof cases
    case 1
    then have new: "g \<notin> set (typeToGVK s u)" for u using s(1) by (simp add: scheme_ok_def del: split_paired_All)
    let ?s' = "?s\<lparr>gvkToType := (gvkToType s)(g \<mapsto> t), typeToGVK := (typeToGVK s)(t := typeToGVK s t @ [g])\<rparr>"
    have "AddKnownTypeWithName g t s = (?s', None)"
      using 1 new assms(3) by (simp add: AddKnownTypeWithName_def Let_def)
    moreover have "scheme_ok ?s" using s(1) by simp
    then have "scheme_ok ?s'" using 1 new by (auto simp: scheme_ok_def)
    moreover have "registered ?s' = registered s \<union> {(g, t)}" using 1 by (auto simp: registered_def split: if_splits)
    ultimately show ?thesis by simp
  next
    case 2
    then have "g \<in> set (typeToGVK s t)" "(g, t) \<in> registered s" 
      using s(1) by (simp_all add: scheme_ok_def registered_def del: split_paired_All)
    moreover have "(gvkToType s)(g \<mapsto> t) = gvkToType s" using 2 by auto
    ultimately have "AddKnownTypeWithName g t s = (?s\<lparr>gvkToType := gvkToType ?s\<rparr>, None)"
      using 2 assms(3) by (simp add: AddKnownTypeWithName_def Let_def)
    moreover have "?s\<lparr>gvkToType := gvkToType ?s\<rparr> = ?s" by (simp del: scheme_ok_observed)
    ultimately have "AddKnownTypeWithName g t s = (?s, None)" by (simp only:)
    then show ?thesis using s(1) \<open>(g, t) \<in> registered s\<close> by (simp add: insert_absorb)
  qed
qed (use assms(2) in simp)

lemma adds_observed: "adds R N D f \<Longrightarrow> adds R N D (\<lambda>s. f (addObservedVersion v s))"
  unfolding adds_def by (metis scheme_ok_observed(1-3))

definition entries_of :: "gv \<Rightarrow> rtype list \<Rightarrow> (gvk \<times> rtype) list" where
  "entries_of v types = map (\<lambda>t. ((v, snd t), t)) types"

lemma adds_types:
  assumes "single_valued R" "snd v \<noteq> ''''" "set (entries_of v types) \<subseteq> R"
  shows "adds R (set (entries_of v types)) Map.empty (AddKnownTypes v types)"
proof -
  have "adds R (\<Union>t \<in> set types. {((v, snd t), t)}) Map.empty (each (\<lambda>t. AddKnownTypeWithName (v, snd t) t) types)"
    using assms by (intro adds_each adds_known) (auto simp: entries_of_def)
  then have "adds R (set (entries_of v types)) Map.empty (each (\<lambda>t. AddKnownTypeWithName (v, snd t) t) types)"
    by (simp add: entries_of_def UNION_singleton_eq_range)
  from adds_observed [OF this, of v] show ?thesis by (simp add: AddKnownTypes_def [abs_def])
qed

lemma adds_unversioned_type:
  assumes "t \<in> set unversioned_meta"
  shows "adds R {} Map.empty (AddUnversionedType v t)"
  unfolding adds_def
proof (intro conjI allI impI)
  fix s assume s: "scheme_ok s" "registered s \<subseteq> R"
  have t: "t = meta_type (snd t)" using assms by (auto simp: unversioned_meta_def meta_type_def)
  let ?s = "s\<lparr>unversionedTypes := (unversionedTypes s)(t \<mapsto> (v, snd t))\<rparr>"
  have ok: "scheme_ok ?s" "scheme_ok (?s\<lparr>unversionedKinds := (unversionedKinds s)(snd t \<mapsto> t)\<rparr>)"
    using s(1) assms t by (auto simp: scheme_ok_def)
  have "unversionedKinds s (snd t) \<in> {None, Some t}"
    using s(1) t by (cases "unversionedKinds s (snd t)") (auto simp: scheme_ok_def)
  then show "\<exists>s'. AddUnversionedType v t s = (s', None) \<and> scheme_ok s' \<and> registered s' = registered s \<union> {} \<and>
      defaulterFuncs s' = defaulterFuncs s ++ Map.empty"
    using ok by (auto simp: AddUnversionedType_def Let_def registered_def)
qed simp

text \<open>What \<open>AddToGroupVersion\<close>, an API package and \<open>AddToScheme\<close> register.\<close>

definition common_entries :: "gv \<Rightarrow> (gvk \<times> rtype) list" where
  "common_entries v =
     [((v, ''WatchEvent''), meta_type ''WatchEvent''),
      (((fst v, APIVersionInternal), ''WatchEvent''), meta_type ''InternalEvent'')] @
     entries_of v optionsTypes @ entries_of Unversioned unversioned_meta"

definition package_entries :: "gv \<times> rtype list \<Rightarrow> (gvk \<times> rtype) list" where
  "package_entries p = entries_of (fst p) (snd p) @ common_entries (fst p)"

definition cloudshell_package :: "gv \<times> rtype list" where
  "cloudshell_package = (SchemeGroupVersion, [CloudShell_type, CloudShellList_type])"

lemma adds_common:
  assumes "single_valued R" "snd v \<noteq> ''''" "set (common_entries v) \<subseteq> R"
  shows "adds R (set (common_entries v)) Map.empty (AddToGroupVersion v)"
proof -
  have "adds R (\<Union>t \<in> set unversioned_meta. {}) Map.empty (each (AddUnversionedType Unversioned) unversioned_meta)"
    by (intro adds_each adds_unversioned_type)
  moreover have "adds R (set (entries_of Unversioned unversioned_meta)) Map.empty (AddKnownTypes Unversioned unversioned_meta)"
    using assms by (intro adds_types) (auto simp: common_entries_def Unversioned_def)
  ultimately have "adds R (set (entries_of Unversioned unversioned_meta) \<union> {}) (Map.empty ++ Map.empty)
      (andthen (AddKnownTypes Unversioned unversioned_meta) (each (AddUnversionedType Unversioned) unversioned_meta))"
    by (intro adds_andthen) simp_all
  from adds_observed [OF this, of Unversioned]
  have unversioned: "adds R (set (entries_of Unversioned unversioned_meta)) Map.empty (AddUnversionedTypes Unversioned unversioned_meta)"
    by (simp add: AddUnversionedTypes_def [abs_def])
  have options: "adds R (set (entries_of v optionsTypes)) Map.empty (AddKnownTypes v optionsTypes)"
    using assms by (intro adds_types) (auto simp: common_entries_def)
  have watch: "adds R {((v, ''WatchEvent''), meta_type ''WatchEvent'')} Map.empty
      (AddKnownTypeWithName (v, ''WatchEvent'') (meta_type ''WatchEvent''))"
    using assms by (intro adds_known) (auto simp: common_entries_def)
  have "adds R {(((fst v, APIVersionInternal), ''WatchEvent''), meta_type ''InternalEvent'')} Map.empty
      (AddKnownTypeWithName ((fst v, APIVersionInternal), ''WatchEvent'') (meta_type ''InternalEvent''))"
    using assms by (intro adds_known) (auto simp: common_entries_def APIVersionInternal_def)
  from adds_andthen [OF watch adds_andthen [OF this adds_andthen [OF options unversioned]]]
  show ?thesis by (simp add: AddToGroupVersion_def common_entries_def insert_commute)
qed

lemma adds_package:
  assumes "single_valued R" "snd (fst p) \<noteq> ''''" "set (package_entries p) \<subseteq> R"
  shows "adds R (set (package_entries p)) Map.empty (api_package p)"
proof -
  have "adds R (set (entries_of (fst p) (snd p)) \<union> set (common_entries (fst p))) (Map.empty ++ Map.empty) (api_package p)"
    unfolding api_package_def
    by (rule adds_andthen) (use assms in \<open>auto intro!: adds_types adds_common simp: package_entries_def\<close>)
  then show ?thesis by (simp add: package_entries_def)
qed

lemma adds_cloudshell:
  assumes "single_valued R" "set (package_entries cloudshell_package) \<subseteq> R"
  shows "adds R (set (package_entries cloudshell_package)) [CloudShell_type \<mapsto> cloudshell_defaulter] AddToScheme"
proof -
  have "adds R (set (package_entries cloudshell_package)) Map.empty (api_package cloudshell_package)"
    using assms by (intro adds_package) (simp_all add: cloudshell_package_def SchemeGroupVersion_def)
  then have known: "adds R (set (package_entries cloudshell_package)) Map.empty addKnownTypes"
    by (simp add: api_package_def cloudshell_package_def addKnownTypes_def)
  have "adds R {} [CloudShell_type \<mapsto> cloudshell_defaulter] addDefaultingFuncs"
    by (simp add: adds_def addDefaultingFuncs_def RegisterDefaults_def AddTypeDefaultingFunc_def scheme_ok_def registered_def)
  from adds_andthen [OF known adds_andthen [OF this adds_none]] show ?thesis
    by (simp add: AddToScheme_def SchemeBuilder_AddToScheme_def localSchemeBuilder_def SchemeBuilder_Register_def)
qed

lemma adds_Must: "adds R N D f \<Longrightarrow> adds R N D (Must f)"
  unfolding adds_def Must_def by fastforce

lemma adds_ignoring: "adds R N D f \<Longrightarrow> adds R N D (ignoring f)"
  unfolding adds_def ignoring_def by fastforce

lemma scheme_ok_NewScheme: "scheme_ok NewScheme" "registered NewScheme = {}" "defaulterFuncs NewScheme = Map.empty"
  by (simp_all add: scheme_ok_def registered_def NewScheme_def)

text \<open>What the aggregated scheme holds, as a list.\<close>

definition all_entries :: "(gv \<times> rtype list) list \<Rightarrow> (gvk \<times> rtype) list" where
  "all_entries ps = concat (map package_entries (cloudshell_package # ps))"

lemma set_all_entries: "set (all_entries ps) = (\<Union>p \<in> set (cloudshell_package # ps). set (package_entries p))"
  by (simp add: all_entries_def)

lemma NewSchema_adds:
  assumes "single_valued (set (all_entries (kube @ [batch, core, istio])))" "\<forall>p \<in> set (kube @ [batch, core, istio]). snd (fst p) \<noteq> ''''"
  obtains s where "NewSchema kube batch core istio = (s, None)" "scheme_ok s"
    "registered s = set (all_entries (kube @ [batch, core, istio]))" "defaulterFuncs s = [CloudShell_type \<mapsto> cloudshell_defaulter]"
proof -
  let ?R = "set (all_entries (kube @ [batch, core, istio]))"
  have "adds ?R (set (package_entries p)) Map.empty (api_package p)" if "p \<in> set (kube @ [batch, core, istio])" for p
    using assms that by (intro adds_package) (auto simp: all_entries_def)
  then have package: "adds ?R (set (package_entries p)) Map.empty (api_package p)" if "p \<in> set kube \<union> {batch, core, istio}" for p
    using that by auto
  have "adds ?R (\<Union>p \<in> set kube. set (package_entries p)) Map.empty (each api_package kube)"
    using package by (intro adds_each) simp
  moreover have "each id (map api_package ps) = each api_package ps" for ps
    by (induction ps) simp_all
  ultimately have kube: "adds ?R (\<Union>p \<in> set kube. set (package_entries p)) Map.empty
      (ignoring (SchemeBuilder_AddToScheme (map api_package kube)))"
    by (intro adds_ignoring) (simp add: SchemeBuilder_AddToScheme_def)
  have "adds ?R (set (package_entries cloudshell_package)) [CloudShell_type \<mapsto> cloudshell_defaulter] (Must AddToScheme)"
    using assms(1) by (intro adds_Must adds_cloudshell) (auto simp: all_entries_def)
  from adds_andthen [OF kube adds_andthen [OF adds_Must adds_andthen [OF adds_Must
      adds_andthen [OF this adds_andthen [OF adds_Must adds_none]]]],
      OF package [of batch] package [of core] package [of istio]]
  have "adds ?R ?R [CloudShell_type \<mapsto> cloudshell_defaulter] (each id
      [ignoring (SchemeBuilder_AddToScheme (map api_package kube)), Must (api_package batch), Must (api_package core),
       Must AddToScheme, Must (api_package istio)])"
    by (simp add: all_entries_def Un_ac)
  then obtain s where "NewSchema kube batch core istio = (s, None)" "scheme_ok s" "registered s = {} \<union> ?R"
    "defaulterFuncs s = Map.empty ++ [CloudShell_type \<mapsto> cloudshell_defaulter]"
    using scheme_ok_NewScheme by (auto simp: NewSchema_def elim!: addsE)
  then show ?thesis by (intro that) simp_all
qed

section \<open>The scheme of the operator\<close>

lemma GVKForObject_once:
  assumes "scheme_ok s" "(g, t) \<in> registered s" "\<And>h. (h, t) \<in> registered s \<Longrightarrow> h = g" "t \<notin> set unversioned_meta"
  shows "GVKForObject s t current = Ok g"
proof -
  have kinds: "set (typeToGVK s t) = {h. gvkToType s h = Some t}" "distinct (typeToGVK s t)"
    and none: "unversionedTypes s t = None"
    using assms(1,4) unfolding scheme_ok_def by blast+
  have "{h. gvkToType s h = Some t} = {g}" using assms(2,3) unfolding registered_def by blast
  with kinds have "set (typeToGVK s t) = {g}" "length (typeToGVK s t) = 1"
    using distinct_card [of "typeToGVK s t"] by simp_all
  then have "typeToGVK s t = [g]" by (cases "typeToGVK s t") simp_all
  with none show ?thesis by (simp add: GVKForObject_def ObjectKinds_def)
qed

lemma common_meta: "(h, t) \<in> set (common_entries v) \<Longrightarrow> fst t = fst (meta_type '''')"
  by (auto simp: common_entries_def entries_of_def optionsTypes_def unversioned_meta_def meta_type_def)

lemma entry_of_type:
  assumes "(h, t) \<in> set (all_entries ps)" "fst t \<noteq> fst (meta_type '''')"
  shows "\<exists>p \<in> set (cloudshell_package # ps). t \<in> set (snd p) \<and> h = (fst p, snd t)"
proof -
  from assms(1) obtain p where "p \<in> set (cloudshell_package # ps)" "(h, t) \<in> set (package_entries p)"
    unfolding set_all_entries by blast
  moreover from this(2) have "(h, t) \<in> set (entries_of (fst p) (snd p))"
    using common_meta [of h t "fst p"] assms(2) by (auto simp: package_entries_def)
  ultimately show ?thesis by (auto simp: entries_of_def)
qed

text \<open>The type of one package only, registered there once, is found under its one kind.\<close>

lemma GVKForObject_package:
  assumes "scheme_ok s" "registered s = set (all_entries ps)" "fst t \<noteq> fst (meta_type '''')"
    and "q \<in> set (cloudshell_package # ps)" "t \<in> set (snd q)"
    and "\<And>p. p \<in> set (cloudshell_package # ps) \<Longrightarrow> t \<in> set (snd p) \<Longrightarrow> fst p = fst q"
  shows "GVKForObject s t current = Ok (fst q, snd t)"
proof (rule GVKForObject_once [OF assms(1)])
  have "((fst q, snd t), t) \<in> set (package_entries q)"
    using assms(5) by (simp add: package_entries_def entries_of_def)
  then show "((fst q, snd t), t) \<in> registered s" using assms(2,4) unfolding set_all_entries by blast
  show "h = (fst q, snd t)" if "(h, t) \<in> registered s" for h
    using entry_of_type [OF that [unfolded assms(2)] assms(3)] assms(6) by metis
  show "t \<notin> set unversioned_meta" using assms(3) by (auto simp: unversioned_meta_def meta_type_def)
qed

lemma AddToScheme_again:
  assumes "single_valued (set (all_entries ps))" "scheme_ok s" "registered s = set (all_entries ps)"
    "defaulterFuncs s = [CloudShell_type \<mapsto> cloudshell_defaulter]"
  shows "\<exists>s'. AddToScheme s = (s', None) \<and> gvkToType s' = gvkToType s \<and> defaulterFuncs s' = defaulterFuncs s"
proof -
  have sub: "set (package_entries cloudshell_package) \<subseteq> set (all_entries ps)" by (auto simp: all_entries_def)
  from adds_cloudshell [OF assms(1) this] assms(2,3) obtain s' where s': "AddToScheme s = (s', None)"
    "registered s' = registered s \<union> set (package_entries cloudshell_package)"
    "defaulterFuncs s' = defaulterFuncs s ++ [CloudShell_type \<mapsto> cloudshell_defaulter]" by (auto elim: addsE)
  then have "registered s' = registered s" using sub assms(3) by auto
  then have "((g, t) \<in> registered s') = ((g, t) \<in> registered s)" for g t by simp
  then have "(gvkToType s' g = Some t) = (gvkToType s g = Some t)" for g t by (simp add: registered_def)
  then have "gvkToType s' = gvkToType s" by (intro ext) (metis option.exhaust)
  with s' assms(4) show ?thesis by simp
qed

text \<open>
  Property C28. As long as no kind is claimed for two types, start-up registers all types
  without a panic. The scheme then does what the controller and the pool rely on: \<open>Default\<close>
  fills in a cloudshell by \<open>SetObjectDefaultsCloudShell\<close> and leaves a pod alone; the group,
  version and kind of a cloudshell and of a pod are found, and are those of the owner references;
  every registered kind is created as its type; and registering again changes nothing.
\<close>

theorem scheme_startup:
  assumes "single_valued (set (all_entries (kube @ [batch, core, istio])))"
    and "\<forall>p \<in> set (kube @ [batch, core, istio]).
      snd (fst p) \<noteq> '''' \<and> v1alpha1 \<notin> fst ` set (snd p) \<and> (Pod_type \<in> set (snd p) \<longrightarrow> fst p = ('''', ''v1''))"
    and "fst core = ('''', ''v1'')" "Pod_type \<in> set (snd core)"
  shows "\<exists>s. NewSchema kube batch core istio = (s, None) \<and>
    (\<forall>c. Default s (ObjCloudShell c) = ObjCloudShell (SetObjectDefaultsCloudShell c)) \<and>
    (\<forall>p. Default s (ObjPod p) = ObjPod p) \<and>
    GVKForObject s CloudShell_type current = Ok (SchemeGroupVersion, ''CloudShell'') \<and>
    gv_String SchemeGroupVersion = ''cloudshell.cloudtty.io/v1alpha1'' \<and>
    GVKForObject s Pod_type current = Ok (('''', ''v1''), ''Pod'') \<and>
    gv_String ('''', ''v1'') = ''v1'' \<and>
    (\<forall>(g, t) \<in> set (all_entries (kube @ [batch, core, istio])). New_object s g = Ok t) \<and>
    (\<exists>s'. AddToScheme s = (s', None) \<and> gvkToType s' = gvkToType s \<and> defaulterFuncs s' = defaulterFuncs s)"
proof -
  let ?ps = "kube @ [batch, core, istio]"
  obtain s where s: "NewSchema kube batch core istio = (s, None)" "scheme_ok s" "registered s = set (all_entries ?ps)"
    "defaulterFuncs s = [CloudShell_type \<mapsto> cloudshell_defaulter]"
    using NewSchema_adds [OF assms(1)] assms(2) by blast
  have paths: "fst CloudShell_type \<noteq> fst (meta_type '''')" "fst Pod_type \<noteq> fst (meta_type '''')" "Pod_type \<noteq> CloudShell_type"
    "Pod_type \<notin> set (snd cloudshell_package)"
    by (simp_all add: cloudshell_package_def CloudShell_type_def CloudShellList_type_def Pod_type_def v1alpha1_def meta_type_def)
  have "fst p = fst cloudshell_package" if "p \<in> set (cloudshell_package # ?ps)" "CloudShell_type \<in> set (snd p)" for p
  proof -
    have "v1alpha1 \<in> fst ` set (snd p)" using imageI [OF that(2), of fst] by (simp add: CloudShell_type_def)
    then show ?thesis using that(1) assms(2) by auto
  qed
  from GVKForObject_package [OF s(2,3) paths(1) _ _ this, of current]
  have "GVKForObject s CloudShell_type current = Ok (SchemeGroupVersion, ''CloudShell'')"
    by (simp add: cloudshell_package_def CloudShell_type_def)
  moreover have "fst p = fst core" if "p \<in> set (cloudshell_package # ?ps)" "Pod_type \<in> set (snd p)" for p
    using that paths(4) assms(2,3) by auto
  from GVKForObject_package [OF s(2,3) paths(2) _ assms(4) this, of current] assms(3)
  have "GVKForObject s Pod_type current = Ok (('''', ''v1''), ''Pod'')" by (simp add: Pod_type_def)
  moreover have "\<forall>(g, t) \<in> set (all_entries ?ps). New_object s g = Ok t"
    by (auto simp: s(3) [symmetric] registered_def New_object_def)
  moreover have "Default s (ObjCloudShell c) = ObjCloudShell (SetObjectDefaultsCloudShell c)" "Default s (ObjPod p) = ObjPod p" for c p
    using paths(3) by (simp_all add: Default_def s(4))
  moreover have "gv_String SchemeGroupVersion = ''cloudshell.cloudtty.io/v1alpha1''" "gv_String ('''', ''v1'') = ''v1''"
    by (simp_all add: gv_String_def SchemeGroupVersion_def GroupName_def)
  ultimately show ?thesis using s(1) AddToScheme_again [OF assms(1) s(2-4)] by blast
qed

definition sample_core :: "gv \<times> rtype list" where
  "sample_core = (('''', ''v1''), [Pod_type, (''k8s.io/api/core/v1'', ''Service'')])"

definition sample_batch :: "gv \<times> rtype list" where
  "sample_batch = ((''batch'', ''v1''), [(''k8s.io/api/batch/v1'', ''Job'')])"

definition sample_istio :: "gv \<times> rtype list" where
  "sample_istio = ((''networking.istio.io'', ''v1beta1''), [(''istio.io/client-go/pkg/apis/networking/v1beta1'', ''VirtualService'')])"

text \<open>The type of each kind in the sample.\<close>

fun sample_type :: "gvk \<Rightarrow> rtype" where
  "sample_type ((grp, version), kind) =
     (if kind = ''WatchEvent'' \<and> version = APIVersionInternal then meta_type ''InternalEvent''
      else if kind = ''WatchEvent'' \<or> meta_type kind \<in> set (optionsTypes @ unversioned_meta) then meta_type kind
      else if grp = '''' then (''k8s.io/api/core/v1'', kind)
      else if grp = ''batch'' then (''k8s.io/api/batch/v1'', kind)
      else if grp = ''networking.istio.io'' then (''istio.io/client-go/pkg/apis/networking/v1beta1'', kind)
      else (v1alpha1, kind))"

lemma single_valued_fun: "list_all (\<lambda>(g, t). t = f g) xs \<Longrightarrow> single_valued (set xs)"
  by (metis (mono_tags, lifting) case_prodD list_all_iff single_valuedI)

lemma sample_single: "single_valued (set (all_entries ([sample_batch] @ [sample_batch, sample_core, sample_istio])))"
  by (rule single_valued_fun [of sample_type]) code_simp

theorem scheme_startup_witness:
  "GVKForObject (fst (NewSchema [sample_batch] sample_batch sample_core sample_istio)) Pod_type None = Ok (('''', ''v1''), ''Pod'')"
proof -
  have "\<forall>p \<in> set ([sample_batch] @ [sample_batch, sample_core, sample_istio]).
      snd (fst p) \<noteq> '''' \<and> v1alpha1 \<notin> fst ` set (snd p) \<and> (Pod_type \<in> set (snd p) \<longrightarrow> fst p = ('''', ''v1''))"
    by (simp add: sample_core_def sample_batch_def sample_istio_def Pod_type_def v1alpha1_def)
  from scheme_startup [OF sample_single this, of None] show ?thesis by (auto simp: sample_core_def)
qed

text \<open>The two schemes of the clientset are built without a panic and know the types of the operator.\<close>

lemma clientset_Scheme_types:
  "\<exists>s. clientset_Scheme = (s, None) \<and> fake_scheme = (s, None) \<and> scheme_ok s \<and>
     New_object s (SchemeGroupVersion, ''CloudShell'') = Ok CloudShell_type \<and>
     New_object s (SchemeGroupVersion, ''CloudShellList'') = Ok CloudShellList_type"
proof -
  let ?R = "set (common_entries ('''', ''v1'') @ package_entries cloudshell_package)"
  have single: "single_valued ?R" by (rule single_valued_fun [of sample_type]) code_simp
  have "adds ?R (set (common_entries ('''', ''v1''))) Map.empty (AddToGroupVersion ('''', ''v1''))"
    using single by (intro adds_common) auto
  moreover have "adds ?R (set (package_entries cloudshell_package)) [CloudShell_type \<mapsto> cloudshell_defaulter] AddToScheme"
    using single by (intro adds_cloudshell) auto
  then have "adds ?R (set (package_entries cloudshell_package) \<union> {}) ([CloudShell_type \<mapsto> cloudshell_defaulter] ++ Map.empty)
      (Must (SchemeBuilder_AddToScheme [AddToScheme]))"
    unfolding SchemeBuilder_AddToScheme_def each.simps id_apply by (intro adds_Must adds_andthen adds_none)
  ultimately obtain s where s: "clientset_Scheme = (s, None)" "scheme_ok s" "registered s = {} \<union> (set (common_entries ('''', ''v1'')) \<union>
      (set (package_entries cloudshell_package) \<union> {}))"
    using addsE [OF adds_andthen scheme_ok_NewScheme(1)] scheme_ok_NewScheme(2)
    unfolding clientset_Scheme_def clientset_localSchemeBuilder_def by (metis empty_subsetI)
  have "((SchemeGroupVersion, snd t), t) \<in> registered s" if "t \<in> {CloudShell_type, CloudShellList_type}" for t
    using that by (auto simp: s(3) package_entries_def entries_of_def cloudshell_package_def)
  from this [of CloudShell_type] this [of CloudShellList_type] s(1,2) show ?thesis
    by (auto simp: registered_def New_object_def CloudShell_type_def CloudShellList_type_def fake_scheme_def
        clientset_Scheme_def fake_localSchemeBuilder_def clientset_localSchemeBuilder_def)
qed

end
