(* ===== verification/Lister.thy ===== *)
theory Lister
  imports Informers Routes
begin

text \<open>
  The read path of the controller: the generated lister
  (\<open>pkg/generated/listers/cloudshell/v1alpha1/cloudshell.go\<close>) over the indexer of client-go that
  the informer fills (\<open>store.go\<close>, \<open>thread_safe_store.go\<close>, \<open>index.go\<close> and \<open>listers.go\<close> of
  \<open>tools/cache\<close>), with its index by namespace, and the lister of a generic informer.

  The items of the store are an association list whose order is the unspecified order of a
  range over a Go map. There is at most one index, the one by namespace.

  Shown: whatever the informer does to the store, the index names exactly the objects of each
  namespace, and the lister answers as a map from namespace and name to cloudshells would: \<open>Get\<close>
  finds the object last stored, \<open>List\<close> returns each selected object once.
\<close>

section \<open>The store\<close>

record indexer =
  items :: "(string \<times> CloudShell) list"
  byNamespace :: bool
  nsIndex :: "(string \<times> string list) list"

definition NewIndexer :: "bool \<Rightarrow> indexer" where
  "NewIndexer indexed = \<lparr>items = [], byNamespace = indexed, nsIndex = []\<rparr>"

definition index_keys :: "indexer \<Rightarrow> string \<Rightarrow> string list" where
  "index_keys ix v = (case map_of (nsIndex ix) v of None \<Rightarrow> [] | Some ks \<Rightarrow> ks)"

definition MetaNamespaceIndexFunc :: "CloudShell \<Rightarrow> string list" where
  "MetaNamespaceIndexFunc obj = [Namespace (cmeta obj)]"

definition addKeyToIndex :: "string \<Rightarrow> string \<Rightarrow> indexer \<Rightarrow> indexer" where
  "addKeyToIndex key v ix = ix\<lparr>nsIndex := AList.update v (List.insert key (index_keys ix v)) (nsIndex ix)\<rparr>"

definition deleteKeyFromIndex :: "string \<Rightarrow> string \<Rightarrow> indexer \<Rightarrow> indexer" where
  "deleteKeyFromIndex key v ix =
     (case map_of (nsIndex ix) v of
        None \<Rightarrow> ix
      | Some ks \<Rightarrow>
          (let ks' = removeAll key ks in
           ix\<lparr>nsIndex := (if ks' = [] then AList.delete v (nsIndex ix) else AList.update v ks' (nsIndex ix))\<rparr>))"

definition updateIndices :: "CloudShell option \<Rightarrow> CloudShell option \<Rightarrow> string \<Rightarrow> indexer \<Rightarrow> indexer" where
  "updateIndices oldObj newObj key ix =
     (if \<not> byNamespace ix then ix
      else let oldIndexValues = (case oldObj of None \<Rightarrow> [] | Some obj \<Rightarrow> MetaNamespaceIndexFunc obj);
               indexValues = (case newObj of None \<Rightarrow> [] | Some obj \<Rightarrow> MetaNamespaceIndexFunc obj)
           in if length indexValues = 1 \<and> length oldIndexValues = 1 \<and> indexValues ! 0 = oldIndexValues ! 0 then ix
              else fold (addKeyToIndex key) indexValues (fold (deleteKeyFromIndex key) oldIndexValues ix))"

definition store_Update :: "string \<Rightarrow> CloudShell \<Rightarrow> indexer \<Rightarrow> indexer" where
  "store_Update key obj ix =
     updateIndices (map_of (items ix) key) (Some obj) key (ix\<lparr>items := AList.update key obj (items ix)\<rparr>)"

definition store_Delete :: "string \<Rightarrow> indexer \<Rightarrow> indexer" where
  "store_Delete key ix =
     (case map_of (items ix) key of
        None \<Rightarrow> ix
      | Some obj \<Rightarrow>
          (let ix1 = updateIndices (Some obj) None key ix in ix1\<lparr>items := AList.delete key (items ix1)\<rparr>))"

definition store_Replace :: "(string \<times> CloudShell) list \<Rightarrow> indexer \<Rightarrow> indexer" where
  "store_Replace its ix =
     fold (\<lambda>(key, item) i. updateIndices None (Some item) key i) its (ix\<lparr>items := its, nsIndex := []\<rparr>)"

definition store_List :: "indexer \<Rightarrow> CloudShell list" where
  "store_List ix = map snd (items ix)"

text \<open>\<open>Index\<close> with the index by namespace; an item whose key is not in the store would be nil.\<close>

definition store_Index :: "string \<Rightarrow> indexer \<Rightarrow> CloudShell option list res" where
  "store_Index ns ix =
     (if \<not> byNamespace ix then Err (Failure ''Index with name namespace does not exist'')
      else Ok (map (map_of (items ix)) (index_keys ix ns)))"

text \<open>The cache: the store under the keys of \<open>MetaNamespaceKeyFunc\<close>.\<close>

definition cache_Add :: "CloudShell \<Rightarrow> indexer \<Rightarrow> indexer" where
  "cache_Add obj = store_Update (MetaNamespaceKey (cmeta obj)) obj"

definition cache_Delete :: "CloudShell \<Rightarrow> indexer \<Rightarrow> indexer" where
  "cache_Delete obj = store_Delete (MetaNamespaceKey (cmeta obj))"

definition cache_Replace :: "CloudShell list \<Rightarrow> indexer \<Rightarrow> indexer" where
  "cache_Replace objs ix =
     store_Replace (fold (\<lambda>obj its. AList.update (MetaNamespaceKey (cmeta obj)) obj its) objs []) ix"

definition GetByKey :: "string \<Rightarrow> indexer \<Rightarrow> CloudShell option" where
  "GetByKey key ix = map_of (items ix) key"

section \<open>The lister\<close>

text \<open>A selector tells whether it is empty and which labels it matches.\<close>

type_synonym selector = "bool \<times> (gomap \<Rightarrow> bool)"

definition selects :: "selector \<Rightarrow> CloudShell \<Rightarrow> bool" where
  "selects sel m = (fst sel \<or> snd sel (Labels (cmeta m)))"

definition ListAll :: "indexer \<Rightarrow> selector \<Rightarrow> CloudShell list" where
  "ListAll ix sel = filter (selects sel) (store_List ix)"

text \<open>
  \<open>ListAllByNamespace\<close>; without the index it searches all objects, and then asks the selector
  even where it is empty.
\<close>

definition ListAllByNamespace :: "indexer \<Rightarrow> string \<Rightarrow> selector \<Rightarrow> CloudShell list res" where
  "ListAllByNamespace ix ns sel =
     (if ns = '''' then Ok (ListAll ix sel)
      else case store_Index ns ix of
        Inl _ \<Rightarrow> Ok (filter (\<lambda>m. Namespace (cmeta m) = ns \<and> snd sel (Labels (cmeta m))) (store_List ix))
      | Inr objs \<Rightarrow>
          if None \<in> set objs then Err (GoPanic ''interface conversion: interface is nil'')
          else Ok (filter (selects sel) (map the objs)))"

record cloudShellLister =
  lindexer :: indexer

record cloudShellNamespaceLister =
  nindexer :: indexer
  nnamespace :: string

definition NewCloudShellLister :: "indexer \<Rightarrow> cloudShellLister" where
  "NewCloudShellLister ix = \<lparr>lindexer = ix\<rparr>"

definition cloudShellLister_List :: "cloudShellLister \<Rightarrow> selector \<Rightarrow> CloudShell list" where
  "cloudShellLister_List s sel = ListAll (lindexer s) sel"

definition lister_CloudShells :: "cloudShellLister \<Rightarrow> string \<Rightarrow> cloudShellNamespaceLister" where
  "lister_CloudShells s ns = \<lparr>nindexer = lindexer s, nnamespace = ns\<rparr>"

definition namespaceLister_List :: "cloudShellNamespaceLister \<Rightarrow> selector \<Rightarrow> CloudShell list res" where
  "namespaceLister_List s sel = ListAllByNamespace (nindexer s) (nnamespace s) sel"

definition namespaceLister_Get :: "cloudShellNamespaceLister \<Rightarrow> string \<Rightarrow> CloudShell res" where
  "namespaceLister_Get s name =
     (case GetByKey (nnamespace s @ ''/'' @ name) (nindexer s) of
        None \<Rightarrow> Err NotFound
      | Some obj \<Rightarrow> Ok obj)"

text \<open>\<open>Lister\<close> of the informers; \<open>GetIndexer\<close>, the indexer behind an informer, is a parameter.\<close>

definition CloudShell_Lister ::
  "(('c, 'o) SharedIndexInformer \<Rightarrow> indexer) \<Rightarrow> 'o access \<Rightarrow> ('c, 'o, 'ch) sharedInformerFactory \<Rightarrow>
   cloudShellLister \<times> ('c, 'o, 'ch) sharedInformerFactory" where
  "CloudShell_Lister GetIndexer a f =
     (case CloudShell_Informer a f of (i, f') \<Rightarrow> (NewCloudShellLister (GetIndexer i), f'))"

record genericLister =
  xindexer :: indexer
  xresource :: "string \<times> string"

definition generic_Lister ::
  "(('c, 'o) SharedIndexInformer \<Rightarrow> indexer) \<Rightarrow> ('c, 'o) genericInformer \<Rightarrow> genericLister" where
  "generic_Lister GetIndexer g = \<lparr>xindexer = GetIndexer (generic_Informer g), xresource = gresource g\<rparr>"

section \<open>The index\<close>

text \<open>The index names exactly the keys of the objects \<open>M\<close> of each namespace, each once.\<close>

definition index_ok :: "indexer \<Rightarrow> (string \<rightharpoonup> CloudShell) \<Rightarrow> bool" where
  "index_ok ix M \<longleftrightarrow> (byNamespace ix \<longrightarrow>
     (\<forall>v. distinct (index_keys ix v) \<and> set (index_keys ix v) = {k. \<exists>c. M k = Some c \<and> Namespace (cmeta c) = v}))"

lemma index_keys_add [simp]:
  "index_keys (addKeyToIndex key v ix) w = (if w = v then List.insert key (index_keys ix v) else index_keys ix w)"
  by (simp add: index_keys_def addKeyToIndex_def update_conv)

lemma index_keys_delete [simp]:
  "index_keys (deleteKeyFromIndex key v ix) w = (if w = v then removeAll key (index_keys ix v) else index_keys ix w)"
  by (auto simp: index_keys_def deleteKeyFromIndex_def update_conv delete_conv Let_def split: option.splits)

lemma index_frame [simp]:
  "items (addKeyToIndex key v ix) = items ix" "byNamespace (addKeyToIndex key v ix) = byNamespace ix"
  "items (deleteKeyFromIndex key v ix) = items ix" "byNamespace (deleteKeyFromIndex key v ix) = byNamespace ix"
  by (simp_all add: addKeyToIndex_def deleteKeyFromIndex_def Let_def split: option.splits)

lemma index_keys_items [simp]: "index_keys (ix\<lparr>items := x\<rparr>) v = index_keys ix v" "index_ok (ix\<lparr>items := x\<rparr>) M = index_ok ix M"
  by (simp_all add: index_keys_def index_ok_def)

lemma updateIndices_frame [simp]:
  "items (updateIndices old new key ix) = items ix" "byNamespace (updateIndices old new key ix) = byNamespace ix"
  by (simp_all add: updateIndices_def MetaNamespaceIndexFunc_def Let_def split: option.splits)

lemma updateIndices_ok:
  assumes "index_ok ix M" "M key = old"
  shows "index_ok (updateIndices old new key ix) (M(key := new))"
proof (cases "byNamespace ix")
  case True
  then have ok: "distinct (index_keys ix v)" "set (index_keys ix v) = {k. \<exists>c. M k = Some c \<and> Namespace (cmeta c) = v}" for v
    using assms(1) by (auto simp: index_ok_def)
  show ?thesis unfolding index_ok_def
  proof (intro impI allI conjI)
    fix v
    show "distinct (index_keys (updateIndices old new key ix) v)"
      using True ok(1) by (cases old; cases new) (simp_all add: updateIndices_def MetaNamespaceIndexFunc_def distinct_removeAll)
    show "set (index_keys (updateIndices old new key ix) v) =
        {k. \<exists>c. (M(key := new)) k = Some c \<and> Namespace (cmeta c) = v}"
      using True ok(2) assms(2) by (cases old; cases new) (auto simp: updateIndices_def MetaNamespaceIndexFunc_def)
  qed
qed (simp add: index_ok_def)

section \<open>The store as a map\<close>

definition named :: "CloudShell \<Rightarrow> bool" where
  "named c \<longleftrightarrow> Namespace (cmeta c) \<noteq> '''' \<and> CHR ''/'' \<notin> set (Namespace (cmeta c))"

definition store_inv :: "indexer \<Rightarrow> bool" where
  "store_inv ix \<longleftrightarrow> distinct (map fst (items ix)) \<and>
     (\<forall>(k, c) \<in> set (items ix). k = MetaNamespaceKey (cmeta c) \<and> named c) \<and> index_ok ix (map_of (items ix))"

text \<open>The objects of the store by namespace and name.\<close>

definition shells :: "indexer \<Rightarrow> nsname \<Rightarrow> CloudShell option" where
  "shells ix = (\<lambda>(ns, name). if ns = '''' \<or> CHR ''/'' \<in> set ns then None else map_of (items ix) (ns @ ''/'' @ name))"

datatype store_op = OpAdd CloudShell | OpDelete CloudShell | OpReplace "CloudShell list"

fun run_op :: "store_op \<Rightarrow> indexer \<Rightarrow> indexer" where
  "run_op (OpAdd c) = cache_Add c"
| "run_op (OpDelete c) = cache_Delete c"
| "run_op (OpReplace cs) = cache_Replace cs"

fun map_op :: "store_op \<Rightarrow> (nsname \<rightharpoonup> CloudShell) \<Rightarrow> (nsname \<rightharpoonup> CloudShell)" where
  "map_op (OpAdd c) m = m(nsname_of (cmeta c) \<mapsto> c)"
| "map_op (OpDelete c) m = m(nsname_of (cmeta c) := None)"
| "map_op (OpReplace cs) m = fold (\<lambda>c m. m(nsname_of (cmeta c) \<mapsto> c)) cs Map.empty"

fun op_objects :: "store_op \<Rightarrow> CloudShell list" where
  "op_objects (OpAdd c) = [c]"
| "op_objects (OpDelete c) = [c]"
| "op_objects (OpReplace cs) = cs"

lemma split_at_first:
  "x \<notin> set a \<Longrightarrow> x \<notin> set a' \<Longrightarrow> a @ x # b = a' @ x # b' \<longleftrightarrow> a = a' \<and> b = b'"
proof (induction a arbitrary: a')
  case Nil
  then show ?case by (cases a') auto
next
  case (Cons y a)
  then show ?case by (cases a') auto
qed

lemma key_eq:
  assumes "named c" "CHR ''/'' \<notin> set ns"
  shows "ns @ CHR ''/'' # name = MetaNamespaceKey (cmeta c) \<longleftrightarrow> (ns, name) = nsname_of (cmeta c)"
  using split_at_first [OF assms(2), of "Namespace (cmeta c)" name "Name (cmeta c)"] assms(1)
  by (auto simp: MetaNamespaceKey_def nsname_of_def named_def)

lemma shells_update:
  assumes "named c" "map_of (items ix') = (map_of (items ix))(MetaNamespaceKey (cmeta c) := x)"
  shows "shells ix' = (shells ix)(nsname_of (cmeta c) := x)"
proof (rule ext)
  fix p :: nsname
  obtain ns name where p: "p = (ns, name)" by (cases p)
  show "shells ix' p = ((shells ix)(nsname_of (cmeta c) := x)) p"
    using key_eq [OF assms(1), of ns name] assms(1)
    by (auto simp: p shells_def assms(2) nsname_of_def named_def)
qed

lemma set_update_alist: "set (AList.update k v xs) \<subseteq> insert (k, v) (set xs)"
  by (induction xs) auto

lemma set_delete_alist: "set (AList.delete k xs) \<subseteq> set xs"
  by (induction xs) auto

lemma cache_Add_inv:
  assumes "store_inv ix" "named c"
  shows "store_inv (cache_Add c ix) \<and> shells (cache_Add c ix) = (shells ix)(nsname_of (cmeta c) \<mapsto> c)"
proof -
  let ?k = "MetaNamespaceKey (cmeta c)"
  have its: "items (cache_Add c ix) = AList.update ?k c (items ix)" by (simp add: cache_Add_def store_Update_def)
  then have m: "map_of (items (cache_Add c ix)) = (map_of (items ix))(?k \<mapsto> c)" by (simp add: update_conv')
  have "index_ok (cache_Add c ix) ((map_of (items ix))(?k \<mapsto> c))"
    unfolding cache_Add_def store_Update_def by (rule updateIndices_ok) (use assms(1) in \<open>simp_all add: store_inv_def\<close>)
  with set_update_alist [of ?k c "items ix"] show ?thesis
    using assms shells_update [OF assms(2) m] unfolding store_inv_def its by (auto simp: distinct_update update_conv')
qed

lemma cache_Delete_inv:
  assumes "store_inv ix" "named c"
  shows "store_inv (cache_Delete c ix) \<and> shells (cache_Delete c ix) = (shells ix)(nsname_of (cmeta c) := None)"
proof (cases "map_of (items ix) (MetaNamespaceKey (cmeta c))")
  case None
  then have "(map_of (items ix))(MetaNamespaceKey (cmeta c) := None) = map_of (items ix)" by auto
  with shells_update [OF assms(2), of ix ix None] None assms(1) show ?thesis
    by (simp add: cache_Delete_def store_Delete_def)
next
  case (Some old)
  let ?k = "MetaNamespaceKey (cmeta c)"
  have its: "items (cache_Delete c ix) = AList.delete ?k (items ix)"
    using Some by (simp add: cache_Delete_def store_Delete_def Let_def)
  then have m: "map_of (items (cache_Delete c ix)) = (map_of (items ix))(?k := None)" by (simp add: delete_conv')
  have "index_ok (updateIndices (Some old) None ?k ix) ((map_of (items ix))(?k := None))"
    by (rule updateIndices_ok) (use assms(1) Some in \<open>simp_all add: store_inv_def\<close>)
  then have "index_ok (cache_Delete c ix) ((map_of (items ix))(?k := None))"
    using Some by (simp add: cache_Delete_def store_Delete_def Let_def)
  then show ?thesis
    using assms shells_update [OF assms(2) m] unfolding store_inv_def its
    by (auto simp: distinct_delete delete_conv' dest: set_delete_alist [THEN subsetD])
qed

lemma replace_index:
  assumes "index_ok ix M" "distinct (map fst its)" "\<forall>k \<in> fst ` set its. M k = None"
  shows "index_ok (fold (\<lambda>(key, item) i. updateIndices None (Some item) key i) its ix) (M ++ map_of its)"
  using assms
proof (induction its arbitrary: ix M)
  case (Cons x its)
  obtain k c where x: "x = (k, c)" by (cases x)
  from Cons.prems have 1: "index_ok (updateIndices None (Some c) k ix) (M(k \<mapsto> c))" by (intro updateIndices_ok) (simp_all add: x)
  have "\<forall>j \<in> fst ` set its. (M(k \<mapsto> c)) j = None" using Cons.prems by (auto simp: x)
  from Cons.IH [OF 1 _ this] Cons.prems(2)
  have "index_ok (fold (\<lambda>(key, item) i. updateIndices None (Some item) key i) its (updateIndices None (Some c) k ix)) (M(k \<mapsto> c) ++ map_of its)"
    by (simp add: x fun_upd_def)
  moreover have "M(k \<mapsto> c) ++ map_of its = M ++ map_of (x # its)"
  proof -
    have "map_of its k = None" using Cons.prems(2) by (simp add: x map_of_eq_None_iff)
    then show ?thesis by (simp add: x map_add_def fun_eq_iff split: option.splits)
  qed
  moreover have "fold (\<lambda>(key, item) i. updateIndices None (Some item) key i) (x # its) ix =
      fold (\<lambda>(key, item) i. updateIndices None (Some item) key i) its (updateIndices None (Some c) k ix)" by (simp add: x)
  ultimately show ?case by (simp only:)
qed simp

lemma replace_frame [simp]:
  "items (fold (\<lambda>(key, item) i. updateIndices None (Some item) key i) its ix) = items ix"
  by (induction its arbitrary: ix) auto

lemma replace_items:
  assumes "\<forall>c \<in> set cs. named c" "distinct (map fst its)" "\<forall>(k, c) \<in> set its. k = MetaNamespaceKey (cmeta c) \<and> named c"
  shows "\<exists>its'. fold (\<lambda>obj its. AList.update (MetaNamespaceKey (cmeta obj)) obj its) cs its = its' \<and>
    distinct (map fst its') \<and> (\<forall>(k, c) \<in> set its'. k = MetaNamespaceKey (cmeta c) \<and> named c) \<and>
    shells (ix\<lparr>items := its'\<rparr>) = fold (\<lambda>c m. m(nsname_of (cmeta c) \<mapsto> c)) cs (shells (ix\<lparr>items := its\<rparr>))"
  using assms
proof (induction cs arbitrary: its)
  case (Cons c cs)
  let ?its = "AList.update (MetaNamespaceKey (cmeta c)) c its"
  have "distinct (map fst ?its)" "\<forall>(k, c) \<in> set ?its. k = MetaNamespaceKey (cmeta c) \<and> named c"
    using Cons.prems set_update_alist [of "MetaNamespaceKey (cmeta c)" c its] by (auto simp: distinct_update)
  from Cons.IH [OF _ this] Cons.prems(1)
    shells_update [of c "ix\<lparr>items := ?its\<rparr>" "ix\<lparr>items := its\<rparr>" "Some c"]
  show ?case by (simp add: update_conv')
qed simp

lemma cache_Replace_inv:
  assumes "\<forall>c \<in> set cs. named c"
  shows "store_inv (cache_Replace cs ix) \<and> shells (cache_Replace cs ix) = map_op (OpReplace cs) (shells ix)"
proof -
  let ?its = "fold (\<lambda>obj its. AList.update (MetaNamespaceKey (cmeta obj)) obj its) cs []"
  have its: "items (cache_Replace cs ix) = ?its" by (simp add: cache_Replace_def store_Replace_def)
  have empty: "shells (ix\<lparr>items := []\<rparr>) = Map.empty" by (auto simp: shells_def)
  have start: "index_ok (ix\<lparr>items := ?its, nsIndex := []\<rparr>) Map.empty" by (simp add: index_ok_def index_keys_def)
  from replace_items [OF assms, of "[]" ix]
  have r: "distinct (map fst ?its)" "\<forall>(k, c) \<in> set ?its. k = MetaNamespaceKey (cmeta c) \<and> named c"
    "shells (ix\<lparr>items := ?its\<rparr>) = fold (\<lambda>c m. m(nsname_of (cmeta c) \<mapsto> c)) cs Map.empty"
    by (simp_all add: empty)
  from replace_index [OF start r(1)]
  have "index_ok (cache_Replace cs ix) (map_of ?its)" by (simp add: cache_Replace_def store_Replace_def)
  moreover have "shells (cache_Replace cs ix) = shells (ix\<lparr>items := ?its\<rparr>)" by (auto simp: shells_def its fun_eq_iff)
  ultimately show ?thesis
    using r by (simp add: store_inv_def its)
qed

lemma run_op_inv:
  assumes "store_inv ix" "\<forall>c \<in> set (op_objects op). named c"
  shows "store_inv (run_op op ix) \<and> shells (run_op op ix) = map_op op (shells ix)"
  using assms cache_Add_inv cache_Delete_inv cache_Replace_inv by (cases op) auto

lemma run_ops_inv:
  assumes "\<forall>op \<in> set ops. \<forall>c \<in> set (op_objects op). named c" "store_inv ix"
  shows "store_inv (fold run_op ops ix) \<and> shells (fold run_op ops ix) = fold map_op ops (shells ix)"
  using assms run_op_inv by (induction ops arbitrary: ix) auto

section \<open>What the lister finds\<close>

lemma shells_item:
  assumes "store_inv ix" "(k, c) \<in> set (items ix)"
  shows "shells ix (nsname_of (cmeta c)) = Some c" "map_of (items ix) k = Some c"
proof -
  show m: "map_of (items ix) k = Some c" using assms by (simp add: store_inv_def)
  have "k = MetaNamespaceKey (cmeta c)" "named c" using assms by (auto simp: store_inv_def)
  then show "shells ix (nsname_of (cmeta c)) = Some c"
    using m by (simp add: shells_def named_def nsname_of_def MetaNamespaceKey_def)
qed

lemma shells_SomeD:
  assumes "store_inv ix" "shells ix (ns, name) = Some c"
  shows "(ns @ ''/'' @ name, c) \<in> set (items ix)" "nsname_of (cmeta c) = (ns, name)" "ns \<noteq> ''''"
proof -
  have ns: "ns \<noteq> ''''" "CHR ''/'' \<notin> set ns" "map_of (items ix) (ns @ ''/'' @ name) = Some c"
    using assms(2) by (auto simp: shells_def split: if_splits)
  from map_of_SomeD [OF ns(3)] show item: "(ns @ ''/'' @ name, c) \<in> set (items ix)" .
  with assms(1) have "ns @ ''/'' @ name = MetaNamespaceKey (cmeta c)" "named c" by (auto simp: store_inv_def)
  with key_eq [OF this(2) ns(2), of name] show "nsname_of (cmeta c) = (ns, name)" by simp
  show "ns \<noteq> ''''" by (rule ns(1))
qed

lemma distinct_objects:
  assumes "store_inv ix" "distinct ks" "set ks \<subseteq> fst ` set (items ix)"
  shows "distinct (map (\<lambda>k. nsname_of (cmeta (the (map_of (items ix) k)))) ks)"
  unfolding distinct_map
proof (intro conjI assms(2) inj_onI)
  fix k k' assume k: "k \<in> set ks" "k' \<in> set ks"
    and eq: "nsname_of (cmeta (the (map_of (items ix) k))) = nsname_of (cmeta (the (map_of (items ix) k')))"
  have "k = MetaNamespaceKey (cmeta (the (map_of (items ix) k)))" if "k \<in> set ks" for k
    using assms(1,3) that shells_item(2) [OF assms(1)] by (fastforce simp: store_inv_def)
  with k eq show "k = k'" by (metis MetaNamespaceKey_def nsname_of_def prod.inject)
qed

lemma lister_Get:
  assumes "ns \<noteq> ''''" "CHR ''/'' \<notin> set ns"
  shows "namespaceLister_Get (lister_CloudShells (NewCloudShellLister ix) ns) name =
    (case shells ix (ns, name) of None \<Rightarrow> Err NotFound | Some c \<Rightarrow> Ok c)"
  using assms
  by (simp add: namespaceLister_Get_def GetByKey_def lister_CloudShells_def NewCloudShellLister_def shells_def)

lemma items_objects:
  assumes "store_inv ix"
  shows "set (map snd (items ix)) = ran (shells ix)" "distinct (map (nsname_of \<circ> cmeta) (map snd (items ix)))"
proof -
  show "set (map snd (items ix)) = ran (shells ix)"
  proof (intro equalityI subsetI)
    fix c assume "c \<in> set (map snd (items ix))"
    then obtain k where "(k, c) \<in> set (items ix)" by auto
    from shells_item(1) [OF assms this] show "c \<in> ran (shells ix)" by (rule ranI)
  next
    fix c assume "c \<in> ran (shells ix)"
    then show "c \<in> set (map snd (items ix))" using shells_SomeD(1) [OF assms] by (force simp: ran_def)
  qed
  have "map (\<lambda>k. nsname_of (cmeta (the (map_of (items ix) k)))) (map fst (items ix)) = map (nsname_of \<circ> cmeta) (map snd (items ix))"
    using shells_item(2) [OF assms] by auto
  moreover have "distinct (map (\<lambda>k. nsname_of (cmeta (the (map_of (items ix) k)))) (map fst (items ix)))"
    using assms by (intro distinct_objects) (auto simp: store_inv_def)
  ultimately show "distinct (map (nsname_of \<circ> cmeta) (map snd (items ix)))" by (simp only:)
qed

lemma distinct_filter_map: "distinct (map f xs) \<Longrightarrow> distinct (map f (filter P xs))"
  by (auto simp: distinct_map intro: inj_on_subset)

lemma in_namespace:
  assumes "store_inv ix" "ns \<noteq> ''''"
  shows "{c \<in> ran (shells ix). Namespace (cmeta c) = ns \<and> P c} = {c. \<exists>name. shells ix (ns, name) = Some c \<and> P c}"
proof (intro equalityI subsetI)
  fix c assume "c \<in> {c \<in> ran (shells ix). Namespace (cmeta c) = ns \<and> P c}"
  then obtain p where p: "shells ix p = Some c" "Namespace (cmeta c) = ns" "P c" by (auto simp: ran_def)
  with shells_SomeD(2) [OF assms(1), of "fst p" "snd p" c] have "fst p = ns" by (auto simp: nsname_of_def)
  with p show "c \<in> {c. \<exists>name. shells ix (ns, name) = Some c \<and> P c}" by (cases p) auto
next
  fix c assume "c \<in> {c. \<exists>name. shells ix (ns, name) = Some c \<and> P c}"
  then show "c \<in> {c \<in> ran (shells ix). Namespace (cmeta c) = ns \<and> P c}"
    using shells_SomeD(2) [OF assms(1), of ns] by (auto simp: nsname_of_def intro: ranI)
qed

text \<open>By the index or, without it, by searching, the same objects are found.\<close>

lemma lister_namespace:
  assumes "store_inv ix" "ns \<noteq> ''''" "fst sel \<Longrightarrow> \<forall>l. snd sel l"
  shows "\<exists>objs. namespaceLister_List (lister_CloudShells (NewCloudShellLister ix) ns) sel = Ok objs \<and>
    set objs = {c. \<exists>name. shells ix (ns, name) = Some c \<and> selects sel c} \<and> distinct (map (nsname_of \<circ> cmeta) objs)"
proof (cases "byNamespace ix")
  case True
  let ?ks = "index_keys ix ns"
  have ks: "distinct ?ks" "set ?ks = {k. \<exists>c. map_of (items ix) k = Some c \<and> Namespace (cmeta c) = ns}"
    using assms(1) True by (simp_all add: store_inv_def index_ok_def)
  let ?objs = "map (the \<circ> map_of (items ix)) ?ks"
  have "None \<notin> map_of (items ix) ` set ?ks" by (auto simp: ks(2))
  then have "namespaceLister_List (lister_CloudShells (NewCloudShellLister ix) ns) sel = Ok (filter (selects sel) ?objs)"
    using True assms(2)
    by (simp add: namespaceLister_List_def lister_CloudShells_def NewCloudShellLister_def ListAllByNamespace_def store_Index_def)
  moreover have "set ?objs = {c \<in> ran (shells ix). Namespace (cmeta c) = ns}"
  proof -
    have "set ?objs = {c. \<exists>k. map_of (items ix) k = Some c \<and> Namespace (cmeta c) = ns}"
      using ks(2) by (force simp: image_iff)
    also have "\<dots> = {c \<in> set (map snd (items ix)). Namespace (cmeta c) = ns}"
      using assms(1) by (force simp: store_inv_def)
    finally show ?thesis using items_objects(1) [OF assms(1)] by simp
  qed
  then have "set (filter (selects sel) ?objs) = {c \<in> ran (shells ix). Namespace (cmeta c) = ns \<and> selects sel c}" by auto
  moreover have "set ?ks \<subseteq> fst ` set (items ix)" unfolding ks(2) by (force dest: map_of_SomeD)
  then have "distinct (map (nsname_of \<circ> cmeta) ?objs)"
    using distinct_objects [OF assms(1) ks(1)] by (simp add: comp_def)
  then have "distinct (map (nsname_of \<circ> cmeta) (filter (selects sel) ?objs))" by (rule distinct_filter_map)
  ultimately show ?thesis using in_namespace [OF assms(1,2), of "selects sel"] by auto
next
  case False
  let ?objs = "filter (\<lambda>m. Namespace (cmeta m) = ns \<and> snd sel (Labels (cmeta m))) (map snd (items ix))"
  have "namespaceLister_List (lister_CloudShells (NewCloudShellLister ix) ns) sel = Ok ?objs"
    using False assms(2)
    by (simp add: namespaceLister_List_def lister_CloudShells_def NewCloudShellLister_def ListAllByNamespace_def store_Index_def store_List_def)
  moreover have "selects sel m = snd sel (Labels (cmeta m))" for m using assms(3) by (auto simp: selects_def)
  then have "set ?objs = {c. \<exists>name. shells ix (ns, name) = Some c \<and> selects sel c}"
    using in_namespace [OF assms(1,2), of "selects sel"] items_objects(1) [OF assms(1)] by auto
  moreover have "distinct (map (nsname_of \<circ> cmeta) ?objs)"
    using distinct_filter_map [OF items_objects(2) [OF assms(1)]] by simp
  ultimately show ?thesis by blast
qed

text \<open>
  Property C25. The lister refines a map from namespace and name to cloudshells: whatever the
  informer adds, deletes or replaces, and with or without the index by namespace, \<open>Get\<close> returns
  the object last stored under the name or NotFound, and \<open>List\<close>, of all namespaces or of one,
  returns exactly the selected objects of the map, each once.
\<close>

theorem lister_refines_map:
  assumes "\<forall>op \<in> set ops. \<forall>c \<in> set (op_objects op). named c" and "fst sel \<Longrightarrow> \<forall>l. snd sel l"
    and "L = NewCloudShellLister (fold run_op ops (NewIndexer indexed))" and "m = fold map_op ops Map.empty"
  shows "(\<forall>ns name. ns \<noteq> '''' \<and> CHR ''/'' \<notin> set ns \<longrightarrow>
      namespaceLister_Get (lister_CloudShells L ns) name = (case m (ns, name) of None \<Rightarrow> Err NotFound | Some c \<Rightarrow> Ok c)) \<and>
    set (cloudShellLister_List L sel) = {c \<in> ran m. selects sel c} \<and>
    distinct (map (nsname_of \<circ> cmeta) (cloudShellLister_List L sel)) \<and>
    (\<forall>ns. ns \<noteq> '''' \<longrightarrow> (\<exists>objs. namespaceLister_List (lister_CloudShells L ns) sel = Ok objs \<and>
      set objs = {c. \<exists>name. m (ns, name) = Some c \<and> selects sel c} \<and> distinct (map (nsname_of \<circ> cmeta) objs)))"
proof -
  let ?ix = "fold run_op ops (NewIndexer indexed)"
  have "store_inv (NewIndexer indexed)" "shells (NewIndexer indexed) = Map.empty"
    by (auto simp: store_inv_def NewIndexer_def index_ok_def index_keys_def shells_def)
  with run_ops_inv [OF assms(1)] have ix: "store_inv ?ix" "shells ?ix = m" by (simp_all add: assms(4))
  have "cloudShellLister_List L sel = filter (selects sel) (map snd (items ?ix))"
    by (simp add: cloudShellLister_List_def ListAll_def store_List_def assms(3) NewCloudShellLister_def)
  with items_objects [OF ix(1)] ix(2)
  have "set (cloudShellLister_List L sel) = {c \<in> ran m. selects sel c}"
    "distinct (map (nsname_of \<circ> cmeta) (cloudShellLister_List L sel))"
    by (auto simp del: map_map intro: distinct_filter_map)
  with lister_Get [of _ ?ix] lister_namespace [OF ix(1) _ assms(2)] show ?thesis
    unfolding assms(3) ix(2) by blast
qed

theorem lister_refines_map_witness:
  "let ops = [OpAdd (blank_cs ''ns'' ''a''), OpAdd (blank_cs ''ns'' ''b''), OpDelete (blank_cs ''ns'' ''a'')];
       L = NewCloudShellLister (fold run_op ops (NewIndexer True))
   in namespaceLister_Get (lister_CloudShells L ''ns'') ''a'' = Err NotFound \<and>
      namespaceLister_Get (lister_CloudShells L ''ns'') ''b'' = Ok (blank_cs ''ns'' ''b'') \<and>
      set (cloudShellLister_List L (True, \<lambda>_. True)) = {blank_cs ''ns'' ''b''}"
proof -
  let ?ops = "[OpAdd (blank_cs ''ns'' ''a''), OpAdd (blank_cs ''ns'' ''b''), OpDelete (blank_cs ''ns'' ''a'')]"
  have "\<forall>op \<in> set ?ops. \<forall>c \<in> set (op_objects op). named c" by (simp add: named_def blank_cs_def blank_meta_def)
  from lister_refines_map [OF this _ refl [of "NewCloudShellLister (fold run_op ?ops (NewIndexer True))"] refl, of "(True, \<lambda>_. True)"]
  have spec: "namespaceLister_Get (lister_CloudShells (NewCloudShellLister (fold run_op ?ops (NewIndexer True))) ''ns'') name =
      (case fold map_op ?ops Map.empty (''ns'', name) of None \<Rightarrow> Err NotFound | Some c \<Rightarrow> Ok c)"
    "set (cloudShellLister_List (NewCloudShellLister (fold run_op ?ops (NewIndexer True))) (True, \<lambda>_. True)) = ran (fold map_op ?ops Map.empty)" for name
    by (simp_all add: selects_def)
  have "fold map_op ?ops Map.empty = [(''ns'', ''b'') \<mapsto> blank_cs ''ns'' ''b'']"
    by (auto simp: nsname_of_def blank_cs_def blank_meta_def fun_eq_iff)
  with spec show ?thesis by (simp add: Let_def del: fold_simps map_op.simps)
qed

end
