(* ===== verification/Templates.thy ===== *)
theory Templates
  imports Manifests
begin

text \<open>
  \<open>ParseTemplate\<close> of \<open>pkg/utils/util.go\<close> with the part of Go's \<open>text/template\<close> that the
  constants of \<open>pkg/manifests/manifests.go\<close> use: text, actions with a chain of fields or a
  variable, \<open>if\<close>, \<open>range\<close> with two variables, \<open>else\<close> and \<open>end\<close>, and the white space that
  \<open>{{-\<close> and \<open>-}}\<close> trim. A template outside this part gives \<open>NotModelled\<close>, never a
  made-up result.

  The constants are kept here as they stand in the source, with their actions. Shown: executing
  each of them over the struct its callers build has no error and gives exactly the text of the
  corresponding definition of \<open>Manifests\<close>, which the model of the callers uses.
\<close>

section \<open>Lexing\<close>

datatype tmpl_error = BadTemplate | ExecFailed | NotModelled

datatype token =
    TText string | TLeft | TRight | TField string | TVariable string | TIdentifier string
  | TSpace | TDeclare | TComma

definition blank :: "char \<Rightarrow> bool" where
  "blank c = (c \<in> {CHR '' '', CHR 0x09, CHR 0x0A, CHR 0x0D})"

definition is_letter :: "char \<Rightarrow> bool" where
  "is_letter c = (let n = of_char c :: nat in c = CHR ''_'' \<or> 65 \<le> n \<and> n \<le> 90 \<or> 97 \<le> n \<and> n \<le> 122)"

definition is_alnum :: "char \<Rightarrow> bool" where
  "is_alnum c = (is_letter c \<or> is_digit c)"

definition at_terminator :: "string \<Rightarrow> bool" where
  "at_terminator s =
     (case s of [] \<Rightarrow> True | c # _ \<Rightarrow> blank c \<or> c \<in> set ''.,|:()'' \<or> prefix ''}}'' s)"

text \<open>The trim markers: \<open>{{-\<close> needs a blank after the minus, \<open>-}}\<close> one before it.\<close>

definition left_trim :: "string \<Rightarrow> bool" where
  "left_trim s = (case s of d # c # _ \<Rightarrow> d = CHR ''-'' \<and> blank c | _ \<Rightarrow> False)"

definition right_trim :: "string \<Rightarrow> bool" where
  "right_trim s = (case s of c # d # r \<Rightarrow> blank c \<and> d = CHR ''-'' \<and> prefix ''}}'' r | _ \<Rightarrow> False)"

definition trim_right :: "string \<Rightarrow> string" where
  "trim_right s = rev (dropWhile blank (rev s))"

definition emit :: "token \<Rightarrow> tmpl_error + (token list \<times> string) \<Rightarrow> tmpl_error + (token list \<times> string)" where
  "emit t r = (case r of Inl e \<Rightarrow> Inl e | Inr (ts, rest) \<Rightarrow> Inr (t # ts, rest))"

text \<open>
  A field, variable or identifier that begins with \<open>c\<close>, and the input after it, which has to
  begin with a terminator.
\<close>

definition word_token :: "char \<Rightarrow> string \<Rightarrow> tmpl_error + token" where
  "word_token c w =
     (if c = CHR ''.'' then if w \<noteq> [] \<and> is_digit (hd w) then Inl NotModelled else Inr (TField w)
      else if c = CHR ''$'' then Inr (TVariable w)
      else if is_letter c then Inr (TIdentifier (c # w))
      else Inl NotModelled)"

definition lex_word :: "char \<Rightarrow> string \<Rightarrow> tmpl_error + (token \<times> string)" where
  "lex_word c cs =
     (case word_token c (takeWhile is_alnum cs) of
        Inl e \<Rightarrow> Inl e
      | Inr t \<Rightarrow>
          if at_terminator (dropWhile is_alnum cs) then Inr (t, dropWhile is_alnum cs) else Inl BadTemplate)"

text \<open>One token inside an action, and the input after it.\<close>

definition lex_char :: "char \<Rightarrow> string \<Rightarrow> tmpl_error + (token \<times> string)" where
  "lex_char c cs =
     (if blank c then Inr (TSpace, cs)
      else if c = CHR '','' then Inr (TComma, cs)
      else if c = CHR '':'' then (if prefix ''='' cs then Inr (TDeclare, tl cs) else Inl BadTemplate)
      else lex_word c cs)"

lemma lex_wordD: "lex_word c cs = Inr (t, xs) \<Longrightarrow>
    word_token c (takeWhile is_alnum cs) = Inr t \<and> xs = dropWhile is_alnum cs \<and> at_terminator xs"
  by (auto simp: lex_word_def split: sum.splits if_splits)

lemma lex_char_cases:
  assumes "lex_char c cs = Inr (t, xs)"
  obtains "xs = cs" "t \<noteq> TRight" "\<And>ds. lex_char c ds = Inr (t, ds)"
    | "cs = CHR ''='' # xs" "t = TDeclare" "c = CHR '':''"
    | "lex_word c cs = Inr (t, xs)" "\<And>ds. lex_char c ds = lex_word c ds"
proof -
  consider "blank c" | "c = CHR '',''" "\<not> blank c" | "c = CHR '':''" "\<not> blank c"
    | "\<not> blank c" "c \<noteq> CHR '',''" "c \<noteq> CHR '':''" by blast
  then show ?thesis
  proof cases
    case 3
    with assms show ?thesis by (cases cs) (auto simp: lex_char_def split: if_splits intro: that(2))
  qed (use assms that(1,3) in \<open>simp_all add: lex_char_def\<close>)
qed

lemma lex_char_shorter:
  assumes "lex_char c cs = Inr (t, xs)"
  shows "length xs \<le> length cs" "set xs \<subseteq> set cs"
  using assms
  by (cases rule: lex_char_cases; auto dest!: lex_wordD set_dropWhileD simp: length_dropWhile_le)+

text \<open>The tokens of an action after its opening delimiter, and the text after its closing one.\<close>

function lex_action :: "string \<Rightarrow> tmpl_error + (token list \<times> string)" where
  "lex_action s =
     (if prefix ''}}'' s then Inr ([TRight], drop 2 s)
      else if right_trim s then Inr ([TRight], dropWhile blank (drop 4 s))
      else case s of
        [] \<Rightarrow> Inl BadTemplate
      | c # cs \<Rightarrow>
          (case lex_char c cs of Inl e \<Rightarrow> Inl e | Inr (t, rest) \<Rightarrow> emit t (lex_action rest)))"
  by pat_completeness auto
termination
  by (relation "measure length") (auto dest: lex_char_shorter(1))

declare lex_action.simps [simp del]

fun cut_left :: "string \<Rightarrow> (string \<times> string) option" where
  "cut_left [] = None"
| "cut_left (c # cs) =
     (if prefix ''{{'' (c # cs) then Some ([], tl cs) else map_option (\<lambda>(t, r). (c # t, r)) (cut_left cs))"

lemma cut_left_shorter: "cut_left s = Some (t, r) \<Longrightarrow> length r < length s"
  by (induction s arbitrary: t r rule: cut_left.induct)
    (auto split: if_splits simp: less_Suc_eq_le intro: le_SucI)

lemma emit_Inr: "emit t r = Inr (ts, rest) \<longleftrightarrow> (\<exists>us. r = Inr (us, rest) \<and> ts = t # us)"
  by (cases r) (auto simp: emit_def split: prod.splits)

text \<open>How a lexed action began: at its end, or with a token.\<close>

lemma lex_action_cases:
  assumes "lex_action s = Inr (ts, rest)"
  obtains x where "s = ''}}'' @ x" "ts = [TRight]" "rest = x"
    | c x where "s = c # ''-}}'' @ x" "blank c" "ts = [TRight]" "rest = dropWhile blank x"
    | c cs t xs us where "s = c # cs" "\<not> prefix ''}}'' s" "\<not> right_trim s"
        "lex_char c cs = Inr (t, xs)" "lex_action xs = Inr (us, rest)" "ts = t # us"
proof -
  consider "prefix ''}}'' s" | "\<not> prefix ''}}'' s" "right_trim s" | "\<not> prefix ''}}'' s" "\<not> right_trim s" by blast
  then show ?thesis
  proof cases
    case 1
    with assms show ?thesis by (auto simp: lex_action.simps [of s] elim!: prefixE intro: that(1))
  next
    case 2
    then obtain c x where "s = c # ''-}}'' @ x" "blank c"
      by (auto simp: right_trim_def split: list.splits elim!: prefixE)
    moreover have "lex_action s = Inr ([TRight], dropWhile blank (drop 4 s))"
      using 2 by (simp add: lex_action.simps [of s])
    ultimately show ?thesis using assms by (auto intro: that(2))
  next
    case 3
    then obtain c cs t xs us where "s = c # cs" "lex_char c cs = Inr (t, xs)" "lex_action xs = Inr (us, rest)" "ts = t # us"
      using assms by (auto simp: lex_action.simps [of s] emit_Inr split: list.splits sum.splits)
    then show ?thesis using 3 by (intro that(3))
  qed
qed

lemma lex_action_shorter: "lex_action s = Inr (ts, rest) \<Longrightarrow> length rest \<le> length s"
proof (induction s arbitrary: ts rest rule: measure_induct_rule [of length])
  case (less s)
  from less.prems show ?case
  proof (cases rule: lex_action_cases)
    case (2 c x)
    then show ?thesis using length_dropWhile_le [of blank x] by simp
  next
    case (3 c cs t xs us)
    then show ?thesis using less.IH [of xs us rest] lex_char_shorter(1) [of c cs t xs] by simp
  qed simp
qed

definition text_token :: "string \<Rightarrow> token list" where
  "text_token t = (if t = [] then [] else [TText t])"

function lex_template :: "string \<Rightarrow> tmpl_error + token list" where
  "lex_template s =
     (case cut_left s of
        None \<Rightarrow> Inr (text_token s)
      | Some (t, r) \<Rightarrow>
          (let r' = (if left_trim r then drop 2 r else r) in
           if prefix ''/*'' r' then Inl NotModelled
           else case lex_action r' of
             Inl e \<Rightarrow> Inl e
           | Inr (ts, rest) \<Rightarrow>
               (case lex_template rest of
                  Inl e \<Rightarrow> Inl e
                | Inr us \<Rightarrow> Inr (text_token (if left_trim r then trim_right t else t) @ TLeft # ts @ us))))"
  by pat_completeness auto
termination
proof (relation "measure length", goal_cases)
  case (2 s p t r r' q ts rest)
  have "length rest \<le> length r'" using 2 by (auto dest: lex_action_shorter)
  also have "\<dots> \<le> length r" using 2 by simp
  also have "\<dots> < length s" using 2 by (auto dest: cut_left_shorter)
  finally show ?case by simp
qed simp

declare lex_template.simps [simp del]

section \<open>Parsing\<close>

text \<open>A chain of fields that starts at the dot, or at a variable (\<open>$\<close> itself has the empty name).\<close>

datatype operand = Dot "string list" | Var string "string list"

datatype item = IText string | IAction operand | IIf operand | IRange string string operand | IElse | IEnd

datatype tnode =
    TextNode string
  | ActionNode operand
  | IfNode operand "tnode list" "tnode list"
  | RangeNode string string operand "tnode list" "tnode list"

fun fields_of :: "token list \<Rightarrow> string list option" where
  "fields_of [] = Some []"
| "fields_of (TField f # ts) = (if f = '''' then None else map_option (Cons f) (fields_of ts))"
| "fields_of _ = None"

definition trim_tokens :: "token list \<Rightarrow> token list" where
  "trim_tokens ts = rev (dropWhile (\<lambda>t. t = TSpace) (rev (dropWhile (\<lambda>t. t = TSpace) ts)))"

definition operand_of :: "token list \<Rightarrow> tmpl_error + operand" where
  "operand_of ts =
     (case trim_tokens ts of
        [] \<Rightarrow> Inl BadTemplate
      | [TField f] \<Rightarrow> Inr (Dot (if f = '''' then [] else [f]))
      | TVariable x # us \<Rightarrow> (case fields_of us of None \<Rightarrow> Inl NotModelled | Some fs \<Rightarrow> Inr (Var x fs))
      | us \<Rightarrow> (case fields_of us of None \<Rightarrow> Inl NotModelled | Some fs \<Rightarrow> Inr (Dot fs)))"

definition range_of :: "token list \<Rightarrow> tmpl_error + item" where
  "range_of ts =
     (case filter (\<lambda>t. t \<noteq> TSpace) (takeWhile (\<lambda>t. t \<noteq> TDeclare) ts) of
        [TVariable k, TComma, TVariable v] \<Rightarrow>
          (case dropWhile (\<lambda>t. t \<noteq> TDeclare) ts of
             [] \<Rightarrow> Inl NotModelled
           | _ # us \<Rightarrow> map_sum id (IRange k v) (operand_of us))
      | _ \<Rightarrow> Inl NotModelled)"

text \<open>One action, from the tokens between its delimiters.\<close>

definition action_of :: "token list \<Rightarrow> tmpl_error + item" where
  "action_of ts =
     (case trim_tokens ts of
        [TIdentifier w] \<Rightarrow>
          if w = ''end'' then Inr IEnd
          else if w = ''else'' then Inr IElse
          else if w \<in> {''if'', ''range''} then Inl BadTemplate
          else Inl NotModelled
      | TIdentifier w # us \<Rightarrow>
          if w = ''if'' then map_sum id IIf (operand_of us)
          else if w = ''range'' then range_of us
          else Inl NotModelled
      | us \<Rightarrow> map_sum id IAction (operand_of us))"

fun items_of :: "token list option \<Rightarrow> token list \<Rightarrow> tmpl_error + item list" where
  "items_of None [] = Inr []"
| "items_of None (TText s # ts) = map_sum id (Cons (IText s)) (items_of None ts)"
| "items_of None (_ # ts) = items_of (Some []) ts"
| "items_of (Some acc) [] = Inl BadTemplate"
| "items_of (Some acc) (TRight # ts) =
     (case action_of (rev acc) of Inl e \<Rightarrow> Inl e | Inr i \<Rightarrow> map_sum id (Cons i) (items_of None ts))"
| "items_of (Some acc) (t # ts) = items_of (Some (t # acc)) ts"

text \<open>
  The tree: the open \<open>if\<close> and \<open>range\<close> are kept in a stack, each with the nodes before it and,
  after an \<open>else\<close>, its first list. A variable must be in scope: declared by an open \<open>range\<close>.
\<close>

datatype frame = FIf operand | FRange string string operand

fun vars_of :: "frame \<Rightarrow> string list" where
  "vars_of (FIf _) = []"
| "vars_of (FRange k v _) = [k, v]"

fun frame_operand :: "frame \<Rightarrow> operand" where
  "frame_operand (FIf op) = op"
| "frame_operand (FRange _ _ op) = op"

fun node_of :: "frame \<Rightarrow> tnode list \<Rightarrow> tnode list \<Rightarrow> tnode" where
  "node_of (FIf op) t e = IfNode op t e"
| "node_of (FRange k v op) t e = RangeNode k v op t e"

type_synonym open_block = "frame \<times> tnode list \<times> tnode list option"

fun in_scope :: "open_block list \<Rightarrow> operand \<Rightarrow> bool" where
  "in_scope st (Dot _) = True"
| "in_scope st (Var x _) = (x \<in> set ('''' # concat (map (vars_of \<circ> fst) st)))"

fun close_block :: "frame \<Rightarrow> tnode list option \<Rightarrow> tnode list \<Rightarrow> tnode" where
  "close_block f None body = node_of f body []"
| "close_block f (Some body) els = node_of f body els"

fun frame_of :: "item \<Rightarrow> frame option" where
  "frame_of (IIf op) = Some (FIf op)"
| "frame_of (IRange k v op) = Some (FRange k v op)"
| "frame_of _ = None"

fun build :: "open_block list \<Rightarrow> tnode list \<Rightarrow> item list \<Rightarrow> tmpl_error + tnode list" where
  "build [] cur [] = Inr (rev cur)"
| "build (_ # _) cur [] = Inl BadTemplate"
| "build st cur (IText s # is) = build st (TextNode s # cur) is"
| "build st cur (IAction op # is) =
     (if in_scope st op then build st (ActionNode op # cur) is else Inl BadTemplate)"
| "build st cur (IElse # is) =
     (case st of (f, outer, None) # st' \<Rightarrow> build ((f, outer, Some (rev cur)) # st') [] is | _ \<Rightarrow> Inl BadTemplate)"
| "build st cur (IEnd # is) =
     (case st of (f, outer, first) # st' \<Rightarrow> build st' (close_block f first (rev cur) # outer) is | _ \<Rightarrow> Inl BadTemplate)"
| "build st cur (i # is) =
     (case frame_of i of
        None \<Rightarrow> Inl BadTemplate
      | Some f \<Rightarrow>
          (let st' = (f, cur, None) # st in
           if in_scope st' (frame_operand f) then build st' [] is else Inl BadTemplate))"

definition parse :: "string \<Rightarrow> tmpl_error + tnode list" where
  "parse s =
     (case lex_template s of
        Inl e \<Rightarrow> Inl e
      | Inr ts \<Rightarrow> (case items_of None ts of Inl e \<Rightarrow> Inl e | Inr is \<Rightarrow> build [] [] is))"

section \<open>Execution\<close>

text \<open>
  The values a manifest is rendered from: strings, maps of strings, resource lists with their
  methods \<open>Cpu\<close> and \<open>Memory\<close>, quantities (as they print), structs and pointers to structs
  alike, the nil pointer; and the invalid value of a missing map key.
\<close>

datatype tval =
    Str string | StrMap gomap | ResList gomap | Quant string | Struct "(string \<times> tval) list" | NilPtr | NoValue

fun truth :: "tval \<Rightarrow> bool" where
  "truth (Str s) = (s \<noteq> '''')"
| "truth (StrMap m) = (gm_len m > 0)"
| "truth (ResList m) = (gm_len m > 0)"
| "truth (Quant _) = True"
| "truth (Struct _) = True"
| "truth NilPtr = False"
| "truth NoValue = False"

fun eval_field :: "tval \<Rightarrow> string \<Rightarrow> tmpl_error + tval" where
  "eval_field (Struct fs) f = (case map_of fs f of None \<Rightarrow> Inl ExecFailed | Some v \<Rightarrow> Inr v)"
| "eval_field (StrMap m) f = (case gm_lookup m f of None \<Rightarrow> Inr NoValue | Some s \<Rightarrow> Inr (Str s))"
| "eval_field (ResList m) f =
     (if f = ''Cpu'' then Inr (Quant (quantity m ''cpu''))
      else if f = ''Memory'' then Inr (Quant (quantity m ''memory''))
      else Inl NotModelled)"
| "eval_field NoValue f = Inr NoValue"
| "eval_field (Quant _) f = Inl NotModelled"
| "eval_field (Str _) f = Inl ExecFailed"
| "eval_field NilPtr f = Inl ExecFailed"

fun eval_chain :: "tval \<Rightarrow> string list \<Rightarrow> tmpl_error + tval" where
  "eval_chain v [] = Inr v"
| "eval_chain v (f # fs) = (case eval_field v f of Inl e \<Rightarrow> Inl e | Inr w \<Rightarrow> eval_chain w fs)"

fun eval_operand :: "tval \<Rightarrow> (string \<times> tval) list \<Rightarrow> operand \<Rightarrow> tmpl_error + tval" where
  "eval_operand dot vars (Dot fs) = eval_chain dot fs"
| "eval_operand dot vars (Var x fs) =
     (case map_of vars x of None \<Rightarrow> Inl ExecFailed | Some v \<Rightarrow> eval_chain v fs)"

fun print_value :: "tval \<Rightarrow> tmpl_error + string" where
  "print_value (Str s) = Inr s"
| "print_value (Quant q) = Inr q"
| "print_value NoValue = Inr ''<no value>''"
| "print_value _ = Inl NotModelled"

fun seq :: "(tmpl_error + string) list \<Rightarrow> tmpl_error + string" where
  "seq [] = Inr ''''"
| "seq (r # rs) = (case r of Inl e \<Rightarrow> Inl e | Inr s \<Rightarrow> map_sum id ((@) s) (seq rs))"

text \<open>
  \<open>walk\<close>. A \<open>range\<close> visits a map in the order of its keys, with the dot and the second variable
  set to the value and the first variable to the key; before the first round both variables
  hold the map.
\<close>

fun exec :: "tval \<Rightarrow> (string \<times> tval) list \<Rightarrow> tnode \<Rightarrow> tmpl_error + string" where
  "exec dot vars (TextNode s) = Inr s"
| "exec dot vars (ActionNode op) =
     (case eval_operand dot vars op of Inl e \<Rightarrow> Inl e | Inr v \<Rightarrow> print_value v)"
| "exec dot vars (IfNode op t e) =
     (case eval_operand dot vars op of
        Inl x \<Rightarrow> Inl x
      | Inr v \<Rightarrow> if truth v then seq (map (exec dot vars) t) else seq (map (exec dot vars) e))"
| "exec dot vars (RangeNode k v op t e) =
     (case eval_operand dot vars op of
        Inl x \<Rightarrow> Inl x
      | Inr (StrMap m) \<Rightarrow>
          if sorted_entries m = [] then seq (map (exec dot ((v, StrMap m) # (k, StrMap m) # vars)) e)
          else seq (map (\<lambda>(a, b). seq (map (exec (Str b) ((v, Str b) # (k, Str a) # vars)) t)) (sorted_entries m))
      | Inr (Str _) \<Rightarrow> Inl ExecFailed
      | Inr (Struct _) \<Rightarrow> Inl ExecFailed
      | Inr _ \<Rightarrow> Inl NotModelled)"

text \<open>
  \<open>util.ParseTemplate\<close>: parse, execute over \<open>obj\<close>, and wrap the errors; \<open>None\<close> for a template
  or a value outside the modelled part.
\<close>

definition ParseTemplate :: "string \<Rightarrow> tval \<Rightarrow> string res option" where
  "ParseTemplate strtmpl obj =
     (case parse strtmpl of
        Inl NotModelled \<Rightarrow> None
      | Inl _ \<Rightarrow> Some (Err (Failure ''error when parsing template''))
      | Inr nodes \<Rightarrow>
          (case seq (map (exec obj [('''', obj)]) nodes) of
             Inl NotModelled \<Rightarrow> None
           | Inl _ \<Rightarrow> Some (Err (Failure ''error when executing template''))
           | Inr out \<Rightarrow> Some (Ok out)))"


text \<open>\<open>util.LoadYamlTemplate\<close>, which nothing calls; \<open>os.ReadFile\<close> is a parameter.\<close>

definition LoadYamlTemplate :: "(string \<Rightarrow> string res) \<Rightarrow> string \<Rightarrow> string res" where
  "LoadYamlTemplate ReadFile fname = (case ReadFile fname of Inl e \<Rightarrow> Err e | Inr b \<Rightarrow> Ok b)"

section \<open>The constants\<close>

text \<open>
  The constants of \<open>manifests.go\<close>, line by line; each begins and ends with a newline.
  \<open>tag\<close> writes the delimiters of an action around its text.
\<close>

definition tag :: "string \<Rightarrow> string" where
  "tag a = ''{{'' @ a @ ''}}''"

definition PodTmplV1_text :: string where
  "PodTmplV1_text =
     lines [''apiVersion: v1'', ''kind: Pod'', ''metadata:'',
            ''  namespace: '' @ quote (tag '' .Namespace ''), ''  name: '' @ quote (tag '' .Name ''),
            ''spec:'', ''  containers:'', ''  - name: web-tty'',
            ''    image: '' @ quote (tag '' .Image ''), ''    imagePullPolicy: IfNotPresent'',
            ''    command:'', ''    - /bin/bash'', ''    - -ec'', ''    - |'',
            ''      while :; do sleep 2073600; done'', ''    ports:'', ''    - containerPort: 7681'',
            ''      name: tty-ui'', ''      protocol: TCP'', ''    '' @ tag ''- if .Resources '',
            ''    resources:'', ''      '' @ tag ''- if .Resources.Requests '', ''      requests:'',
            ''        cpu: '' @ tag '' .Resources.Requests.Cpu'',
            ''        memory: '' @ tag '' .Resources.Requests.Memory'', ''      '' @ tag ''- end '',
            ''      '' @ tag ''- if .Resources.Limits '', ''      limits:'',
            ''        cpu: '' @ tag '' .Resources.Limits.Cpu'',
            ''        memory: '' @ tag '' .Resources.Limits.Memory'', ''      '' @ tag ''- end '', ''    '' @ tag ''- end '',
            ''  nodeSelector:'', ''  '' @ tag ''range $key, $value := .NodeSelector'',
            ''    '' @ tag '' $key '' @ '': '' @ quote (tag '' $value ''), ''  '' @ tag ''end'', ''  restartPolicy: Never'',
            '''']"

definition ServiceTmplV1_text :: string where
  "ServiceTmplV1_text =
     lines [''apiVersion: v1'', ''kind: Service'', ''metadata:'', ''  name: '' @ quote (tag '' .Name ''),
            ''  namespace: '' @ quote (tag '' .Namespace ''), ''spec:'', ''  ports:'', ''  - name: ttyd'',
            ''    port: 7681'', ''    protocol: TCP'', ''    targetPort: 7681'', ''  selector:'',
            ''    worker.cloudtty.io/name: '' @ quote (tag '' .Worker ''), ''  type: '' @ tag '' .Type '', '''']"

definition IngressTmplV1_text :: string where
  "IngressTmplV1_text =
     lines [''apiVersion: networking.k8s.io/v1'', ''kind: Ingress'', ''metadata:'',
            ''  name: '' @ quote (tag '' .Name ''), ''  namespace: '' @ quote (tag '' .Namespace ''),
            ''  annotations:'', ''    nginx.ingress.kubernetes.io/rewrite-target: /'',
            ''    '' @ tag ''- range $key, $value := .Annotations '',
            ''    '' @ tag '' $key '' @ '': '' @ quote (tag '' $value ''), ''    '' @ tag ''- end '', ''spec:'',
            ''  ingressClassName: '' @ quote (tag '' .IngressClassName ''), ''  rules:'', ''  - http:'',
            ''      paths:'', ''      - path: '' @ quote (tag '' .Path ''), ''        pathType: Prefix'',
            ''        backend:'', ''          service:'',
            ''            name: '' @ quote (tag '' .ServiceName ''), ''            port:'',
            ''              number: 7681'', ''    '' @ tag ''- if .Host '',
            ''    host: '' @ quote (tag '' .Host ''), ''    '' @ tag ''- end '', '''']"

definition VirtualServiceV1Beta1_text :: string where
  "VirtualServiceV1Beta1_text =
     lines [''apiVersion: networking.istio.io/v1beta1'', ''kind: VirtualService'', ''metadata:'',
            ''  name: '' @ quote (tag '' .Name ''), ''  namespace: '' @ quote (tag '' .Namespace ''),
            ''spec:'', ''  exportTo:'', ''  - '' @ quote (tag '' .ExportTo ''), ''  gateways:'',
            ''  - '' @ quote (tag '' .Gateway ''), ''  hosts:'',
            ''  - '' @ [CHR 0x27] @ ''*'' @ [CHR 0x27], ''  http:'', ''  - match:'', ''    - uri:'',
            ''        prefix: '' @ quote (tag '' .Path ''), ''    rewrite:'', ''      uri: /'',
            ''    route:'', ''    - destination:'',
            ''        host: '' @ quote (tag '' .ServiceName '' @ ''.'' @ tag '' .Namespace '' @ ''.svc.cluster.local''),
            ''        port:'', ''          number: 7681'', '''']"

definition KubeconfigTmplV1_text :: string where
  "KubeconfigTmplV1_text =
     lines [''apiVersion: v1'', ''clusters:'', ''- cluster:'',
            ''    certificate-authority-data: '' @ quote (tag '' .CAData ''),
            ''    server: '' @ tag '' .Server '', ''  name: kubernetes'', ''contexts:'', ''- context:'',
            ''    cluster: kubernetes'', ''    user: cloudtty-controller-manager'',
            ''  name: cloudtty-controller-manager@kubernetes'',
            ''current-context: cloudtty-controller-manager@kubernetes'', ''kind: Config'', ''users:'',
            ''- name: cloudtty-controller-manager'', ''  user: '',
            ''    token: '' @ quote (tag '' .Token ''), '''']"

section \<open>Lexing piece by piece\<close>

lemma lex_action_Nil [simp]: "lex_action [] = Inl BadTemplate"
  by (simp add: lex_action.simps [of "[]"] right_trim_def)

lemma lex_action_close [simp]: "lex_action (CHR ''}'' # CHR ''}'' # x) = Inr ([TRight], x)"
  by (simp add: lex_action.simps [of "CHR ''}'' # CHR ''}'' # x"])

lemma at_terminator_append: "s \<noteq> [] \<Longrightarrow> at_terminator s \<Longrightarrow> at_terminator (s @ r)"
  using prefix_prefix [of "''}}''" s r] unfolding at_terminator_def
  by (cases s) (simp_all only: list.case append_Cons, blast+)

lemma lex_action_tokens:
  "lex_action s = Inr (ts, rest) \<Longrightarrow> \<exists>us. ts = us @ [TRight] \<and> TRight \<notin> set us"
proof (induction s arbitrary: ts rest rule: measure_induct_rule [of length])
  case (less s)
  from less.prems show ?case
  proof (cases rule: lex_action_cases)
    case (3 c cs t xs us)
    then obtain vs where "us = vs @ [TRight]" "TRight \<notin> set vs"
      using less.IH [of xs us rest] lex_char_shorter(1) [of c cs t xs] by auto
    moreover from 3(4) have "t \<noteq> TRight"
      by (cases rule: lex_char_cases) (auto dest!: lex_wordD simp: word_token_def split: if_splits)
    ultimately show ?thesis using 3(6) by (intro exI [of _ "t # vs"]) simp
  qed auto
qed

lemma lex_char_local:
  assumes "lex_char c cs = Inr (t, xs)" "xs \<noteq> []"
  shows "lex_char c (cs @ r) = Inr (t, xs @ r)"
  using assms(1)
proof (cases rule: lex_char_cases)
  case 3
  from lex_wordD [OF 3(1)] obtain x where "x \<in> set cs" "\<not> is_alnum x" using assms(2) by auto
  then have "takeWhile is_alnum (cs @ r) = takeWhile is_alnum cs" "dropWhile is_alnum (cs @ r) = xs @ r"
    using lex_wordD [OF 3(1)] by (auto simp: takeWhile_append1 dropWhile_append1)
  moreover have "at_terminator (xs @ r)" using lex_wordD [OF 3(1)] at_terminator_append [OF assms(2)] by blast
  ultimately show ?thesis using 3 lex_wordD [OF 3(1)] by (simp add: lex_word_def)
qed (use assms in \<open>simp_all add: lex_char_def split: if_splits\<close>)

text \<open>An action without a minus is lexed alike whatever text comes after it.\<close>

lemma lex_action_local:
  "lex_action s = Inr (ts, []) \<Longrightarrow> CHR ''-'' \<notin> set s \<Longrightarrow> lex_action (s @ r) = Inr (ts, r)"
proof (induction s arbitrary: ts rule: measure_induct_rule [of length])
  case (less s)
  from less.prems(1) show ?case
  proof (cases rule: lex_action_cases)
    case (3 c cs t xs us)
    then have "xs \<noteq> []" by auto
    then have c: "lex_char c (cs @ r) = Inr (t, xs @ r)" using lex_char_local 3(4) by blast
    from lex_char_shorter(1) [OF 3(4)] \<open>xs \<noteq> []\<close> obtain d ds where cs: "cs = d # ds" by (cases cs) simp_all
    have "\<not> prefix ''}}'' (s @ r)" using 3(2) unfolding 3(1) cs by simp
    moreover have "\<not> right_trim (s @ r)" using less.prems(2) unfolding 3(1) cs by (auto simp: right_trim_def)
    moreover have "lex_action (xs @ r) = Inr (us, r)"
      using less.IH [OF _ 3(5)] lex_char_shorter [OF 3(4)] 3(1) less.prems(2) by auto
    ultimately have "lex_action (s @ r) = Inr (t # us, r)"
      using c 3(1) by (subst lex_action.simps) (simp add: emit_def del: prefix_Cons Cons_prefix_Cons)
    then show ?thesis using 3(6) by simp
  next
    case (1 x)
    then show ?thesis by simp
  next
    case (2 c x)
    then show ?thesis using less.prems(2) by simp
  qed
qed

lemma items_of_action:
  "TRight \<notin> set us \<Longrightarrow> items_of (Some acc) (us @ TRight # ts) =
     (case action_of (rev acc @ us) of Inl e \<Rightarrow> Inl e | Inr i \<Rightarrow> map_sum id (Cons i) (items_of None ts))"
proof (induction us arbitrary: acc)
  case (Cons u us)
  then show ?case by (cases u) simp_all
qed simp

text \<open>
  The items of a template read from the left: \<open>acc\<close> is text already read, \<open>s\<close> what is to come.
\<close>

definition scan :: "string \<Rightarrow> string \<Rightarrow> tmpl_error + item list" where
  "scan acc s = (case lex_template (acc @ s) of Inl e \<Rightarrow> Inl e | Inr ts \<Rightarrow> items_of None ts)"

definition text_item :: "string \<Rightarrow> item list" where
  "text_item t = (if t = [] then [] else [IText t])"

text \<open>The item of an action, given without its delimiters and left trim marker.\<close>

definition action_item :: "string \<Rightarrow> tmpl_error + item" where
  "action_item b =
     (case lex_action (b @ ''}}'') of
        Inr (ts, []) \<Rightarrow> action_of (butlast ts)
      | _ \<Rightarrow> Inl NotModelled)"

lemma parse_scan: "parse s = (case scan [] s of Inl e \<Rightarrow> Inl e | Inr is \<Rightarrow> build [] [] is)"
  by (simp add: parse_def scan_def split: sum.split)

lemma cut_left_none: "CHR ''{'' \<notin> set t \<Longrightarrow> cut_left t = None"
  by (induction t) auto

lemma cut_left_some: "CHR ''{'' \<notin> set t \<Longrightarrow> cut_left (t @ CHR ''{'' # CHR ''{'' # r) = Some (t, r)"
  by (induction t) auto

lemma items_of_text: "items_of None (text_token t @ ts) = map_sum id ((@) (text_item t)) (items_of None ts)"
  by (cases "items_of None ts") (simp_all add: text_token_def text_item_def)

lemma lex_piece:
  assumes "CHR ''{'' \<notin> set acc" "lex_action b' = Inr (us @ [TRight], s)" "TRight \<notin> set us" "\<not> prefix ''/*'' b'"
    "b' = (if left_trim r then drop 2 r else r)"
  shows "scan acc (CHR ''{'' # CHR ''{'' # r) =
    (case action_of us of
       Inl e \<Rightarrow> (case lex_template s of Inl e' \<Rightarrow> Inl e' | Inr _ \<Rightarrow> Inl e)
     | Inr i \<Rightarrow> map_sum id (\<lambda>is. text_item (if left_trim r then trim_right acc else acc) @ i # is) (scan [] s))"
proof -
  have "lex_template (acc @ CHR ''{'' # CHR ''{'' # r) =
    map_sum id (\<lambda>ts. text_token (if left_trim r then trim_right acc else acc) @ TLeft # us @ TRight # ts) (lex_template s)"
    using assms by (subst lex_template.simps) (simp add: cut_left_some Let_def split: sum.split)
  then show ?thesis
    by (cases "lex_template s"; cases "action_of us"; cases "items_of None (projr (lex_template s))")
      (simp_all add: scan_def items_of_text items_of_action [OF assms(3)])
qed

lemma lex_action_item:
  assumes "action_item b = Inr i" "CHR ''-'' \<notin> set b"
  shows "\<exists>us. lex_action (b @ ''}}'' @ s) = Inr (us @ [TRight], s) \<and> TRight \<notin> set us \<and> action_of us = Inr i"
proof -
  from assms(1) obtain ts where ts: "lex_action (b @ ''}}'') = Inr (ts, [])" "action_of (butlast ts) = Inr i"
    by (auto simp: action_item_def split: sum.splits prod.splits list.splits)
  from lex_action_tokens [OF ts(1)] obtain us where "ts = us @ [TRight]" "TRight \<notin> set us" by blast
  with ts lex_action_local [OF ts(1), of s] assms(2) show ?thesis by auto
qed

lemma no_comment: "CHR ''/'' \<notin> set b \<Longrightarrow> \<not> prefix ''/*'' (b @ ''}}'' @ s)"
  by (cases b) auto

lemma scan_text: "CHR ''{'' \<notin> set t \<Longrightarrow> scan acc (t @ s) = scan (acc @ t) s"
  by (simp add: scan_def)

lemma scan_end: "CHR ''{'' \<notin> set acc \<Longrightarrow> scan acc [] = Inr (text_item acc)"
  by (simp add: scan_def lex_template.simps cut_left_none text_token_def text_item_def)

lemma scan_tag:
  assumes "CHR ''{'' \<notin> set acc" "CHR ''-'' \<notin> set b" "CHR ''/'' \<notin> set b" "\<exists>i. action_item b = Inr i"
  shows "scan acc (tag b @ s) = map_sum id (\<lambda>is. text_item acc @ projr (action_item b) # is) (scan [] s)"
proof -
  from assms(4) obtain i where i: "action_item b = Inr i" by blast
  from lex_action_item [OF i assms(2), of s] obtain us
    where "lex_action (b @ ''}}'' @ s) = Inr (us @ [TRight], s)" "TRight \<notin> set us" "action_of us = Inr i" by blast
  moreover have "\<not> left_trim (b @ ''}}'' @ s)" using assms(2) by (cases b) (auto simp: left_trim_def split: list.splits)
  ultimately show ?thesis
    using lex_piece [OF assms(1), of "b @ ''}}'' @ s" us s "b @ ''}}'' @ s"] no_comment [OF assms(3)] i by (simp add: tag_def)
qed

lemma scan_tag_trim:
  assumes "CHR ''{'' \<notin> set acc" "CHR ''-'' \<notin> set b" "CHR ''/'' \<notin> set b" "\<exists>i. action_item b = Inr i"
  shows "scan acc (tag (CHR ''-'' # CHR '' '' # b) @ s) =
    map_sum id (\<lambda>is. text_item (trim_right acc) @ projr (action_item b) # is) (scan [] s)"
proof -
  from assms(4) obtain i where i: "action_item b = Inr i" by blast
  from lex_action_item [OF i assms(2), of s] obtain us
    where "lex_action (b @ ''}}'' @ s) = Inr (us @ [TRight], s)" "TRight \<notin> set us" "action_of us = Inr i" by blast
  moreover have "left_trim (CHR ''-'' # CHR '' '' # b @ ''}}'' @ s)" by (simp add: left_trim_def blank_def)
  ultimately show ?thesis
    using lex_piece [OF assms(1), of "b @ ''}}'' @ s" us s "CHR ''-'' # CHR '' '' # b @ ''}}'' @ s"] no_comment [OF assms(3)] i
    by (simp add: tag_def)
qed

text \<open>The actions of the constants.\<close>

lemma action_items:
  "action_item '' .Namespace '' = Inr (IAction (Dot [''Namespace'']))"
  "action_item '' .Name '' = Inr (IAction (Dot [''Name'']))"
  "action_item '' .Image '' = Inr (IAction (Dot [''Image'']))"
  "action_item ''if .Resources '' = Inr (IIf (Dot [''Resources'']))"
  "action_item ''if .Resources.Requests '' = Inr (IIf (Dot [''Resources'', ''Requests'']))"
  "action_item '' .Resources.Requests.Cpu'' = Inr (IAction (Dot [''Resources'', ''Requests'', ''Cpu'']))"
  "action_item '' .Resources.Requests.Memory'' = Inr (IAction (Dot [''Resources'', ''Requests'', ''Memory'']))"
  "action_item ''end '' = Inr (IEnd)"
  "action_item ''if .Resources.Limits '' = Inr (IIf (Dot [''Resources'', ''Limits'']))"
  "action_item '' .Resources.Limits.Cpu'' = Inr (IAction (Dot [''Resources'', ''Limits'', ''Cpu'']))"
  "action_item '' .Resources.Limits.Memory'' = Inr (IAction (Dot [''Resources'', ''Limits'', ''Memory'']))"
  "action_item ''range $key, $value := .NodeSelector'' = Inr (IRange ''key'' ''value'' (Dot [''NodeSelector'']))"
  "action_item '' $key '' = Inr (IAction (Var ''key'' []))"
  "action_item '' $value '' = Inr (IAction (Var ''value'' []))"
  "action_item ''end'' = Inr (IEnd)"
  "action_item '' .Worker '' = Inr (IAction (Dot [''Worker'']))"
  "action_item '' .Type '' = Inr (IAction (Dot [''Type'']))"
  "action_item ''range $key, $value := .Annotations '' = Inr (IRange ''key'' ''value'' (Dot [''Annotations'']))"
  "action_item '' .IngressClassName '' = Inr (IAction (Dot [''IngressClassName'']))"
  "action_item '' .Path '' = Inr (IAction (Dot [''Path'']))"
  "action_item '' .ServiceName '' = Inr (IAction (Dot [''ServiceName'']))"
  "action_item ''if .Host '' = Inr (IIf (Dot [''Host'']))"
  "action_item '' .Host '' = Inr (IAction (Dot [''Host'']))"
  "action_item '' .ExportTo '' = Inr (IAction (Dot [''ExportTo'']))"
  "action_item '' .Gateway '' = Inr (IAction (Dot [''Gateway'']))"
  "action_item '' .CAData '' = Inr (IAction (Dot [''CAData'']))"
  "action_item '' .Server '' = Inr (IAction (Dot [''Server'']))"
  "action_item '' .Token '' = Inr (IAction (Dot [''Token'']))"
  by code_simp+

text \<open>
  The same rules over the pieces of text read so far, the last one first, so that trimming looks
  at the last pieces only.
\<close>

definition scan_pieces :: "string list \<Rightarrow> string \<Rightarrow> tmpl_error + item list" where
  "scan_pieces ps s = scan (concat (rev ps)) s"

fun trim_pieces :: "string list \<Rightarrow> string list" where
  "trim_pieces [] = []"
| "trim_pieces (p # ps) = (if list_all blank p then trim_pieces ps else trim_right p # ps)"

definition no_brace :: "string list \<Rightarrow> bool" where
  "no_brace ps = list_all (\<lambda>p. CHR ''{'' \<notin> set p) ps"

lemma trim_right_append: "trim_right (x @ y) = (if list_all blank y then trim_right x else x @ trim_right y)"
  by (simp add: trim_right_def dropWhile_append list_all_iff)

lemma trim_pieces: "trim_right (concat (rev ps)) = concat (rev (trim_pieces ps))"
  by (induction ps) (simp_all add: trim_right_append, simp add: trim_right_def)

lemma no_brace: "no_brace ps \<Longrightarrow> CHR ''{'' \<notin> set (concat (rev ps))"
  by (induction ps) (simp_all add: no_brace_def)

lemma parse_pieces: "parse s = (case scan_pieces [] s of Inl e \<Rightarrow> Inl e | Inr is \<Rightarrow> build [] [] is)"
  by (simp add: parse_scan scan_pieces_def)

lemma pieces_text: "CHR ''{'' \<notin> set t \<Longrightarrow> scan_pieces ps (t @ s) = scan_pieces (t # ps) s"
  by (simp add: scan_pieces_def scan_text)

lemma pieces_end: "no_brace ps \<Longrightarrow> scan_pieces ps [] = Inr (text_item (concat (rev ps)))"
  unfolding scan_pieces_def by (rule scan_end) (rule no_brace)

lemma pieces_tag:
  assumes "no_brace ps" "CHR ''-'' \<notin> set b" "CHR ''/'' \<notin> set b" "\<exists>i. action_item b = Inr i"
  shows "scan_pieces ps (tag b @ s) =
      map_sum id (\<lambda>is. text_item (concat (rev ps)) @ projr (action_item b) # is) (scan_pieces [] s)"
    and "scan_pieces ps (tag (CHR ''-'' # CHR '' '' # b) @ s) =
      map_sum id (\<lambda>is. text_item (concat (rev (trim_pieces ps))) @ projr (action_item b) # is) (scan_pieces [] s)"
  using scan_tag [OF no_brace assms(2-4)] scan_tag_trim [OF no_brace assms(2-4)] assms(1)
  by (simp_all add: scan_pieces_def trim_pieces)

lemma text_item_Cons: "t \<noteq> [] \<Longrightarrow> text_item t @ is = IText t # is"
  by (simp add: text_item_def)

section \<open>What the manifests render to\<close>

text \<open>The structs that the callers of \<open>ParseTemplate\<close> build.\<close>

definition pod_data :: "string \<Rightarrow> string \<Rightarrow> string \<Rightarrow> gomap \<Rightarrow> ResourceSetting option \<Rightarrow> tval" where
  "pod_data name ns img nodeSelector resources =
     Struct [(''Name'', Str name), (''Namespace'', Str ns), (''Image'', Str img),
       (''NodeSelector'', StrMap nodeSelector),
       (''Resources'', case resources of
          None \<Rightarrow> NilPtr
        | Some r \<Rightarrow> Struct [(''Limits'', ResList (Limits r)), (''Requests'', ResList (Requests r))])]"

definition service_data :: "string \<Rightarrow> string \<Rightarrow> string \<Rightarrow> string \<Rightarrow> tval" where
  "service_data name ns worker type =
     Struct [(''Name'', Str name), (''Namespace'', Str ns), (''Worker'', Str worker), (''Type'', Str type)]"


definition ingress_data ::
  "string \<Rightarrow> string \<Rightarrow> string \<Rightarrow> string \<Rightarrow> string \<Rightarrow> gomap \<Rightarrow> string \<Rightarrow> tval" where
  "ingress_data name ns ingressClassName path serviceName annotations host =
     Struct [(''Name'', Str name), (''Namespace'', Str ns), (''IngressClassName'', Str ingressClassName),
       (''Path'', Str path), (''ServiceName'', Str serviceName), (''Annotations'', StrMap annotations), (''Host'', Str host)]"

definition virtual_service_data ::
  "string \<Rightarrow> string \<Rightarrow> string \<Rightarrow> string \<Rightarrow> string \<Rightarrow> string \<Rightarrow> tval" where
  "virtual_service_data name ns exportTo gateway path serviceName =
     Struct [(''Name'', Str name), (''Namespace'', Str ns), (''ExportTo'', Str exportTo),
       (''Gateway'', Str gateway), (''Path'', Str path), (''ServiceName'', Str serviceName)]"

definition kubeconfig_data :: "string \<Rightarrow> string \<Rightarrow> string \<Rightarrow> tval" where
  "kubeconfig_data caData server token =
     Struct [(''CAData'', Str caData), (''Server'', Str server), (''Token'', Str token)]"

lemma pieces [simp]: "CHR ''{'' \<notin> set nl" "CHR ''{'' \<notin> set dq" "list_all blank nl" "nl \<noteq> []" "dq \<noteq> []"
  by (simp_all add: nl_def dq_def blank_def)

lemma dq_same [simp]: "\<not> list_all blank dq" "trim_right dq = dq"
  by (simp_all add: dq_def blank_def trim_right_def)

lemma pieces_last: "no_brace ps \<Longrightarrow> scan_pieces ps nl = Inr (text_item (concat (rev ps) @ nl))"
  using pieces_text [of nl ps "[]"] pieces_end [of "nl # ps"] by (simp add: no_brace_def)

lemma trim_right_same: "t \<noteq> [] \<Longrightarrow> \<not> blank (last t) \<Longrightarrow> trim_right t = t"
  by (induction t rule: rev_induct) (simp_all add: trim_right_def)

lemma text_item_same: "text_item [] = []" "t \<noteq> [] \<Longrightarrow> text_item t = [IText t]"
  by (simp_all add: text_item_def)

lemma seq_pairs: "seq (map (\<lambda>(a, b). Inr (f a b)) xs) = Inr (concat (map (\<lambda>(a, b). f a b) xs))"
  by (induction xs) auto

lemmas scan_rules = parse_pieces pieces_text pieces_end pieces_last pieces_tag action_items text_item_Cons text_item_same
  no_brace_def lines_def quote_def blank_def trim_right_same

lemma service_rendered:
  "ParseTemplate ServiceTmplV1_text (service_data name ns worker type) = Some (Ok (ServiceTmplV1 name ns worker type))"
  by (simp add: ParseTemplate_def ServiceTmplV1_text_def scan_rules del: append_Cons)
    (simp add: service_data_def ServiceTmplV1_def lines_def quote_def)

lemma pod_rendered:
  "ParseTemplate PodTmplV1_text (pod_data name ns img sel res) = Some (Ok (PodTmplV1 name ns img sel res))"
  by (simp add: ParseTemplate_def PodTmplV1_text_def scan_rules del: append_Cons, cases res)
    (simp_all add: pod_data_def PodTmplV1_def lines_def quote_def seq_pairs render_resource_list_def)

lemma ingress_rendered:
  "ParseTemplate IngressTmplV1_text (ingress_data name ns cls path svc ann host) =
   Some (Ok (IngressTmplV1 name ns cls path svc ann host))"
  by (simp add: ParseTemplate_def IngressTmplV1_text_def scan_rules del: append_Cons)
    (simp add: ingress_data_def IngressTmplV1_def lines_def quote_def seq_pairs)

lemma virtual_service_rendered:
  "ParseTemplate VirtualServiceV1Beta1_text (virtual_service_data name ns exportTo gateway path svc) =
   Some (Ok (VirtualServiceV1Beta1 name ns exportTo gateway path svc))"
  by (simp add: ParseTemplate_def VirtualServiceV1Beta1_text_def scan_rules del: append_Cons)
    (simp add: virtual_service_data_def VirtualServiceV1Beta1_def lines_def quote_def)

lemma kubeconfig_rendered:
  "ParseTemplate KubeconfigTmplV1_text (kubeconfig_data caData server token) = Some (Ok (KubeconfigTmplV1 caData server token))"
  by (simp add: ParseTemplate_def KubeconfigTmplV1_text_def scan_rules del: append_Cons)
    (simp add: kubeconfig_data_def KubeconfigTmplV1_def lines_def quote_def)

text \<open>
  Property C22. Each manifest constant, parsed and executed by \<open>ParseTemplate\<close> over the struct
  its callers build, renders without error to exactly the text that the model of the callers
  uses: trimmed white space, sorted map entries, missing quantities and absent optional parts
  included, for all values of the fields.
\<close>

theorem manifests_rendered:
  "ParseTemplate PodTmplV1_text (pod_data name ns img sel res) = Some (Ok (PodTmplV1 name ns img sel res)) \<and>
   ParseTemplate ServiceTmplV1_text (service_data name ns worker type) = Some (Ok (ServiceTmplV1 name ns worker type)) \<and>
   ParseTemplate IngressTmplV1_text (ingress_data name ns cls path svc ann host) =
     Some (Ok (IngressTmplV1 name ns cls path svc ann host)) \<and>
   ParseTemplate VirtualServiceV1Beta1_text (virtual_service_data name ns exportTo gateway path svc) =
     Some (Ok (VirtualServiceV1Beta1 name ns exportTo gateway path svc)) \<and>
   ParseTemplate KubeconfigTmplV1_text (kubeconfig_data caData server token) =
     Some (Ok (KubeconfigTmplV1 caData server token))"
  by (intro conjI pod_rendered service_rendered ingress_rendered virtual_service_rendered kubeconfig_rendered)

text \<open>
  Values are not escaped: whatever lines \<open>xs\<close> are wanted, an image name can be
  chosen with which the manifest of the worker pod is that of the plain image with the
  lines \<open>xs\<close> (and a working directory) added to the container.
\<close>

theorem pod_manifest_unescaped:
  "\<exists>before after. PodTmplV1 name ns img sel res = before @ lines [''    image: '' @ quote img] @ after \<and>
     (\<forall>xs. PodTmplV1 name ns (img @ dq @ lines xs @ nl @ ''    workingDir: '' @ dq) sel res =
        before @ lines ((''    image: '' @ quote img) # xs @ [''    workingDir: '' @ quote '''']) @ after)"
proof -
  let ?before = "lines [''apiVersion: v1'', ''kind: Pod'', ''metadata:'', ''  namespace: '' @ quote ns,
    ''  name: '' @ quote name, ''spec:'', ''  containers:'', ''  - name: web-tty'']"
  have "\<exists>after. \<forall>i. PodTmplV1 name ns i sel res = ?before @ lines [''    image: '' @ quote i] @ after"
    by (simp add: PodTmplV1_def lines_def)
  then obtain after where "\<forall>i. PodTmplV1 name ns i sel res = ?before @ lines [''    image: '' @ quote i] @ after" ..
  then show ?thesis by (intro exI [of _ ?before] exI [of _ after]) (simp add: lines_def quote_def)
qed

end
