(* ===== verification/Release_Version.thy ===== *)
theory Release_Version
  imports GoStrings Prelude
begin

text \<open>
  The version package: \<open>pkg/version/release.go\<close> on top of the generic parser of
  \<open>k8s.io/apimachinery/pkg/util/version\<close>, and the build information of \<open>version.go\<close>.

  Shown: parsing finds the numbers at the start of a git version, whatever follows them, and
  the release names made of them are versions again, with the same numbers.
\<close>

section \<open>Parsing\<close>

text \<open>
  The regular expression \<open>^\s*v?([0-9]+(?:\.[0-9]+)*)(.*)*$\<close> as its first group: blanks and a
  \<open>v\<close> are skipped, the groups of digits are taken as long as they go, and the rest may be
  anything on the same line. Taking fewer digits could not help, since the rest would only
  be longer.
\<close>

definition re_space :: "char \<Rightarrow> bool" where
  "re_space c = (of_char c \<in> {9, 10, 12, 13, 32 :: nat})"

definition newline :: char where "newline = char_of (10 :: nat)"

function number_groups :: "string \<Rightarrow> string \<times> string" where
  "number_groups s =
     (if s \<noteq> [] \<and> hd s = CHR ''.'' \<and> takeWhile is_digit (tl s) \<noteq> []
      then case number_groups (dropWhile is_digit (tl s)) of
             (more, rest) \<Rightarrow> (CHR ''.'' # takeWhile is_digit (tl s) @ more, rest)
      else ([], s))"
  by pat_completeness auto
termination
proof (relation "measure length")
  fix s :: string
  assume "s \<noteq> [] \<and> hd s = CHR ''.'' \<and> takeWhile is_digit (tl s) \<noteq> []"
  then show "(dropWhile is_digit (tl s), s) \<in> measure length"
    by (cases s) (auto simp: le_imp_less_Suc length_dropWhile_le)
qed simp

declare number_groups.simps [simp del]

definition version_numbers :: "string \<Rightarrow> string option" where
  "version_numbers str =
     (let s = dropWhile re_space str;
          s = (if s \<noteq> [] \<and> hd s = CHR ''v'' then tl s else s);
          first = takeWhile is_digit s
      in if first = [] then None
         else case number_groups (dropWhile is_digit s) of
                (more, rest) \<Rightarrow> if newline \<in> set rest then None else Some (first @ more))"

text \<open>\<open>strconv.ParseUint(part, 10, 0)\<close> of a string of digits, with 64 bits.\<close>

definition uint_value :: "string \<Rightarrow> nat" where
  "uint_value part = foldl (\<lambda>n c. 10 * n + digit_val c) 0 part"

definition parse_uint64 :: "string \<Rightarrow> nat res" where
  "parse_uint64 part = (if uint_value part < 2 ^ 64 then Ok (uint_value part) else Err (Failure ''value out of range''))"

fun parse_components :: "bool \<Rightarrow> string list \<Rightarrow> nat list res" where
  "parse_components first [] = Ok []"
| "parse_components first (part # parts) =
     (if first \<and> HasPrefix part ''0'' \<and> part \<noteq> ''0'' then Err (Failure ''illegal zero-prefixed version component'')
      else case parse_uint64 part of
             Inl e \<Rightarrow> Err (Failure ''illegal non-numeric version component'')
           | Inr num \<Rightarrow> (case parse_components False parts of Inl e \<Rightarrow> Err e | Inr nums \<Rightarrow> Ok (num # nums)))"

record Version =
  components :: "nat list"

definition ParseGeneric :: "string \<Rightarrow> Version res" where
  "ParseGeneric str =
     (case version_numbers str of
        None \<Rightarrow> Err (Failure ''could not parse as version'')
      | Some numbers \<Rightarrow>
          if length (Split numbers ''.'') < 2 then Err (Failure ''illegal version string'')
          else case parse_components True (Split numbers ''.'') of
                 Inl e \<Rightarrow> Err e
               | Inr nums \<Rightarrow> Ok \<lparr>components = nums\<rparr>)"

definition Major :: "Version \<Rightarrow> nat" where "Major v = components v ! 0"
definition Minor :: "Version \<Rightarrow> nat" where "Minor v = components v ! 1"

definition Patch :: "Version \<Rightarrow> nat" where
  "Patch v = (if length (components v) < 3 then 0 else components v ! 2)"

section \<open>Releases\<close>

text \<open>A \<open>ReleaseVersion\<close> is its embedded pointer to a version.\<close>

type_synonym ReleaseVersion = "Version option"

definition ParseGitVersion :: "string \<Rightarrow> ReleaseVersion res" where
  "ParseGitVersion gitVersion =
     (case ParseGeneric gitVersion of Inl e \<Rightarrow> Err e | Inr v \<Rightarrow> Ok (Some v))"

definition FirstMinorRelease :: "ReleaseVersion \<Rightarrow> string" where
  "FirstMinorRelease r =
     (case r of
        None \<Rightarrow> ''<nil>''
      | Some v \<Rightarrow> ''v'' @ string_of_nat (Major v) @ ''.'' @ string_of_nat (Minor v) @ ''.0'')"

definition PatchRelease :: "ReleaseVersion \<Rightarrow> string" where
  "PatchRelease r =
     (case r of
        None \<Rightarrow> ''<nil>''
      | Some v \<Rightarrow> ''v'' @ string_of_nat (Major v) @ ''.'' @ string_of_nat (Minor v) @ ''.'' @ string_of_nat (Patch v))"

text \<open>
  The build information, with what the linker may have replaced of the defaults in \<open>base.go\<close>
  and what the Go runtime reports as arguments.
\<close>

record Info =
  GitVersion :: string
  GitCommit :: string
  GitTreeState :: string
  BuildDate :: string
  GoVersion :: string
  Compiler :: string
  Platform :: string

record go_runtime =
  rtVersion :: string
  rtCompiler :: string
  rtGOOS :: string
  rtGOARCH :: string

definition gitVersion :: string where "gitVersion = ''v0.0.0-master''"
definition gitCommit :: string where "gitCommit = ''unknown''"
definition gitTreeState :: string where "gitTreeState = ''unknown''"
definition buildDate :: string where "buildDate = ''unknown''"

definition version_Get :: "go_runtime \<Rightarrow> Info" where
  "version_Get rt =
     \<lparr>GitVersion = gitVersion, GitCommit = gitCommit, GitTreeState = gitTreeState, BuildDate = buildDate,
      GoVersion = rtVersion rt, Compiler = rtCompiler rt, Platform = rtGOOS rt @ ''/'' @ rtGOARCH rt\<rparr>"

section \<open>Properties\<close>

lemma uint_value_snoc [simp]: "uint_value (s @ [c]) = 10 * uint_value s + digit_val c"
  by (simp add: uint_value_def)

lemma uint_value_string_of_nat [simp]: "uint_value (string_of_nat n) = n"
proof (induction n rule: string_of_nat.induct)
  case (1 n)
  show ?case
  proof (cases "n < 10")
    case True
    then show ?thesis by (simp add: string_of_nat.simps [of n] uint_value_def)
  next
    case False
    with 1 show ?thesis by (simp add: string_of_nat.simps [of n])
  qed
qed

lemma first_digit: "string_of_nat n = c # cs \<Longrightarrow> c = CHR ''0'' \<Longrightarrow> cs = []"
proof (induction n arbitrary: cs rule: string_of_nat.induct)
  case (1 n)
  show ?case
  proof (cases "n < 10")
    case False
    then obtain d ds where d: "string_of_nat (n div 10) = d # ds" by (cases "string_of_nat (n div 10)") auto
    moreover have "d = c" using "1.prems"(1) d False by (simp add: string_of_nat.simps [of n])
    ultimately have "ds = []" using "1.IH" [OF False, of ds] "1.prems"(2) by simp
    then have "n div 10 = 0" using d \<open>d = c\<close> "1.prems"(2) uint_value_string_of_nat [of "n div 10"]
      by (simp add: uint_value_def digit_val_def)
    with False show ?thesis by simp
  qed (use "1.prems" in \<open>simp add: string_of_nat.simps [of n]\<close>)
qed

lemma no_leading_zero: "HasPrefix (string_of_nat n) ''0'' \<Longrightarrow> string_of_nat n = ''0''"
  using first_digit by (cases "string_of_nat n") (auto simp: HasPrefix_def)

lemma parse_uint64_string_of_nat [simp]: "n < 2 ^ 64 \<Longrightarrow> parse_uint64 (string_of_nat n) = Ok n"
  by (simp add: parse_uint64_def)

text \<open>Taking the digits of a printed number, up to something that is no digit.\<close>

definition ends_number :: "string \<Rightarrow> bool" where
  "ends_number rest = (rest = [] \<or> \<not> is_digit (hd rest))"

lemma take_number:
  assumes "ends_number rest"
  shows "takeWhile is_digit (string_of_nat n @ rest) = string_of_nat n"
    and "dropWhile is_digit (string_of_nat n @ rest) = rest"
  using assms digits_of_string_of_nat
  by (auto simp: ends_number_def takeWhile_append dropWhile_append takeWhile_eq_Nil_iff dropWhile_eq_self_iff)

lemma dot_ends: "ends_number (CHR ''.'' # s)"
  by (simp add: ends_number_def is_digit_def)

lemma number_group:
  "ends_number rest \<Longrightarrow> number_groups (CHR ''.'' # string_of_nat n @ rest) =
     (CHR ''.'' # string_of_nat n @ fst (number_groups rest), snd (number_groups rest))"
  by (subst number_groups.simps) (simp add: take_number split: prod.splits)

text \<open>What may follow the numbers: no further digits, and no line break.\<close>

definition version_extra :: "string \<Rightarrow> bool" where
  "version_extra extra =
     (ends_number extra \<and> newline \<notin> set extra \<and> \<not> (extra \<noteq> [] \<and> hd extra = CHR ''.'' \<and> takeWhile is_digit (tl extra) \<noteq> []))"

lemma parse_printed:
  assumes "a < 2 ^ 64" "b < 2 ^ 64" "c < 2 ^ 64" "version_extra extra"
  shows "ParseGitVersion (''v'' @ string_of_nat a @ ''.'' @ string_of_nat b @ ''.'' @ string_of_nat c @ extra) =
    Ok (Some \<lparr>components = [a, b, c]\<rparr>)"
proof -
  let ?rest = "CHR ''.'' # string_of_nat b @ CHR ''.'' # string_of_nat c @ extra"
  have ends: "ends_number extra" "newline \<notin> set extra" "number_groups extra = ([], extra)"
    using assms(4) number_groups.simps [of extra] by (auto simp: version_extra_def)
  then have "number_groups ?rest = (CHR ''.'' # string_of_nat b @ CHR ''.'' # string_of_nat c, extra)"
    by (simp add: number_group dot_ends)
  then have num: "version_numbers (''v'' @ string_of_nat a @ ?rest) =
      Some (string_of_nat a @ CHR ''.'' # string_of_nat b @ CHR ''.'' # string_of_nat c)"
    using ends(2) take_number [OF dot_ends, of a]
    by (simp add: version_numbers_def re_space_def)
  have nodot: "CHR ''.'' \<notin> set (string_of_nat n)" for n
    using digits_of_string_of_nat [of "CHR ''.''" n] by (auto simp: is_digit_def)
  have "Split (string_of_nat a @ CHR ''.'' # string_of_nat b @ CHR ''.'' # string_of_nat c) ''.'' =
      [string_of_nat a, string_of_nat b, string_of_nat c]"
    using nodot by simp
  with num assms(1-3) no_leading_zero [of a] show ?thesis
    by (auto simp: ParseGitVersion_def ParseGeneric_def)
qed

lemma parse_components_ok:
  "parse_components first cs = Ok ns \<Longrightarrow> length ns = length cs \<and> (\<forall>n \<in> set ns. n < 2 ^ 64)"
proof (induction first cs arbitrary: ns rule: parse_components.induct)
  case (2 first part parts)
  then obtain n ms where n: "parse_uint64 part = Ok n" "parse_components False parts = Ok ms" "ns = n # ms"
    and ok: "\<not> (first \<and> HasPrefix part ''0'' \<and> part \<noteq> ''0'')"
    by (auto split: if_splits sum.splits)
  have "n < 2 ^ 64" using n(1) by (simp add: parse_uint64_def split: if_splits)
  with "2.IH" [OF ok n(1,2)] n(3) show ?case by simp
qed simp

text \<open>
  A git version that parses has at least two numbers of 64 bits, and its patch release and
  first minor release parse again: to the same three numbers, and to the first two with a 0.
\<close>

theorem release_roundtrip:
  assumes "ParseGitVersion s = Ok r"
  shows "\<exists>v. r = Some v \<and> 2 \<le> length (components v) \<and>
    ParseGitVersion (PatchRelease r) = Ok (Some \<lparr>components = [Major v, Minor v, Patch v]\<rparr>) \<and>
    ParseGitVersion (FirstMinorRelease r) = Ok (Some \<lparr>components = [Major v, Minor v, 0]\<rparr>)"
proof -
  obtain v where v: "r = Some v" "2 \<le> length (components v)" "\<forall>n \<in> set (components v). n < 2 ^ 64"
    using assms
    by (auto simp: ParseGitVersion_def ParseGeneric_def split: sum.splits option.splits if_splits
        dest!: parse_components_ok)
  have nth: "components v ! i < 2 ^ 64" if "i < length (components v)" for i using v(3) that nth_mem by blast
  have ne: "components v \<noteq> []" using v(2) by auto
  have "Major v < 2 ^ 64" "Minor v < 2 ^ 64" "Patch v < 2 ^ 64"
    using v(2) ne nth [of 0] nth [of 1] nth [of 2] by (auto simp: Major_def Minor_def Patch_def)
  moreover have "version_extra ''''" by (simp add: version_extra_def ends_number_def)
  moreover have "string_of_nat 0 = ''0''" by code_simp
  ultimately show ?thesis
    using v parse_printed [of "Major v" "Minor v" "Patch v" "''''"] parse_printed [of "Major v" "Minor v" 0 "''''"]
    by (simp add: PatchRelease_def FirstMinorRelease_def)
qed

end
