(* ===== verification/Pool_Requests.thy ===== *)
theory Pool_Requests
  imports Pool_Lending Pool_Samples
begin

text \<open>
  Serving the waiting requests (\<open>handleRequestQueue\<close>), creating workers for them
  (\<open>createWorker\<close>) and reconciling pods (\<open>reconcile\<close>, \<open>processNextCluster\<close>).
\<close>

section \<open>No request is lost, and no served request stays\<close>

text \<open>
  Why a request may leave the queue: a filed worker matches it, and its cloudshell is gone or
  was put in the controller's queue.
\<close>

definition served :: "'w kube \<Rightarrow> Request \<Rightarrow> 'w sys \<Rightarrow> bool" where
  "served K req s \<longleftrightarrow>
     matching_worker_name req (queue (workerQueue (pool s))) \<noteq> '''' \<and>
     (\<exists>w w' r. getCloudShell K (rNamespace req, rCloudshell req) w = (r, w') \<and>
        (case r of
           Inl e \<Rightarrow> IsNotFound e
         | Inr c \<Rightarrow> wshuttingDown (cqueue (ctrl s)) \<or>
                   MetaNamespaceKey (cmeta c) \<in> wdirty (cqueue (ctrl s))))"

lemma served_not_found:
  "matching_worker_name req (queue (workerQueue (pool s))) \<noteq> '''' \<Longrightarrow>
   getCloudShell K (rNamespace req, rCloudshell req) w = (Inl e, w') \<Longrightarrow> IsNotFound e \<Longrightarrow> served K req s"
  unfolding served_def by (metis (no_types, lifting) old.sum.simps(5))

lemma served_found:
  "matching_worker_name req (queue (workerQueue (pool s))) \<noteq> '''' \<Longrightarrow>
   getCloudShell K (rNamespace req, rCloudshell req) w = (Inr c, w') \<Longrightarrow>
   wshuttingDown (cqueue (ctrl s)) \<or> MetaNamespaceKey (cmeta c) \<in> wdirty (cqueue (ctrl s)) \<Longrightarrow>
   served K req s"
  unfolding served_def by (metis (no_types, lifting) old.sum.simps(6))

text \<open>What handling one request changes.\<close>

lemma handle_request_effect:
  fixes K :: "'w kube"
  assumes "run_state (handle_request K req) s = (u, s')"
  shows "workerQueue (pool s') = workerQueue (pool s) \<and> podIndexer s' = podIndexer s \<and>
    (requestQueue (pool s') = requestQueue (pool s) \<and> cqueue (ctrl s') = cqueue (ctrl s) \<or>
     requestQueue (pool s') = Remove (request_DeepEqual K) req (requestQueue (pool s)) \<and>
     served K req s' \<and>
     (cqueue (ctrl s') = cqueue (ctrl s) \<or> (\<exists>key. cqueue (ctrl s') = wq_Add key (cqueue (ctrl s)))))"
proof -
  obtain r s1 where m: "run_state (matchWorkerFor req) s = (r, s1)" by (metis surj_pair)
  note mc = matchWorkerFor_cases [OF m]
  show ?thesis
  proof (cases r)
    case (Inl e)
    define same where "same t \<longleftrightarrow> pool t = pool s \<and> podIndexer t = podIndexer s \<and> ctrl t = ctrl s" for t :: "'w sys"
    have "local_inv same" by (simp add: local_inv_def same_def)
    then have "keeps same (createWorker K req)" by (rule keeps_createWorker)
    then have "same (snd (run_state (createWorker K req) s))"
      by (rule keepsD [OF _ _ prod.collapse [symmetric]]) (simp add: same_def)
    then show ?thesis
      using assms m Inl mc
      by (auto simp: handle_request_def run_podLister_List same_def split: if_splits prod.splits)
  next
    case (Inr k)
    then have name: "matching_worker_name req (queue (workerQueue (pool s))) \<noteq> ''''" "s1 = s"
      using mc by auto
    obtain c w where c: "getCloudShell K (rNamespace req, rCloudshell req) (cluster s) = (c, w)"
      by (metis surj_pair)
    show ?thesis
    proof (cases c)
      case e: (Inl e)
      then show ?thesis
        using assms m Inr name c
        by (auto simp: handle_request_def run_simps pool_queue_defs intro!: served_not_found split: if_splits)
    next
      case cs: (Inr cs)
      then have "s' = s\<lparr>cluster := w, ctrl := (ctrl s)\<lparr>cqueue := wq_Add (MetaNamespaceKey (cmeta cs)) (cqueue (ctrl s))\<rparr>,
          pool := (pool s)\<lparr>requestQueue := Remove (request_DeepEqual K) req (requestQueue (pool s))\<rparr>\<rparr>"
        using assms m Inr name c by (simp add: handle_request_def run_simps pool_queue_defs)
      moreover have "k \<notin> wdirty (wq_Add k q) \<Longrightarrow> wshuttingDown (wq_Add k q)" for k q
        by (auto simp: wq_Add_def Let_def split: if_splits)
      ultimately show ?thesis using c cs name(1) by (auto intro!: served_found)
    qed
  qed
qed

lemma wq_Add_mono:
  "wshuttingDown (wq_Add k q) = wshuttingDown q" "wdirty q \<subseteq> wdirty (wq_Add k q)"
  by (auto simp: wq_Add_def Let_def)

lemma served_mono:
  assumes "served K req s" "workerQueue (pool s') = workerQueue (pool s)"
    "cqueue (ctrl s') = cqueue (ctrl s) \<or> (\<exists>key. cqueue (ctrl s') = wq_Add key (cqueue (ctrl s)))"
  shows "served K req s'"
proof -
  have q: "wshuttingDown (cqueue (ctrl s')) = wshuttingDown (cqueue (ctrl s))"
    "wdirty (cqueue (ctrl s)) \<subseteq> wdirty (cqueue (ctrl s'))"
    using assms(3) by (elim disjE exE; simp add: wq_Add_mono)+
  obtain w w' r where r: "getCloudShell K (rNamespace req, rCloudshell req) w = (r, w')"
    "case r of
           Inl e \<Rightarrow> IsNotFound e
         | Inr c \<Rightarrow> wshuttingDown (cqueue (ctrl s)) \<or>
                   MetaNamespaceKey (cmeta c) \<in> wdirty (cqueue (ctrl s))"
    using assms(1) unfolding served_def by blast
  from r(2) q have "case r of
           Inl e \<Rightarrow> IsNotFound e
         | Inr c \<Rightarrow> wshuttingDown (cqueue (ctrl s')) \<or>
                   MetaNamespaceKey (cmeta c) \<in> wdirty (cqueue (ctrl s'))"
    by (cases r) auto
  with r(1) assms(1,2) show ?thesis unfolding served_def by metis
qed

text \<open>The loop invariant: a request of \<open>R0\<close> is still waiting or was served; none is new.\<close>

definition none_lost :: "'w kube \<Rightarrow> nat option \<Rightarrow> nat \<Rightarrow> Request list \<Rightarrow> 'w sys \<Rightarrow> bool" where
  "none_lost K res q R0 s \<longleftrightarrow>
     pool_inv res q s \<and> set (queue (requestQueue (pool s))) \<subseteq> set R0 \<and>
     (\<forall>req \<in> set R0. req \<in> set (queue (requestQueue (pool s))) \<or> served K req s)"

lemma queue_Remove_request:
  assumes "queue_inv (requests_of res q) rqueue" "req \<in> requests_of res q"
  shows "set (queue (Remove (request_DeepEqual K) req rqueue)) = set (queue rqueue) - {req}"
  using rq.set_all_remove [OF assms] by simp

lemma none_lost_step:
  assumes I: "none_lost K res q R0 s" and req: "req \<in> requests_of res q"
    and run: "run_state (handle_request K req) s = (u, s')"
  shows "none_lost K res q R0 s'"
proof -
  have inv: "pool_inv res q s" "queue_inv (requests_of res q) (requestQueue (pool s))"
    using I by (auto simp: none_lost_def pool_inv_def pool_ok_def)
  have inv': "pool_inv res q s'" using keepsD [OF keeps_handle_request [OF req] inv(1) run] .
  note e = handle_request_effect [OF run]
  have mono: "served K r s'" if "served K r s" for r
    using e by (intro served_mono [OF that]; blast)
  have R: "requestQueue (pool s') = requestQueue (pool s) \<or>
      set (queue (requestQueue (pool s'))) = set (queue (requestQueue (pool s))) - {req} \<and> served K req s'"
    using e queue_Remove_request [OF inv(2) req, of K] by metis
  then show ?thesis
    using I inv' mono unfolding none_lost_def by (elim disjE; simp) blast+
qed

lemma handleRequestQueue_none_lost:
  assumes "pool_inv res q s" "run_state (handleRequestQueue K) s = (u, s')"
  shows "none_lost K res q (queue (requestQueue (pool s))) s'"
proof -
  let ?R = "queue (requestQueue (pool s))"
  have R: "set ?R \<subseteq> requests_of res q"
    using assms(1) by (auto simp: pool_inv_def pool_ok_def queue_inv_def)
  have "keeps (none_lost K res q ?R) (handle_request K req)" if "req \<in> set ?R" for req
    by (rule keepsI, erule none_lost_step) (use R that in auto)
  then have "keeps (none_lost K res q ?R) (for_each (handle_request K) ?R)"
    by (rule keeps_for_each)
  moreover have "none_lost K res q ?R s" using assms(1) by (simp add: none_lost_def)
  moreover have "run_state (for_each (handle_request K) ?R) s = (u, s')"
    using assms(2) by (simp add: handleRequestQueue_def)
  ultimately show ?thesis by (blast dest: keepsD)
qed

text \<open>The other direction: a request that can be served is served.\<close>

definition servable :: "'w kube \<Rightarrow> Request \<Rightarrow> 'w sys \<Rightarrow> bool" where
  "servable K req s \<longleftrightarrow>
     matching_worker_name req (queue (workerQueue (pool s))) \<noteq> '''' \<and>
     cached (rNamespace req, matching_worker_name req (queue (workerQueue (pool s)))) s \<and>
     (\<forall>w. case fst (getCloudShell K (rNamespace req, rCloudshell req) w) of
            Inl e \<Rightarrow> IsNotFound e | Inr _ \<Rightarrow> True)"

lemma handle_request_servable:
  assumes "servable K req s" "run_state (handle_request K req) s = (u, s')"
  shows "requestQueue (pool s') = Remove (request_DeepEqual K) req (requestQueue (pool s))"
proof -
  obtain r s1 where m: "run_state (matchWorkerFor req) s = (r, s1)" by (metis surj_pair)
  have r: "s1 = s" "\<exists>k. r = Inr k"
    using matchWorkerFor_cases [OF m] assms(1) by (auto simp: servable_def split: sum.splits)
  obtain c w where c: "getCloudShell K (rNamespace req, rCloudshell req) (cluster s) = (c, w)"
    by (metis surj_pair)
  have "case c of Inl e \<Rightarrow> IsNotFound e | Inr _ \<Rightarrow> True"
    using assms(1) c unfolding servable_def by (metis fst_conv)
  with assms(2) m r c show ?thesis
    by (auto simp: handle_request_def run_simps pool_queue_defs split: sum.splits)
qed

lemma servable_frame:
  "workerQueue (pool s') = workerQueue (pool s) \<Longrightarrow> podIndexer s' = podIndexer s \<Longrightarrow>
   servable K req s' = servable K req s"
  by (simp add: servable_def cached_def)

lemma for_each_handle_servable:
  assumes "pool_inv res q s" "set reqs \<subseteq> requests_of res q"
    "run_state (for_each (handle_request K) reqs) s = (u, s')"
    "req \<in> requests_of res q" "servable K req s"
    "req \<in> set reqs \<or> req \<notin> set (queue (requestQueue (pool s)))"
  shows "req \<notin> set (queue (requestQueue (pool s')))"
  using assms
proof (induction reqs arbitrary: s)
  case (Cons r reqs)
  obtain u1 s1 where s1: "run_state (handle_request K r) s = (u1, s1)" by (metis surj_pair)
  have r: "r \<in> requests_of res q" using Cons.prems(2) by simp
  have inv1: "pool_inv res q s1" using keepsD [OF keeps_handle_request [OF r] Cons.prems(1) s1] .
  have q: "queue_inv (requests_of res q) (requestQueue (pool s))"
    using Cons.prems(1) by (simp add: pool_inv_def pool_ok_def)
  note e = handle_request_effect [OF s1]
  have sub: "set (queue (requestQueue (pool s1))) \<subseteq> set (queue (requestQueue (pool s)))"
    using e queue_Remove_request [OF q r, of K] by (metis Diff_subset order_refl)
  have gone: "req \<notin> set (queue (requestQueue (pool s1)))" if "req = r"
    using handle_request_servable [OF _ s1] Cons.prems(5) that queue_Remove_request [OF q r, of K] by simp
  show ?case
  proof (rule Cons.IH [OF inv1])
    show "servable K req s1" using Cons.prems(5) e servable_frame [of s1 s K req] by simp
    show "req \<in> set reqs \<or> req \<notin> set (queue (requestQueue (pool s1)))"
      using Cons.prems(6) gone sub by auto
    show "set reqs \<subseteq> requests_of res q" using Cons.prems(2) by simp
    show "run_state (for_each (handle_request K) reqs) s1 = (u, s')" using Cons.prems(3) s1 by simp
  qed (rule Cons.prems(4))
qed simp


definition waiting_sys :: "mem sys" where
  "waiting_sys =
     sample_sys\<lparr>pool := (pool sample_sys)\<lparr>requestQueue := Add (sample_req ''b'') newQueue\<rparr>\<rparr>"


section \<open>Reconciling a pod\<close>

definition released_only :: "call \<times> bool \<Rightarrow> bool" where
  "released_only c \<longleftrightarrow> (\<exists>p. fst c = UpdatePod p \<and> ControllerFinalizer \<notin> set (Finalizers (pmeta p)))"

lemma release_deleted_calls:
  "keeps (\<lambda>t. pool t = P \<and> (\<exists>D. calls t = C @ D \<and> list_all released_only D)) (release_deleted K worker)"
proof (rule keepsI)
  fix s :: "'a sys" and a s'
  assume I: "pool s = P \<and> (\<exists>D. calls s = C @ D \<and> list_all released_only D)"
    and run: "run_state (release_deleted K worker) s = (a, s')"
  have new: "\<exists>D'. (C @ D) @ [(UpdatePod p, ok)] = C @ D' \<and> list_all released_only D'"
    if "list_all released_only D" "ControllerFinalizer \<notin> set (Finalizers (pmeta p))" for D p ok
    using that by (intro exI [of _ "D @ [(UpdatePod p, ok)]"]) (simp add: released_only_def)
  obtain r w where r: "getPod K (Namespace (pmeta worker), Name (pmeta worker)) (cluster s) = (r, w)"
    by (metis surj_pair)
  from I run r new show "pool s' = P \<and> (\<exists>D. calls s' = C @ D \<and> list_all released_only D)"
    by (auto simp: release_deleted_def run_simps RemoveFinalizer_eq Let_def
        split: if_splits prod.splits sum.splits)
qed



end
