(* ===== verification/Lifecycle.thy ===== *)
theory Lifecycle
  imports Pool_Requests
begin

text \<open>
  The goroutines of the pool and of the controller, from \<open>Run\<close> to the end: \<open>Run\<close>, \<open>run\<close>,
  \<open>worker\<close>, \<open>tryHandleRequestQueue\<close> and \<open>tryScaleInWorkerQueue\<close> of \<open>worker_pool.go\<close>, \<open>Run\<close> and
  \<open>worker\<close> of \<open>cloudshell_controller.go\<close>. A state holds where each goroutine is; the steps are
  the points at which one of them can wait: the work queues, the channels and the wait groups.
  What is done with an item is left open here: it may send on \<open>matchRequestSignal\<close> up to \<open>N\<close>
  times (in \<open>reconcile\<close>, \<open>Borrow\<close> or \<open>Back\<close>) and requeue the item in any way.

  \<open>matchRequestSignal\<close> is not buffered: a send waits until \<open>tryHandleRequestQueue\<close> receives.

  Shown: once \<open>stopCh\<close> is closed the goroutines cannot run on for ever, and they come to rest
  with everything ended, unless \<open>tryHandleRequestQueue\<close> has ended while another goroutine
  still wants to send to it; then that one, and the function that waits for it, hang.
\<close>

section \<open>The goroutines\<close>

text \<open>
  \<open>Run\<close> of the controller, and \<open>Run\<close> with \<open>run\<close> of the pool: waiting in \<open>WaitForCacheSync\<close>, which
  also returns when \<open>stopCh\<close> is closed and is only logged then; at \<open><-stopCh\<close>, with the
  goroutines started; before \<open>queue.ShutDown()\<close>; in \<open>Wait()\<close> of the wait group; returned. (The
  deferred second \<open>ShutDown\<close> of the controller has no further effect.)
\<close>

datatype main_pc = Syncing | AtStop | AtShutDown | AtWait | Returned

text \<open>
  \<open>worker\<close>: in \<open>queue.Get()\<close>; processing item \<open>i\<close>, with \<open>k\<close> sends to come (\<open>Working i k\<close>); waiting in
  a send, with \<open>k\<close> more to come (\<open>Sending i k\<close>); at the \<open>select\<close> after the item; returned.
\<close>

datatype worker_pc = NotStarted | AtGet | Working string nat | Sending string nat | AtPoll | WorkerEnded

text \<open>
  \<open>tryHandleRequestQueue\<close> and \<open>tryScaleInWorkerQueue\<close>: in the \<open>select\<close>; in
  \<open>handleRequestQueue\<close> or \<open>scaleInWorkerQueue\<close>; returned.
\<close>

datatype loop_pc = LoopNotStarted | AtSelect | Busy | LoopEnded

record life =
  stopCh :: bool
  podSynced :: bool
  shellSynced :: bool
  poolQ :: workqueue
  ctrlQ :: workqueue
  poolMain :: main_pc
  poolWorker :: worker_pc
  handler :: loop_pc
  scaler :: loop_pc
  handlerTick :: bool
  scalerTick :: bool
  ctrlMain :: main_pc
  ctrlWorkers :: "worker_pc list"

text \<open>How the processing of an item may leave the item in the queue before \<open>Done\<close>.\<close>

definition requeues :: "string \<Rightarrow> (workqueue \<Rightarrow> workqueue) set" where
  "requeues i =
     {id, wq_Add i, wq_Forget i} \<union> {wq_AddRateLimited b m now i | b m now. True} \<union>
     {\<lambda>q. wq_AddAfter now i d (wq_Forget i q) | now d. True}"

text \<open>
  \<open>for processNext() { select { case <-stopCh: return; default: } }\<close>, up to the sends.
\<close>

inductive worker_step :: "nat \<Rightarrow> bool \<Rightarrow> workqueue \<times> worker_pc \<Rightarrow> workqueue \<times> worker_pc \<Rightarrow> bool"
  for N :: nat and stop :: bool
where
  take: "wq_Get q = (GetItem i, q') \<Longrightarrow> k \<le> N \<Longrightarrow> worker_step N stop (q, AtGet) (q', Working i k)"
| quit: "wq_Get q = (GetShutdown, q') \<Longrightarrow> worker_step N stop (q, AtGet) (q', WorkerEnded)"
| want: "worker_step N stop (q, Working i (Suc k)) (q, Sending i k)"
| finish: "r \<in> requeues i \<Longrightarrow> worker_step N stop (q, Working i 0) (wq_Done i (r q), AtPoll)"
| stopped: "stop \<Longrightarrow> worker_step N stop (q, AtPoll) (q, WorkerEnded)"
| again: "\<not> stop \<Longrightarrow> worker_step N stop (q, AtPoll) (q, AtGet)"

text \<open>\<open>select\<close> over a ticker, which holds at most one tick, and \<open>stopCh\<close>.\<close>

inductive loop_step :: "bool \<Rightarrow> bool \<times> loop_pc \<Rightarrow> bool \<times> loop_pc \<Rightarrow> bool" for stop :: bool where
  tick: "loop_step stop (True, AtSelect) (False, Busy)"
| finished: "loop_step stop (t, Busy) (t, AtSelect)"
| ended: "stop \<Longrightarrow> loop_step stop (t, AtSelect) (t, LoopEnded)"

text \<open>The steps of the goroutines.\<close>

inductive go_step :: "nat \<Rightarrow> life \<Rightarrow> life \<Rightarrow> bool" for N :: nat where
  pool_start: "poolMain s = Syncing \<Longrightarrow> podSynced s \<or> stopCh s \<Longrightarrow>
    go_step N s (s\<lparr>poolMain := AtStop, poolWorker := AtGet, handler := AtSelect, scaler := AtSelect\<rparr>)"
| pool_stop: "poolMain s = AtStop \<Longrightarrow> stopCh s \<Longrightarrow> go_step N s (s\<lparr>poolMain := AtShutDown\<rparr>)"
| pool_shutdown: "poolMain s = AtShutDown \<Longrightarrow>
    go_step N s (s\<lparr>poolMain := AtWait, poolQ := wq_ShutDown (poolQ s)\<rparr>)"
| pool_return: "poolMain s = AtWait \<Longrightarrow> poolWorker s = WorkerEnded \<Longrightarrow> handler s = LoopEnded \<Longrightarrow> scaler s = LoopEnded \<Longrightarrow>
    go_step N s (s\<lparr>poolMain := Returned\<rparr>)"
| ctrl_start: "ctrlMain s = Syncing \<Longrightarrow> shellSynced s \<and> podSynced s \<or> stopCh s \<Longrightarrow>
    go_step N s (s\<lparr>ctrlMain := AtStop, ctrlWorkers := map (\<lambda>_. AtGet) (ctrlWorkers s)\<rparr>)"
| ctrl_stop: "ctrlMain s = AtStop \<Longrightarrow> stopCh s \<Longrightarrow> go_step N s (s\<lparr>ctrlMain := AtShutDown\<rparr>)"
| ctrl_shutdown: "ctrlMain s = AtShutDown \<Longrightarrow>
    go_step N s (s\<lparr>ctrlMain := AtWait, ctrlQ := wq_ShutDown (ctrlQ s)\<rparr>)"
| ctrl_return: "ctrlMain s = AtWait \<Longrightarrow> list_all (\<lambda>w. w = WorkerEnded) (ctrlWorkers s) \<Longrightarrow>
    go_step N s (s\<lparr>ctrlMain := Returned\<rparr>)"
| pool_worker: "worker_step N (stopCh s) (poolQ s, poolWorker s) (q, w) \<Longrightarrow>
    go_step N s (s\<lparr>poolQ := q, poolWorker := w\<rparr>)"
| ctrl_worker: "j < length (ctrlWorkers s) \<Longrightarrow> worker_step N (stopCh s) (ctrlQ s, ctrlWorkers s ! j) (q, w) \<Longrightarrow>
    go_step N s (s\<lparr>ctrlQ := q, ctrlWorkers := (ctrlWorkers s)[j := w]\<rparr>)"
| pool_signal: "handler s = AtSelect \<Longrightarrow> poolWorker s = Sending i k \<Longrightarrow>
    go_step N s (s\<lparr>handler := Busy, poolWorker := Working i k\<rparr>)"
| ctrl_signal: "handler s = AtSelect \<Longrightarrow> j < length (ctrlWorkers s) \<Longrightarrow> ctrlWorkers s ! j = Sending i k \<Longrightarrow>
    go_step N s (s\<lparr>handler := Busy, ctrlWorkers := (ctrlWorkers s)[j := Working i k]\<rparr>)"
| handle: "loop_step (stopCh s) (handlerTick s, handler s) (t, p) \<Longrightarrow>
    go_step N s (s\<lparr>handlerTick := t, handler := p\<rparr>)"
| scale: "loop_step (stopCh s) (scalerTick s, scaler s) (t, p) \<Longrightarrow>
    go_step N s (s\<lparr>scalerTick := t, scaler := p\<rparr>)"

text \<open>What happens around them: events, timers, informers that have synced, and the stop.\<close>

inductive env_step :: "life \<Rightarrow> life \<Rightarrow> bool" where
  close_stop: "env_step s (s\<lparr>stopCh := True\<rparr>)"
| pod_event: "env_step s (s\<lparr>poolQ := wq_Add i (poolQ s)\<rparr>)"
| shell_event: "env_step s (s\<lparr>ctrlQ := wq_Add i (ctrlQ s)\<rparr>)"
| pool_due: "env_step s (s\<lparr>poolQ := wq_fire now (poolQ s)\<rparr>)"
| ctrl_due: "env_step s (s\<lparr>ctrlQ := wq_fire now (ctrlQ s)\<rparr>)"
| tick_handler: "env_step s (s\<lparr>handlerTick := True\<rparr>)"
| tick_scaler: "env_step s (s\<lparr>scalerTick := True\<rparr>)"
| pods_synced: "env_step s (s\<lparr>podSynced := True\<rparr>)"
| shells_synced: "env_step s (s\<lparr>shellSynced := True\<rparr>)"

definition life_init :: "nat \<Rightarrow> life" where
  "life_init n =
     \<lparr>stopCh = False, podSynced = False, shellSynced = False, poolQ = wq_new, ctrlQ = wq_new,
      poolMain = Syncing, poolWorker = NotStarted, handler = LoopNotStarted, scaler = LoopNotStarted,
      handlerTick = False, scalerTick = False, ctrlMain = Syncing, ctrlWorkers = replicate n NotStarted\<rparr>"

inductive life_reach :: "nat \<Rightarrow> nat \<Rightarrow> life \<Rightarrow> bool" for N n :: nat where
  init: "life_reach N n (life_init n)"
| go: "life_reach N n s \<Longrightarrow> go_step N s t \<Longrightarrow> life_reach N n t"
| env: "life_reach N n s \<Longrightarrow> env_step s t \<Longrightarrow> life_reach N n t"

inductive_simps worker_step_simps:
  "worker_step N stop (q, AtGet) x" "worker_step N stop (q, Working i k) x" "worker_step N stop (q, Sending i k) x"
  "worker_step N stop (q, AtPoll) x" "worker_step N stop (q, WorkerEnded) x" "worker_step N stop (q, NotStarted) x"

inductive_simps loop_step_simps:
  "loop_step stop (t, AtSelect) x" "loop_step stop (t, Busy) x" "loop_step stop (t, LoopEnded) x"
  "loop_step stop (t, LoopNotStarted) x"

section \<open>The invariant\<close>

definition pool_life :: "life \<Rightarrow> bool" where
  "pool_life s \<longleftrightarrow>
     (poolMain s = Syncing \<longleftrightarrow> poolWorker s = NotStarted) \<and>
     (poolMain s = Syncing \<longleftrightarrow> handler s = LoopNotStarted) \<and>
     (poolMain s = Syncing \<longleftrightarrow> scaler s = LoopNotStarted) \<and>
     (poolMain s \<in> {AtShutDown, AtWait, Returned} \<longrightarrow> stopCh s) \<and>
     (poolMain s \<in> {AtWait, Returned} \<longrightarrow> wshuttingDown (poolQ s)) \<and>
     (poolMain s = Returned \<longrightarrow> poolWorker s = WorkerEnded \<and> handler s = LoopEnded \<and> scaler s = LoopEnded)"

definition ctrl_life :: "life \<Rightarrow> bool" where
  "ctrl_life s \<longleftrightarrow>
     (\<forall>w \<in> set (ctrlWorkers s). ctrlMain s = Syncing \<longleftrightarrow> w = NotStarted) \<and>
     (ctrlMain s \<in> {AtShutDown, AtWait, Returned} \<longrightarrow> stopCh s) \<and>
     (ctrlMain s \<in> {AtWait, Returned} \<longrightarrow> wshuttingDown (ctrlQ s)) \<and>
     (ctrlMain s = Returned \<longrightarrow> (\<forall>w \<in> set (ctrlWorkers s). w = WorkerEnded))"

lemma shutdown_kept [simp]:
  "wshuttingDown (wq_Add i q) = wshuttingDown q" "wshuttingDown (wq_Done i q) = wshuttingDown q"
  "wshuttingDown (wq_ShutDown q)" "wshuttingDown (wq_Forget i q) = wshuttingDown q"
  by (simp_all add: wq_defs wq_Forget_def)

lemma shutdown_fire [simp]: "wshuttingDown (wq_fire now q) = wshuttingDown q"
proof -
  have "wshuttingDown (fold wq_Add items r) = wshuttingDown r" for items r
    by (induction items arbitrary: r) simp_all
  then show ?thesis by (simp add: wq_fire_def)
qed

lemma shutdown_later [simp]:
  "wshuttingDown (wq_AddAfter now i d q) = wshuttingDown q"
  "wshuttingDown (wq_AddRateLimited b m now i q) = wshuttingDown q"
  by (simp_all add: wq_AddRateLimited_def wq_AddAfter_def)

lemma shutdown_requeues: "r \<in> requeues i \<Longrightarrow> wshuttingDown (r q) = wshuttingDown q"
  by (auto simp: requeues_def)

lemma shutdown_Get: "wq_Get q = (r, q') \<Longrightarrow> wshuttingDown q' = wshuttingDown q"
  by (auto simp: wq_Get_def split: list.splits)

lemma worker_step_shape:
  assumes "worker_step N stop (q, w) (q', w')"
  shows "wshuttingDown q' = wshuttingDown q" "w \<noteq> WorkerEnded" "w \<noteq> NotStarted" "w' \<noteq> NotStarted"
  using assms by (cases; simp add: shutdown_Get shutdown_requeues)+

lemma loop_step_shape:
  assumes "loop_step stop (t, p) (t', p')"
  shows "p \<noteq> LoopEnded" "p \<noteq> LoopNotStarted" "p' \<noteq> LoopNotStarted"
  using assms by (cases; simp)+

lemma pool_life_go: "go_step N s t \<Longrightarrow> pool_life s \<Longrightarrow> pool_life t"
proof (induction rule: go_step.induct)
  case (pool_worker s q w)
  from worker_step_shape [OF pool_worker.hyps] pool_worker.prems show ?case by (auto simp: pool_life_def)
next
  case (handle s t p)
  from loop_step_shape [OF handle.hyps] handle.prems show ?case by (auto simp: pool_life_def)
next
  case (scale s t p)
  from loop_step_shape [OF scale.hyps] scale.prems show ?case by (auto simp: pool_life_def)
qed (auto simp: pool_life_def)

lemma set_update: "w \<in> set (xs[j := y]) \<Longrightarrow> w = y \<or> w \<in> set xs"
  using set_update_subset_insert [of xs j y] by blast

lemma ctrl_life_update:
  assumes "ctrl_life s" "j < length (ctrlWorkers s)" "ctrlWorkers s ! j \<noteq> WorkerEnded" "ctrlWorkers s ! j \<noteq> NotStarted"
    "w \<noteq> NotStarted" "wshuttingDown q = wshuttingDown (ctrlQ s)"
    "ctrlWorkers t = (ctrlWorkers s)[j := w]" "ctrlQ t = q" "ctrlMain t = ctrlMain s" "stopCh t = stopCh s"
  shows "ctrl_life t"
proof -
  have "ctrlWorkers s ! j \<in> set (ctrlWorkers s)" using assms(2) by simp
  then have m: "ctrlMain s \<noteq> Syncing" "ctrlMain s \<noteq> Returned"
    using assms(1,3,4) by (auto simp: ctrl_life_def)
  have "v \<noteq> NotStarted" if "v \<in> set ((ctrlWorkers s)[j := w])" for v
    using set_update [OF that] m(1) assms(1,5) by (auto simp: ctrl_life_def)
  with m assms show ?thesis by (auto simp: ctrl_life_def)
qed

lemma ctrl_life_go: "go_step N s t \<Longrightarrow> ctrl_life s \<Longrightarrow> ctrl_life t"
proof (induction rule: go_step.induct)
  case (ctrl_worker j s q w)
  show ?case
    by (rule ctrl_life_update [OF ctrl_worker.prems ctrl_worker.hyps(1), of w q])
      (use worker_step_shape [OF ctrl_worker.hyps(2)] in simp_all)
next
  case (ctrl_signal s j i k)
  show ?case
    by (rule ctrl_life_update [OF ctrl_signal.prems ctrl_signal.hyps(2), of "Working i k" "ctrlQ s"])
      (use ctrl_signal.hyps(3) in simp_all)
qed (auto simp: ctrl_life_def list_all_iff)

lemma life_reach_inv: "life_reach N n s \<Longrightarrow> pool_life s \<and> ctrl_life s"
proof (induction rule: life_reach.induct)
  case init
  then show ?case by (simp add: pool_life_def ctrl_life_def life_init_def)
next
  case (go s t)
  then show ?case by (blast intro: pool_life_go ctrl_life_go)
next
  case (env s t)
  then have "pool_life s" "ctrl_life s" by simp_all
  from env(2) \<open>pool_life s\<close> have "pool_life t" by cases (auto simp: pool_life_def)
  moreover from env(2) \<open>ctrl_life s\<close> have "ctrl_life t" by cases (simp_all add: ctrl_life_def)
  ultimately show ?case by simp
qed

section \<open>The end\<close>

fun worker_rank :: "nat \<Rightarrow> worker_pc \<Rightarrow> nat" where
  "worker_rank N NotStarted = 2 * N + 5"
| "worker_rank N AtGet = 2 * N + 4"
| "worker_rank N (Working i k) = 2 * k + 2"
| "worker_rank N (Sending i k) = 2 * k + 3"
| "worker_rank N AtPoll = 1"
| "worker_rank N WorkerEnded = 0"

fun loop_rank :: "bool \<times> loop_pc \<Rightarrow> nat" where
  "loop_rank (t, p) = (if t then 2 else 0) + (case p of LoopNotStarted \<Rightarrow> 3 | AtSelect \<Rightarrow> 1 | Busy \<Rightarrow> 2 | LoopEnded \<Rightarrow> 0)"

fun main_rank :: "main_pc \<Rightarrow> nat" where
  "main_rank Syncing = 4"
| "main_rank AtStop = 3"
| "main_rank AtShutDown = 2"
| "main_rank AtWait = 1"
| "main_rank Returned = 0"

text \<open>What is left to do; a send also gives \<open>tryHandleRequestQueue\<close> something to do.\<close>

definition life_rank :: "nat \<Rightarrow> life \<Rightarrow> nat" where
  "life_rank N s =
     main_rank (poolMain s) + main_rank (ctrlMain s) +
     3 * worker_rank N (poolWorker s) + 3 * sum_list (map (worker_rank N) (ctrlWorkers s)) +
     loop_rank (handlerTick s, handler s) + loop_rank (scalerTick s, scaler s)"

lemma worker_step_rank: "worker_step N True (q, w) (q', w') \<Longrightarrow> worker_rank N w' < worker_rank N w"
  by (erule worker_step.cases) auto

lemma loop_step_rank: "loop_step True (t, p) (t', p') \<Longrightarrow> loop_rank (t', p') < loop_rank (t, p)"
  by (erule loop_step.cases) auto

lemma rank_update:
  assumes "j < length ws" "worker_rank N w < worker_rank N (ws ! j)"
  shows "sum_list (map (worker_rank N) (ws[j := w])) < sum_list (map (worker_rank N) ws)"
proof -
  have "map (worker_rank N) (ws[j := w]) = (map (worker_rank N) ws)[j := worker_rank N w]" by (simp add: map_update)
  moreover have "sum_list ((map (worker_rank N) ws)[j := worker_rank N w]) + worker_rank N (ws ! j) =
      sum_list (map (worker_rank N) ws) + worker_rank N w"
    using assms(1) elem_le_sum_list [of j "map (worker_rank N) ws"] by (simp add: sum_list_update)
  ultimately show ?thesis using assms(2) by simp
qed

lemma start_rank: "\<forall>w \<in> set ws. w = NotStarted \<Longrightarrow> sum_list (map (worker_rank N \<circ> (\<lambda>_. AtGet)) ws) \<le> sum_list (map (worker_rank N) ws)"
  by (induction ws) simp_all

lemma go_step_rank:
  assumes "go_step N s t" "stopCh s" "pool_life s" "ctrl_life s"
  shows "life_rank N t < life_rank N s \<and> stopCh t"
  using assms
proof (induction rule: go_step.induct)
  case (pool_start s)
  then have "poolWorker s = NotStarted" "handler s = LoopNotStarted" "scaler s = LoopNotStarted"
    by (simp_all add: pool_life_def)
  with pool_start show ?case by (simp add: life_rank_def)
next
  case (ctrl_start s)
  then have "\<forall>w \<in> set (ctrlWorkers s). w = NotStarted" by (simp add: ctrl_life_def)
  from start_rank [OF this, of N] ctrl_start show ?case by (simp add: life_rank_def)
next
  case (pool_worker s q w)
  then show ?case using worker_step_rank [of N "poolQ s" "poolWorker s" q w] by (simp add: life_rank_def)
next
  case (ctrl_worker j s q w)
  then show ?case
    using worker_step_rank [of N "ctrlQ s" "ctrlWorkers s ! j" q w] rank_update [of j "ctrlWorkers s" N w]
    by (simp add: life_rank_def)
next
  case (ctrl_signal s j i k)
  then show ?case using rank_update [of j "ctrlWorkers s" N "Working i k"] by (simp add: life_rank_def)
next
  case (handle s t p)
  then show ?case using loop_step_rank [of "handlerTick s" "handler s" t p] by (simp add: life_rank_def del: loop_rank.simps)
next
  case (scale s t p)
  then show ?case using loop_step_rank [of "scalerTick s" "scaler s" t p] by (simp add: life_rank_def del: loop_rank.simps)
qed (simp_all add: life_rank_def)

text \<open>Who can still move.\<close>

definition sending :: "worker_pc \<Rightarrow> bool" where
  "sending w = (case w of Sending _ _ \<Rightarrow> True | _ \<Rightarrow> False)"

lemma worker_moves:
  assumes "wshuttingDown q" "w \<noteq> NotStarted" "w \<noteq> WorkerEnded" "\<not> sending w"
  shows "\<exists>q' w'. worker_step N stop (q, w) (q', w')"
proof (cases w)
  case AtGet
  show ?thesis
  proof (cases "wqueue q")
    case Nil
    then have "wq_Get q = (GetShutdown, q)" using assms(1) by (simp add: wq_Get_def)
    with AtGet show ?thesis by (blast intro: worker_step.quit)
  next
    case (Cons i rest)
    then have "\<exists>q'. wq_Get q = (GetItem i, q')" by (simp add: wq_Get_def)
    with AtGet show ?thesis by (blast intro: worker_step.take)
  qed
next
  case (Working i k)
  have "id \<in> requeues i" by (simp add: requeues_def)
  with Working show ?thesis by (cases k) (blast intro: worker_step.want worker_step.finish)+
next
  case AtPoll
  then show ?thesis by (cases stop) (blast intro: worker_step.stopped worker_step.again)+
qed (use assms in \<open>simp_all add: sending_def\<close>)

lemma loop_moves: "p \<noteq> LoopNotStarted \<Longrightarrow> p \<noteq> LoopEnded \<Longrightarrow> \<exists>t' p'. loop_step True (t, p) (t', p')"
  by (cases p) (auto simp: loop_step_simps)

lemma pool_at_rest:
  assumes "stopCh s" "pool_life s" "\<nexists>t. go_step N s t"
  shows "poolMain s = Returned \<or> handler s = LoopEnded \<and> sending (poolWorker s)"
proof (cases "poolMain s")
  case AtWait
  then have s: "wshuttingDown (poolQ s)" "poolWorker s \<noteq> NotStarted" "handler s \<noteq> LoopNotStarted" "scaler s \<noteq> LoopNotStarted"
    using assms(2) by (auto simp: pool_life_def)
  have "handler s = LoopEnded"
    using loop_moves [OF s(3), of "handlerTick s"] assms(1,3) go_step.handle [of s _ _ N] by fastforce
  moreover have "scaler s = LoopEnded"
    using loop_moves [OF s(4), of "scalerTick s"] assms(1,3) go_step.scale [of s _ _ N] by fastforce
  moreover have "poolWorker s = WorkerEnded" if "\<not> sending (poolWorker s)"
    using worker_moves [OF s(1,2) _ that, of N "stopCh s"] assms(3) go_step.pool_worker [of N s] by blast
  ultimately show ?thesis using AtWait assms(3) go_step.pool_return [of s N] by blast
qed (use assms go_step.pool_start [of s N] go_step.pool_stop [of s N] go_step.pool_shutdown [of s N] in blast)+

lemma ctrl_at_rest:
  assumes "stopCh s" "pool_life s" "ctrl_life s" "\<nexists>t. go_step N s t"
  shows "ctrlMain s = Returned \<or> handler s = LoopEnded \<and> (\<exists>w \<in> set (ctrlWorkers s). sending w)"
proof (cases "ctrlMain s")
  case AtWait
  then have s: "wshuttingDown (ctrlQ s)" "\<forall>w \<in> set (ctrlWorkers s). w \<noteq> NotStarted"
    using assms(3) by (auto simp: ctrl_life_def)
  have main: "poolMain s \<noteq> Syncing" using assms(1,4) go_step.pool_start [of s N] by blast
  then have "handler s \<noteq> LoopNotStarted" using assms(2) by (simp add: pool_life_def)
  then have h: "handler s = LoopEnded"
    using loop_moves [of "handler s" "handlerTick s"] assms(1,4) go_step.handle [of s _ _ N] by fastforce
  have "w = WorkerEnded" if w: "w \<in> set (ctrlWorkers s)" "\<not> sending w" for w
  proof (rule ccontr)
    assume "w \<noteq> WorkerEnded"
    with worker_moves [OF s(1), of w N "stopCh s"] s(2) w obtain q' w' where "worker_step N (stopCh s) (ctrlQ s, w) (q', w')" by blast
    moreover obtain j where "j < length (ctrlWorkers s)" "ctrlWorkers s ! j = w" using w(1) by (auto simp: in_set_conv_nth)
    ultimately show False using assms(4) go_step.ctrl_worker [of j s N q' w'] by blast
  qed
  then have "\<exists>w \<in> set (ctrlWorkers s). sending w"
    using AtWait assms(4) go_step.ctrl_return [of s N] by (auto simp: list_all_iff)
  with h show ?thesis by blast
qed (use assms go_step.ctrl_start [of s N] go_step.ctrl_stop [of s N] go_step.ctrl_shutdown [of s N] in blast)+

text \<open>After the stop, the goroutines are a machine that comes to rest.\<close>

interpretation shutdown: ranked_steps "go_step N" "\<lambda>s. stopCh s \<and> pool_life s \<and> ctrl_life s" "life_rank N" for N
  by unfold_locales (use go_step_rank pool_life_go ctrl_life_go in blast)+

text \<open>
  Property C13. Once \<open>stopCh\<close> is closed, the goroutines of the pool and the controller come to
  rest: without further events they make at most as many steps as \<open>life_rank\<close> says. At
  rest \<open>WorkerPool.Run\<close> has returned, unless its worker waits to send on
  \<open>matchRequestSignal\<close> after \<open>tryHandleRequestQueue\<close> has ended; the same holds of
  \<open>Controller.Run\<close> and its workers. Whichever of the two has returned has left no goroutine
  of its own behind.
\<close>

theorem shutdown_spec:
  assumes "life_reach N n s" "stopCh s"
  shows "(\<forall>k t. (go_step N ^^ k) s t \<longrightarrow> k \<le> life_rank N s) \<and>
    (\<exists>t. (go_step N)\<^sup>*\<^sup>* s t \<and> (\<nexists>u. go_step N t u)) \<and>
    ((\<nexists>t. go_step N s t) \<longrightarrow>
       (poolMain s = Returned \<or> handler s = LoopEnded \<and> sending (poolWorker s)) \<and>
       (ctrlMain s = Returned \<or> handler s = LoopEnded \<and> (\<exists>w \<in> set (ctrlWorkers s). sending w))) \<and>
    (poolMain s = Returned \<longrightarrow> poolWorker s = WorkerEnded \<and> handler s = LoopEnded \<and> scaler s = LoopEnded) \<and>
    (ctrlMain s = Returned \<longrightarrow> (\<forall>w \<in> set (ctrlWorkers s). w = WorkerEnded))"
proof -
  have inv: "pool_life s" "ctrl_life s" using life_reach_inv [OF assms(1)] by simp_all
  have "\<forall>k t. (go_step N ^^ k) s t \<longrightarrow> k \<le> life_rank N s"
    using shutdown.run_bounded [where N = N and s = s] inv assms(2) by fastforce
  moreover have "(\<nexists>t. go_step N s t) \<longrightarrow>
       (poolMain s = Returned \<or> handler s = LoopEnded \<and> sending (poolWorker s)) \<and>
       (ctrlMain s = Returned \<or> handler s = LoopEnded \<and> (\<exists>w \<in> set (ctrlWorkers s). sending w))"
    using pool_at_rest [OF assms(2) inv(1)] ctrl_at_rest [OF assms(2) inv] by blast
  moreover have "poolMain s = Returned \<longrightarrow> poolWorker s = WorkerEnded \<and> handler s = LoopEnded \<and> scaler s = LoopEnded"
    using inv(1) by (simp add: pool_life_def)
  moreover have "ctrlMain s = Returned \<longrightarrow> (\<forall>w \<in> set (ctrlWorkers s). w = WorkerEnded)"
    using inv(2) by (simp add: ctrl_life_def)
  moreover have "\<exists>t. (go_step N)\<^sup>*\<^sup>* s t \<and> (\<nexists>u. go_step N t u)"
    using shutdown.comes_to_rest [of s N] inv assms(2) by blast
  ultimately show ?thesis by blast
qed

theorem shutdown_spec_witness:
  "\<exists>t. (go_step 1)\<^sup>*\<^sup>* ((life_init 1)\<lparr>stopCh := True\<rparr>) t \<and> (\<nexists>u. go_step 1 t u)"
proof -
  have "life_reach 1 1 ((life_init 1)\<lparr>stopCh := True\<rparr>)"
    by (rule life_reach.env [OF life_reach.init env_step.close_stop])
  from shutdown_spec [OF this] show ?thesis by simp
qed

section \<open>A shutdown that hangs\<close>

text \<open>
  The sends that \<open>Working\<close> counts: reconciling a pod that is ready and not being deleted
  makes one, any other none.
\<close>

lemma reconcile_sends:
  assumes "run_state (reconcile K p) s = (r, s')"
  shows "matchRequestSignal (pool s') =
    matchRequestSignal (pool s) + (if DeletionTimestamp (pmeta p) = None \<and> IsPodReady p then 1 else 0)"
proof (cases "DeletionTimestamp (pmeta p) = None")
  case True
  with assms show ?thesis by (auto simp: reconcile_def pool_queue_defs run_simps split: if_splits)
next
  case False
  let ?s = "s\<lparr>pool := (pool s)\<lparr>workerQueue := Remove (=) (worker_key p) (workerQueue (pool s))\<rparr>\<rparr>"
  have "run_state (RetryOnConflict DefaultRetry (release_deleted K p) ()) ?s = (r, s')"
    using assms False by (simp add: reconcile_def pool_queue_defs run_simps)
  from keepsD [OF keeps_RetryOnConflict [OF release_deleted_calls [of "pool ?s" "calls ?s" K p]] _ this]
  have "pool s' = pool ?s" by simp
  with False show ?thesis by simp
qed

text \<open>A send to a goroutine that has ended waits for ever, whatever happens.\<close>

definition stuck_sender :: "worker_pc \<Rightarrow> life \<Rightarrow> bool" where
  "stuck_sender w s \<longleftrightarrow> sending w \<and> poolWorker s = w \<and> handler s = LoopEnded \<and> poolMain s \<notin> {Syncing, Returned}"

lemma stuck_sender_go: "go_step N s t \<Longrightarrow> stuck_sender w s \<Longrightarrow> stuck_sender w t"
proof (induction rule: go_step.induct)
  case (pool_worker s q w')
  then show ?case by (auto simp: stuck_sender_def sending_def worker_step_simps split: worker_pc.splits)
next
  case (handle s t p)
  then show ?case by (auto simp: stuck_sender_def loop_step_simps)
qed (auto simp: stuck_sender_def sending_def)

lemma stuck_sender_env: "env_step s t \<Longrightarrow> stuck_sender w s \<Longrightarrow> stuck_sender w t"
  by (induction rule: env_step.induct) (simp_all add: stuck_sender_def)

lemma stuck_sender_forever:
  "(\<lambda>a b. go_step N a b \<or> env_step a b)\<^sup>*\<^sup>* s t \<Longrightarrow> stuck_sender w s \<Longrightarrow> stuck_sender w t"
  by (induction rule: rtranclp_induct) (auto intro: stuck_sender_go stuck_sender_env)

text \<open>
  Property C39. The pool's shutdown can hang: \<open>stopCh\<close> is closed while the worker reconciles a
  ready pod, \<open>tryHandleRequestQueue\<close> ends, and the worker then waits for ever to send on
  \<open>matchRequestSignal\<close>; \<open>WorkerPool.Run\<close> never returns, whatever else happens.
\<close>

theorem shutdown_may_hang:
  "\<exists>s. life_reach 1 1 s \<and> stopCh s \<and>
     (\<forall>t. (\<lambda>a b. go_step 1 a b \<or> env_step a b)\<^sup>*\<^sup>* s t \<longrightarrow>
        poolMain t \<noteq> Returned \<and> poolWorker t = Sending ''ns/pod'' 0)"
proof -
  let ?s1 = "(life_init 1)\<lparr>podSynced := True\<rparr>"
  let ?s2 = "?s1\<lparr>poolMain := AtStop, poolWorker := AtGet, handler := AtSelect, scaler := AtSelect\<rparr>"
  let ?s3 = "?s2\<lparr>poolQ := wq_Add ''ns/pod'' (poolQ ?s2)\<rparr>"
  let ?q = "snd (wq_Get (poolQ ?s3))"
  let ?s4 = "?s3\<lparr>poolQ := ?q, poolWorker := Working ''ns/pod'' 1\<rparr>"
  let ?s5 = "?s4\<lparr>stopCh := True\<rparr>"
  let ?s6 = "?s5\<lparr>handlerTick := False, handler := LoopEnded\<rparr>"
  let ?s7 = "?s6\<lparr>poolQ := ?q, poolWorker := Sending ''ns/pod'' 0\<rparr>"
  have 1: "life_reach 1 1 ?s1" by (rule life_reach.env [OF life_reach.init env_step.pods_synced])
  have 2: "life_reach 1 1 ?s2" by (rule life_reach.go [OF 1 go_step.pool_start]) (simp_all add: life_init_def)
  have 3: "life_reach 1 1 ?s3" by (rule life_reach.env [OF 2 env_step.pod_event])
  have "wq_Get (poolQ ?s3) = (GetItem ''ns/pod'', ?q)"
    by (simp add: life_init_def wq_new_def wq_Add_def wq_Get_def)
  then have "worker_step 1 (stopCh ?s3) (poolQ ?s3, AtGet) (?q, Working ''ns/pod'' 1)"
    by (rule worker_step.take) simp
  then have 4: "life_reach 1 1 ?s4" by (intro life_reach.go [OF 3 go_step.pool_worker]) simp
  have 5: "life_reach 1 1 ?s5" by (rule life_reach.env [OF 4 env_step.close_stop])
  have 6: "life_reach 1 1 ?s6"
    by (rule life_reach.go [OF 5 go_step.handle]) (simp add: life_init_def loop_step_simps)
  have 7: "life_reach 1 1 ?s7"
    by (rule life_reach.go [OF 6 go_step.pool_worker]) (simp add: worker_step_simps)
  have "stuck_sender (Sending ''ns/pod'' 0) ?s7" by (simp add: stuck_sender_def sending_def)
  then have "poolMain t \<noteq> Returned \<and> poolWorker t = Sending ''ns/pod'' 0"
    if "(\<lambda>a b. go_step 1 a b \<or> env_step a b)\<^sup>*\<^sup>* ?s7 t" for t
    using stuck_sender_forever [OF that] by (auto simp: stuck_sender_def)
  with 7 show ?thesis by (intro exI [of _ ?s7]) simp
qed

theorem shutdown_may_hang_witness:
  "\<exists>s. life_reach 1 1 s \<and> stopCh s \<and> poolMain s \<noteq> Returned \<and> poolWorker s = Sending ''ns/pod'' 0"
  using shutdown_may_hang by (blast intro: rtranclp.rtrancl_refl)

end
