(* ===== verification/Lifecycle_Running.thy ===== *)
theory Lifecycle_Running
  imports Lifecycle
begin

text \<open>
  The goroutines of \<open>Lifecycle\<close> while \<open>stopCh\<close> is open. \<open>matchRequestSignal\<close> is not buffered, so a
  worker of the pool or the controller that signals has to wait for \<open>tryHandleRequestQueue\<close>,
  which may not have been started yet or be busy.

  Shown: before the stop no such wait is for ever. From every reachable state the steps of the
  goroutines alone can complete any item that is being processed.
\<close>

text \<open>The worker of the pool, and worker \<open>j\<close> of the controller.\<close>

datatype worker_id = PoolWorker | CtrlWorker nat

fun worker_at :: "life \<Rightarrow> worker_id \<Rightarrow> worker_pc" where
  "worker_at s PoolWorker = poolWorker s"
| "worker_at s (CtrlWorker j) = ctrlWorkers s ! j"

fun queue_at :: "life \<Rightarrow> worker_id \<Rightarrow> workqueue" where
  "queue_at s PoolWorker = poolQ s"
| "queue_at s (CtrlWorker j) = ctrlQ s"

fun worker_exists :: "life \<Rightarrow> worker_id \<Rightarrow> bool" where
  "worker_exists s PoolWorker = True"
| "worker_exists s (CtrlWorker j) = (j < length (ctrlWorkers s))"

fun processes :: "worker_pc \<Rightarrow> string \<Rightarrow> bool" where
  "processes (Working i k) x = (x = i)"
| "processes (Sending i k) x = (x = i)"
| "processes _ x = False"

text \<open>
  Before the stop \<open>tryHandleRequestQueue\<close> has not ended, and the controller only runs when the
  pod informer has synced, so that the pool can be started.
\<close>

definition open_life :: "life \<Rightarrow> bool" where
  "open_life s \<longleftrightarrow> (\<not> stopCh s \<longrightarrow> handler s \<noteq> LoopEnded \<and> (ctrlMain s \<noteq> Syncing \<longrightarrow> podSynced s))"

lemma open_life_go: "go_step N s t \<Longrightarrow> open_life s \<Longrightarrow> open_life t"
  by (induction rule: go_step.induct) (auto simp: open_life_def elim: loop_step.cases)

lemma open_life_reach: "life_reach N n s \<Longrightarrow> open_life s"
proof (induction rule: life_reach.induct)
  case init
  then show ?case by (simp add: open_life_def life_init_def)
next
  case (go s t)
  then show ?case by (blast intro: open_life_go)
next
  case (env s t)
  from env(2,3) show ?case by cases (auto simp: open_life_def)
qed

lemma stopCh_go: "go_step N s t \<Longrightarrow> stopCh t = stopCh s"
  by (induction rule: go_step.induct) simp_all

text \<open>What holds in every reachable state before the stop.\<close>

definition running :: "life \<Rightarrow> bool" where
  "running s \<longleftrightarrow> \<not> stopCh s \<and> pool_life s \<and> ctrl_life s \<and> open_life s"

lemma running_reach: "life_reach N n s \<Longrightarrow> \<not> stopCh s \<Longrightarrow> running s"
  using life_reach_inv [of N n s] open_life_reach [of N n s] by (simp add: running_def)

lemma running_go: "go_step N s t \<Longrightarrow> running s \<Longrightarrow> running t"
  by (simp add: running_def stopCh_go pool_life_go ctrl_life_go open_life_go)

lemma worker_own_step:
  assumes "worker_exists s v" "worker_step N (stopCh s) (queue_at s v, worker_at s v) (q, w)"
  shows "\<exists>t. go_step N s t \<and> worker_exists t v \<and> worker_at t v = w \<and> queue_at t v = q"
proof (cases v)
  case PoolWorker
  with assms go_step.pool_worker [of N s q w] show ?thesis by fastforce
next
  case (CtrlWorker j)
  with assms go_step.ctrl_worker [of j s N q w] show ?thesis by fastforce
qed

lemma worker_sends:
  assumes "worker_exists s v" "worker_at s v = Sending i k" "handler s = AtSelect"
  shows "\<exists>t. go_step N s t \<and> worker_exists t v \<and> worker_at t v = Working i k"
proof (cases v)
  case PoolWorker
  with assms go_step.pool_signal [of s i k N] show ?thesis by fastforce
next
  case (CtrlWorker j)
  with assms go_step.ctrl_signal [of s j i k N] show ?thesis by fastforce
qed

text \<open>\<open>tryHandleRequestQueue\<close> can always be brought to its \<open>select\<close>, while the sender waits.\<close>

lemma handler_comes_to_select:
  assumes "running s" "worker_exists s v" "worker_at s v = Sending i k"
  shows "\<exists>t. (go_step N)\<^sup>*\<^sup>* s t \<and> worker_exists t v \<and> worker_at t v = Sending i k \<and> handler t = AtSelect"
proof (cases "handler s")
  case LoopNotStarted
  then have sync: "poolMain s = Syncing" "poolWorker s = NotStarted"
    using assms(1) by (auto simp: running_def pool_life_def)
  then obtain j where v: "v = CtrlWorker j" using assms(3) by (cases v) simp_all
  then have "Sending i k \<in> set (ctrlWorkers s)"
    using assms(2,3) by (auto simp: in_set_conv_nth)
  then have "ctrlMain s \<noteq> Syncing" using assms(1) by (auto simp: running_def ctrl_life_def)
  then have "podSynced s" using assms(1) by (simp add: running_def open_life_def)
  with sync(1) have "go_step N s (s\<lparr>poolMain := AtStop, poolWorker := AtGet, handler := AtSelect, scaler := AtSelect\<rparr>)"
    by (intro go_step.pool_start) simp_all
  moreover have "worker_at (s\<lparr>poolMain := AtStop, poolWorker := AtGet, handler := AtSelect, scaler := AtSelect\<rparr>) v = Sending i k"
    using v assms(3) by simp
  ultimately show ?thesis using assms(2) v by (intro exI conjI) (rule r_into_rtranclp, assumption, simp_all)
next
  case Busy
  then have step: "go_step N s (s\<lparr>handlerTick := handlerTick s, handler := AtSelect\<rparr>)"
    by (intro go_step.handle) (simp add: loop_step_simps)
  show ?thesis
    by (intro exI conjI, rule r_into_rtranclp, rule step) (use assms in \<open>cases v; simp\<close>)+
next
  case AtSelect
  with assms show ?thesis by blast
next
  case LoopEnded
  with assms(1) show ?thesis by (auto simp: running_def open_life_def)
qed

lemma running_steps: "(go_step N)\<^sup>*\<^sup>* s t \<Longrightarrow> running s \<Longrightarrow> running t"
  by (induction rule: rtranclp_induct) (auto intro: running_go)

lemma working_finishes:
  assumes "running s" "worker_exists s v" "worker_at s v = Working i k"
  shows "\<exists>t. (go_step N)\<^sup>*\<^sup>* s t \<and> worker_at t v = AtPoll \<and> i \<notin> wprocessing (queue_at t v)"
  using assms
proof (induction k arbitrary: s)
  case 0
  have "id \<in> requeues i" by (simp add: requeues_def)
  then have "worker_step N (stopCh s) (queue_at s v, worker_at s v) (wq_Done i (id (queue_at s v)), AtPoll)"
    unfolding "0.prems"(3) by (rule worker_step.finish)
  from worker_own_step [OF "0.prems"(2) this]
  obtain t where "go_step N s t" "worker_at t v = AtPoll" "queue_at t v = wq_Done i (queue_at s v)" by auto
  moreover have "i \<notin> wprocessing (wq_Done i q)" for q by (simp add: wq_Done_def Let_def)
  ultimately show ?case by (metis r_into_rtranclp)
next
  case (Suc k)
  have "worker_step N (stopCh s) (queue_at s v, worker_at s v) (queue_at s v, Sending i k)"
    using Suc.prems(3) by (simp add: worker_step.want)
  from worker_own_step [OF Suc.prems(2) this]
  obtain a where a: "go_step N s a" "worker_exists a v" "worker_at a v = Sending i k" by blast
  have ra: "running a" using running_go [OF a(1) Suc.prems(1)] .
  from handler_comes_to_select [OF ra a(2,3), of N] obtain b where
    b: "(go_step N)\<^sup>*\<^sup>* a b" "worker_exists b v" "worker_at b v = Sending i k" "handler b = AtSelect" by blast
  from worker_sends [OF b(2-4), of N] obtain c where
    c: "go_step N b c" "worker_exists c v" "worker_at c v = Working i k" by blast
  have "running c" using running_go [OF c(1) running_steps [OF b(1) ra]] .
  from Suc.IH [OF this c(2,3)] obtain t where
    "(go_step N)\<^sup>*\<^sup>* c t" "worker_at t v = AtPoll" "i \<notin> wprocessing (queue_at t v)" by blast
  moreover have "(go_step N)\<^sup>*\<^sup>* s c" using a(1) b(1) c(1) by (meson converse_rtranclp_into_rtranclp rtranclp.rtrancl_into_rtrancl)
  ultimately show ?case by (meson rtranclp_trans)
qed

text \<open>
  Property C14. While \<open>stopCh\<close> is open nothing hangs: whatever the goroutines have done so far, and
  although signals are sent over a channel without a buffer, an item that a worker of the pool
  or of the controller processes can be completed by steps of the goroutines alone, without
  any further event. Then it is no longer being processed, and the worker is at the end of
  its loop.
\<close>

theorem processing_can_finish:
  assumes "life_reach N n s" "\<not> stopCh s" "worker_exists s v" "processes (worker_at s v) i"
  shows "\<exists>t. (go_step N)\<^sup>*\<^sup>* s t \<and> worker_at t v = AtPoll \<and> i \<notin> wprocessing (queue_at t v)"
proof (cases "worker_at s v")
  case (Working x k)
  with assms working_finishes [OF running_reach [OF assms(1,2)] assms(3)] show ?thesis by simp
next
  case (Sending x k)
  have run: "running s" using running_reach [OF assms(1,2)] .
  from handler_comes_to_select [OF run assms(3) Sending, of N] obtain b where
    b: "(go_step N)\<^sup>*\<^sup>* s b" "worker_exists b v" "worker_at b v = Sending x k" "handler b = AtSelect" by blast
  from worker_sends [OF b(2-4), of N] obtain c where
    c: "go_step N b c" "worker_exists c v" "worker_at c v = Working x k" by blast
  have "running c" using running_go [OF c(1) running_steps [OF b(1) run]] .
  from working_finishes [OF this c(2,3), of N] Sending assms(4) b(1) c(1) show ?thesis
    by (simp, meson rtranclp.rtrancl_into_rtrancl rtranclp_trans)
qed (use assms(4) in simp_all)

theorem processing_can_finish_witness:
  "\<exists>s t. worker_at s (CtrlWorker 0) = Sending ''ns/cs'' 0 \<and> handler s = LoopNotStarted \<and>
     (go_step 1)\<^sup>*\<^sup>* s t \<and> worker_at t (CtrlWorker 0) = AtPoll"
proof -
  let ?s1 = "(life_init 1)\<lparr>podSynced := True\<rparr>"
  let ?s2 = "?s1\<lparr>shellSynced := True\<rparr>"
  let ?s3 = "?s2\<lparr>ctrlMain := AtStop, ctrlWorkers := map (\<lambda>_. AtGet) (ctrlWorkers ?s2)\<rparr>"
  let ?s4 = "?s3\<lparr>ctrlQ := wq_Add ''ns/cs'' (ctrlQ ?s3)\<rparr>"
  let ?q = "snd (wq_Get (ctrlQ ?s4))"
  let ?s5 = "?s4\<lparr>ctrlQ := ?q, ctrlWorkers := (ctrlWorkers ?s4)[0 := Working ''ns/cs'' 1]\<rparr>"
  let ?s6 = "?s5\<lparr>ctrlQ := ?q, ctrlWorkers := (ctrlWorkers ?s5)[0 := Sending ''ns/cs'' 0]\<rparr>"
  have 1: "life_reach 1 1 ?s1" by (rule life_reach.env [OF life_reach.init env_step.pods_synced])
  have 2: "life_reach 1 1 ?s2" by (rule life_reach.env [OF 1 env_step.shells_synced])
  have 3: "life_reach 1 1 ?s3" by (rule life_reach.go [OF 2 go_step.ctrl_start]) (simp_all add: life_init_def)
  have 4: "life_reach 1 1 ?s4" by (rule life_reach.env [OF 3 env_step.shell_event])
  have "wq_Get (ctrlQ ?s4) = (GetItem ''ns/cs'', ?q)"
    by (simp add: life_init_def wq_new_def wq_Add_def wq_Get_def)
  then have "worker_step 1 (stopCh ?s4) (ctrlQ ?s4, AtGet) (?q, Working ''ns/cs'' 1)"
    by (rule worker_step.take) simp
  then have 5: "life_reach 1 1 ?s5"
    by (intro life_reach.go [OF 4 go_step.ctrl_worker]) (simp_all add: life_init_def)
  have 6: "life_reach 1 1 ?s6"
    by (rule life_reach.go [OF 5 go_step.ctrl_worker]) (simp_all add: life_init_def worker_step_simps)
  have at: "worker_at ?s6 (CtrlWorker 0) = Sending ''ns/cs'' 0" "handler ?s6 = LoopNotStarted" "\<not> stopCh ?s6"
    "worker_exists ?s6 (CtrlWorker 0)"
    by (simp_all add: life_init_def)
  then have "processes (worker_at ?s6 (CtrlWorker 0)) ''ns/cs''" by simp
  from processing_can_finish [OF 6 at(3,4) this] at(1,2) show ?thesis by blast
qed

end
