(* ===== verification/Queue_Locks.thy ===== *)
theory Queue_Locks
  imports Queue
begin

text \<open>
  The locking discipline of \<open>pkg/workerpool/queue.go\<close>. Every method of the queue is a
  critical section of one \<open>sync.RWMutex\<close>: \<open>Add\<close>, \<open>Get\<close> and \<open>Remove\<close> take the write lock,
  \<open>Len\<close>, \<open>Has\<close> and \<open>All\<close> the read lock. The mutex of the Go run time prefers writers: once
  a writer has announced itself, a new reader waits until that writer has come and gone.
  A method that took the read lock twice could therefore wait for a writer that waits for
  it, which is the deadlock the comment in \<open>All\<close> warns of.

  A state holds, per goroutine, the lock actions still to do and how often it holds the
  read lock; the steps interleave freely. Shown: the write lock excludes everyone else,
  no reachable state is stuck, and every run completes all its operations.
\<close>

section \<open>The mutex and the methods' lock actions\<close>

datatype lock_action = ARLock | ARUnlock | ALock | AUnlock

fun lock_program :: "'a qop \<Rightarrow> lock_action list" where
  "lock_program (OpAdd x) = [ALock, AUnlock]"
| "lock_program OpGet = [ALock, AUnlock]"
| "lock_program (OpRemove x) = [ALock, AUnlock]"
| "lock_program (OpHas x) = [ARLock, ARUnlock]"
| "lock_program OpLen = [ARLock, ARUnlock]"
| "lock_program OpAll = [ARLock, ARUnlock]"

record rwmutex =
  todo :: "nat \<Rightarrow> lock_action list"
  readers :: "nat \<Rightarrow> nat"
  pending :: "nat option"
  writer :: "nat option"

inductive lock_step :: "rwmutex \<Rightarrow> rwmutex \<Rightarrow> bool" where
  rlock: "todo s i = ARLock # p \<Longrightarrow> pending s = None \<Longrightarrow> writer s = None \<Longrightarrow>
    lock_step s (s\<lparr>todo := (todo s)(i := p), readers := (readers s)(i := Suc (readers s i))\<rparr>)"
| runlock: "todo s i = ARUnlock # p \<Longrightarrow> readers s i = Suc k \<Longrightarrow>
    lock_step s (s\<lparr>todo := (todo s)(i := p), readers := (readers s)(i := k)\<rparr>)"
| announce: "todo s i = ALock # p \<Longrightarrow> pending s = None \<Longrightarrow> writer s = None \<Longrightarrow>
    lock_step s (s\<lparr>pending := Some i\<rparr>)"
| acquire: "todo s i = ALock # p \<Longrightarrow> pending s = Some i \<Longrightarrow> \<forall>j. readers s j = 0 \<Longrightarrow>
    lock_step s (s\<lparr>todo := (todo s)(i := p), pending := None, writer := Some i\<rparr>)"
| unlock: "todo s i = AUnlock # p \<Longrightarrow> writer s = Some i \<Longrightarrow>
    lock_step s (s\<lparr>todo := (todo s)(i := p), writer := None\<rparr>)"

definition program_of :: "'a qop list \<Rightarrow> lock_action list" where
  "program_of ops = concat (map lock_program ops)"

text \<open>Goroutine \<open>i\<close> will run the queue operations \<open>work i\<close>.\<close>

definition lock_init :: "(nat \<Rightarrow> 'a qop list) \<Rightarrow> rwmutex" where
  "lock_init work =
     \<lparr>todo = (\<lambda>i. program_of (work i)), readers = (\<lambda>_. 0), pending = None, writer = None\<rparr>"

inductive lock_reachable :: "(nat \<Rightarrow> 'a qop list) \<Rightarrow> rwmutex \<Rightarrow> bool" for work where
  start: "lock_reachable work (lock_init work)"
| step: "lock_reachable work s \<Longrightarrow> lock_step s t \<Longrightarrow> lock_reachable work t"

section \<open>The invariant\<close>

text \<open>A program made of complete critical sections.\<close>

fun sections :: "lock_action list \<Rightarrow> bool" where
  "sections [] = True"
| "sections (ALock # AUnlock # p) = sections p"
| "sections (ARLock # ARUnlock # p) = sections p"
| "sections _ = False"

lemma sections_program_of: "sections (program_of ops)"
proof (induction ops)
  case (Cons x ops)
  then show ?case by (cases x) (simp_all add: program_of_def)
qed (simp add: program_of_def)

text \<open>What a goroutine holds decides where in its program it is.\<close>

inductive thread_at :: "lock_action list \<Rightarrow> nat \<Rightarrow> bool \<Rightarrow> bool \<Rightarrow> bool" where
  idle: "sections p \<Longrightarrow> thread_at p 0 False False"
| waiting: "sections p \<Longrightarrow> thread_at (ALock # AUnlock # p) 0 True False"
| reading: "sections p \<Longrightarrow> thread_at (ARUnlock # p) 1 False False"
| writing: "sections p \<Longrightarrow> thread_at (AUnlock # p) 0 False True"

inductive_cases thread_at_idleE: "thread_at p 0 False False"

definition lock_inv :: "rwmutex \<Rightarrow> bool" where
  "lock_inv s =
     ((\<forall>i. thread_at (todo s i) (readers s i) (pending s = Some i) (writer s = Some i)) \<and>
      (writer s \<noteq> None \<longrightarrow> pending s = None \<and> (\<forall>i. readers s i = 0)))"

lemma sections_Cons:
  "sections (a # p) \<Longrightarrow>
   (a = ALock \<and> (\<exists>p'. p = AUnlock # p' \<and> sections p')) \<or>
   (a = ARLock \<and> (\<exists>p'. p = ARUnlock # p' \<and> sections p'))"
  by (cases "a # p" rule: sections.cases) auto

lemma thread_at_RLock:
  "thread_at (ARLock # p) r pd w \<Longrightarrow> r = 0 \<and> \<not> pd \<and> \<not> w \<and> thread_at p 1 False False"
  by (erule thread_at.cases) (auto dest!: sections_Cons intro: thread_at.reading [simplified])

lemma thread_at_Lock:
  "thread_at (ALock # p) r pd w \<Longrightarrow>
   r = 0 \<and> \<not> w \<and> thread_at (ALock # p) 0 True False \<and> thread_at p 0 False True"
  by (erule thread_at.cases) (auto dest!: sections_Cons intro: thread_at.intros)

lemma thread_at_RUnlock:
  "thread_at (ARUnlock # p) r pd w \<Longrightarrow> r = 1 \<and> \<not> pd \<and> \<not> w \<and> thread_at p 0 False False"
  by (erule thread_at.cases) (auto dest!: sections_Cons intro: thread_at.intros)

lemma thread_at_Unlock:
  "thread_at (AUnlock # p) r pd w \<Longrightarrow> r = 0 \<and> \<not> pd \<and> w \<and> thread_at p 0 False False"
  by (erule thread_at.cases) (auto dest!: sections_Cons intro: thread_at.intros)

lemmas thread_at_dests = thread_at_RLock thread_at_Lock thread_at_RUnlock thread_at_Unlock

lemma lock_inv_thread:
  "lock_inv s \<Longrightarrow> todo s i = p \<Longrightarrow> thread_at p (readers s i) (pending s = Some i) (writer s = Some i)"
  by (auto simp: lock_inv_def)

lemma lock_step_inv: "lock_step s t \<Longrightarrow> lock_inv s \<Longrightarrow> lock_inv t"
proof (induction rule: lock_step.induct)
  case (rlock s i p)
  from thread_at_RLock [OF lock_inv_thread [OF rlock.prems rlock.hyps(1)]] rlock show ?case
    by (auto simp: lock_inv_def)
next
  case (runlock s i p k)
  from thread_at_RUnlock [OF lock_inv_thread [OF runlock.prems runlock.hyps(1)]] runlock show ?case
    by (auto simp: lock_inv_def)
next
  case (announce s i p)
  from thread_at_Lock [OF lock_inv_thread [OF announce.prems announce.hyps(1)]]
  have "thread_at (todo s i) (readers s i) True False" using announce.hyps(1) by simp
  with announce have "thread_at (todo s j) (readers s j) (i = j) False" for j
    by (cases "i = j") (auto simp: lock_inv_def)
  with announce show ?case by (simp add: lock_inv_def)
next
  case (acquire s i p)
  from thread_at_Lock [OF lock_inv_thread [OF acquire.prems acquire.hyps(1)]]
  have "thread_at p 0 False True" by simp
  with acquire have "thread_at (((todo s)(i := p)) j) 0 False (i = j)" for j
    by (cases "i = j") (auto simp: lock_inv_def elim: allE [of _ j])
  with acquire show ?case by (simp add: lock_inv_def)
next
  case (unlock s i p)
  from thread_at_Unlock [OF lock_inv_thread [OF unlock.prems unlock.hyps(1)]]
  have "thread_at p 0 False False" by simp
  with unlock have "thread_at (((todo s)(i := p)) j) 0 False False" for j
    by (cases "i = j") (auto simp: lock_inv_def elim: allE [of _ j])
  with unlock show ?case by (simp add: lock_inv_def)
qed

lemma lock_init_inv: "lock_inv (lock_init work)"
  by (auto simp: lock_inv_def lock_init_def intro: thread_at.idle sections_program_of)

lemma lock_reachable_inv: "lock_reachable work s \<Longrightarrow> lock_inv s"
  by (induction rule: lock_reachable.induct) (auto intro: lock_init_inv lock_step_inv)

section \<open>Exclusion\<close>

lemma readers_need_RUnlock: "lock_inv s \<Longrightarrow> 0 < readers s i \<Longrightarrow> \<exists>p. todo s i = ARUnlock # p"
  by (auto dest: lock_inv_thread [OF _ refl, of s i] elim!: thread_at.cases)

lemma writer_needs_Unlock: "lock_inv s \<Longrightarrow> writer s = Some i \<Longrightarrow> \<exists>p. todo s i = AUnlock # p"
  by (auto dest: lock_inv_thread [OF _ refl, of s i] elim!: thread_at.cases)

lemma pending_needs_Lock: "lock_inv s \<Longrightarrow> pending s = Some i \<Longrightarrow> \<exists>p. todo s i = ALock # p"
  by (auto dest: lock_inv_thread [OF _ refl, of s i] elim!: thread_at.cases)

text \<open>
  While one goroutine is inside \<open>Add\<close>, \<open>Get\<close> or \<open>Remove\<close> (it holds the
  write lock and has only \<open>Unlock\<close> left to do in that call), no other goroutine is inside
  any method of the queue: none holds the read lock and none holds the write lock.
\<close>

theorem write_lock_exclusive:
  assumes "lock_reachable work s" and "writer s = Some i"
  shows "(\<exists>p. todo s i = AUnlock # p) \<and> (\<forall>j. readers s j = 0) \<and>
    (\<forall>j p. j \<noteq> i \<longrightarrow> todo s j \<noteq> AUnlock # p \<and> todo s j \<noteq> ARUnlock # p)"
proof -
  have inv: "lock_inv s" using assms(1) by (rule lock_reachable_inv)
  then have r: "\<forall>j. readers s j = 0" using assms(2) by (simp add: lock_inv_def)
  have "todo s j \<noteq> AUnlock # p \<and> todo s j \<noteq> ARUnlock # p" if "j \<noteq> i" for j p
    using that r assms(2) thread_at_Unlock thread_at_RUnlock lock_inv_thread [OF inv, of j]
    by (metis One_nat_def option.inject zero_neq_one)
  with r writer_needs_Unlock [OF inv assms(2)] show ?thesis by blast
qed

section \<open>No deadlock, and every run ends\<close>

lemma lock_progress:
  assumes inv: "lock_inv s" and "todo s i \<noteq> []"
  shows "\<exists>t. lock_step s t"
proof (cases "writer s")
  case (Some j)
  then show ?thesis using writer_needs_Unlock [OF inv Some] by (blast intro: lock_step.unlock)
next
  case nw: None
  show ?thesis
  proof (cases "\<exists>k. 0 < readers s k")
    case True
    then obtain k n where "readers s k = Suc n" by (auto simp: gr0_conv_Suc)
    with readers_need_RUnlock [OF inv, of k] show ?thesis by (auto intro: lock_step.runlock)
  next
    case nr: False
    show ?thesis
    proof (cases "pending s")
      case (Some j)
      with pending_needs_Lock [OF inv Some] nr show ?thesis
        by (auto intro: lock_step.acquire)
    next
      case None
      obtain a p where ap: "todo s i = a # p" using assms(2) by (cases "todo s i") auto
      have "thread_at (a # p) 0 False False"
        using lock_inv_thread [OF inv ap] None nw nr by simp
      then have "sections (a # p)" by (rule thread_at_idleE)
      with ap None nw show ?thesis
        by (auto dest!: sections_Cons intro: lock_step.rlock lock_step.announce)
    qed
  qed
qed

text \<open>A goroutine number bound \<open>n\<close> makes the work finite; each step uses some of it up.\<close>

definition lock_work :: "nat \<Rightarrow> rwmutex \<Rightarrow> nat" where
  "lock_work n s = 2 * (\<Sum>i < n. length (todo s i)) + (if pending s = None then 1 else 0)"

lemma lock_step_work:
  assumes "lock_step s t" and "\<And>i. n \<le> i \<Longrightarrow> todo s i = []"
  shows "lock_work n t < lock_work n s \<and> (\<forall>i. n \<le> i \<longrightarrow> todo t i = [])"
proof -
  have lt: "i < n" if "todo s i = a # p" for i a p
    using assms(2) [of i] that by (cases "n \<le> i") auto
  have sum: "(\<Sum>j < n. length (((todo s)(i := p)) j)) + 1 = (\<Sum>j < n. length (todo s j))"
    if "todo s i = a # p" for i a p
    using lt [OF that] that
    by (simp add: sum.remove [of "{..<n}" i])
  from assms(1) show ?thesis
  proof (cases rule: lock_step.cases)
    case (rlock i p)
    with sum [of i] assms(2) lt [of i] show ?thesis by (auto simp: lock_work_def)
  next
    case (runlock i p k)
    with sum [of i] assms(2) lt [of i] show ?thesis by (auto simp: lock_work_def)
  next
    case (announce i p)
    with assms(2) show ?thesis by (auto simp: lock_work_def)
  next
    case (acquire i p)
    with sum [of i] assms(2) lt [of i] show ?thesis by (auto simp: lock_work_def)
  next
    case (unlock i p)
    with sum [of i] assms(2) lt [of i] show ?thesis by (auto simp: lock_work_def)
  qed
qed

interpretation locks: ranked_steps lock_step "\<lambda>s. lock_inv s \<and> (\<forall>i. n \<le> i \<longrightarrow> todo s i = [])" "lock_work n" for n
  by unfold_locales (use lock_step_inv lock_step_work in blast)+

lemma lock_runs_end:
  assumes "lock_inv s" and "\<And>i. n \<le> i \<Longrightarrow> todo s i = []"
  shows "\<exists>t. lock_step\<^sup>*\<^sup>* s t \<and> (\<forall>i. todo t i = [])"
  using locks.comes_to_rest [of s n] lock_progress assms by blast

text \<open>
  Property C29. Whatever queue operations any number of goroutines have to run and however
  the scheduler interleaves them, no reachable state of the locks is stuck while an
  operation is unfinished, every step uses up work (so no run is endless), and from every
  reachable state all operations can be run to completion. The premise says that all but
  the first \<open>n\<close> goroutines have nothing to do.
\<close>

theorem queue_locks_deadlock_free:
  assumes "lock_reachable work s" and "\<And>i. n \<le> i \<Longrightarrow> work i = []"
  shows "((\<exists>i. todo s i \<noteq> []) \<longrightarrow> (\<exists>t. lock_step s t)) \<and>
    (\<forall>t. lock_step s t \<longrightarrow> lock_work n t < lock_work n s) \<and>
    (\<exists>t. lock_step\<^sup>*\<^sup>* s t \<and> (\<forall>i. todo t i = []))"
proof -
  have inv: "lock_inv s" using assms(1) by (rule lock_reachable_inv)
  from assms(1) have "\<forall>i. n \<le> i \<longrightarrow> todo s i = []"
  proof (induction rule: lock_reachable.induct)
    case start
    then show ?case using assms(2) by (simp add: lock_init_def program_of_def)
  next
    case (step s t)
    then show ?case using lock_step_work [OF step.hyps(2), of n] by auto
  qed
  then have fin: "todo s i = []" if "n \<le> i" for i using that by blast
  show ?thesis
    using lock_progress [OF inv] lock_step_work [OF _ fin] lock_runs_end [OF inv fin] by blast
qed

theorem queue_locks_deadlock_free_witness:
  "\<exists>t. lock_step\<^sup>*\<^sup>* (lock_init (\<lambda>i. if i < 2 then [OpAll, OpAdd (7::nat)] else [])) t \<and>
       (\<forall>i. todo t i = [])"
  using queue_locks_deadlock_free [OF lock_reachable.start, of 2
      "\<lambda>i. if i < 2 then [OpAll, OpAdd (7::nat)] else []"]
  by simp

theorem write_lock_exclusive_witness:
  "\<exists>s. lock_reachable (\<lambda>i. if i = 0 then [OpAdd (7::nat)] else []) s \<and> writer s = Some 0 \<and>
       (\<forall>j. readers s j = 0)"
proof -
  let ?w = "\<lambda>i::nat. if i = 0 then [OpAdd (7::nat)] else []"
  let ?s1 = "(lock_init ?w)\<lparr>pending := Some 0\<rparr>"
  let ?s2 = "?s1\<lparr>todo := (todo ?s1)(0 := [AUnlock]), pending := None, writer := Some 0\<rparr>"
  have "lock_step (lock_init ?w) ?s1"
    by (rule lock_step.announce) (auto simp: lock_init_def program_of_def)
  moreover have "lock_step ?s1 ?s2"
    by (rule lock_step.acquire) (auto simp: lock_init_def program_of_def)
  ultimately have "lock_reachable ?w ?s2"
    by (meson lock_reachable.start lock_reachable.step)
  with write_lock_exclusive [OF this, of 0] show ?thesis by auto
qed

section \<open>Why the read lock must not be taken twice\<close>

text \<open>
  The variant that the comment in \<open>All\<close> rules out (\<open>All\<close> calling \<open>Len\<close> under the read
  lock) does get stuck: the reader holds the lock once and wants it again, the writer has
  announced itself and waits for the reader.
\<close>

definition nested_start :: rwmutex where
  "nested_start =
     \<lparr>todo = (\<lambda>i. if i = 0 then [ARLock, ARLock, ARUnlock, ARUnlock]
                  else if i = 1 then [ALock, AUnlock] else []),
      readers = (\<lambda>_. 0), pending = None, writer = None\<rparr>"

lemma nested_read_lock_deadlocks:
  "\<exists>s. lock_step\<^sup>*\<^sup>* nested_start s \<and> todo s 0 \<noteq> [] \<and> todo s 1 \<noteq> [] \<and> (\<nexists>t. lock_step s t)"
proof -
  let ?s1 = "nested_start\<lparr>todo := (todo nested_start)(0 := [ARLock, ARUnlock, ARUnlock]),
                          readers := (\<lambda>_. 0)(0 := 1)\<rparr>"
  let ?s2 = "?s1\<lparr>pending := Some 1\<rparr>"
  have "lock_step nested_start ?s1"
    using lock_step.rlock [of nested_start 0 "[ARLock, ARUnlock, ARUnlock]"]
    by (simp add: nested_start_def)
  moreover have "lock_step ?s1 ?s2"
    by (rule lock_step.announce) (auto simp: nested_start_def)
  moreover have "\<nexists>t. lock_step ?s2 t"
    by (auto simp: nested_start_def elim!: lock_step.cases split: if_splits)
  moreover have "todo ?s2 0 \<noteq> []" "todo ?s2 1 \<noteq> []" by (simp_all add: nested_start_def)
  ultimately show ?thesis
    by (meson rtranclp.rtrancl_refl rtranclp.rtrancl_into_rtrancl)
qed

end
