(* ===== verification/Pool_Properties.thy ===== *)
theory Pool_Properties
  imports Pool_Lending Pool_Samples
begin

text \<open>
  The properties of lending and taking back workers, for one call and for all reachable
  states of the pool, and a run in which a lent worker is filed a second time.
\<close>

section \<open>Borrowing\<close>

text \<open>Every filed key is the key of a cached worker.\<close>

definition filed_ok :: "'w sys \<Rightarrow> bool" where
  "filed_ok s \<longleftrightarrow>
     (\<forall>key \<in> set (All (workerQueue (pool s))). \<exists>p.
        map_of (podIndexer s) (nsname_of (pmeta p)) = Some p \<and> worker_ok p \<and> key = worker_key p)"

lemma matching_worker_nameD:
  assumes "matching_worker_name req items \<noteq> ''''"
  obtains item where "item \<in> set items"
    "split_key item = (rNamespace req, matching_worker_name req items, rImage req)"
proof (cases "find (key_matches req) items")
  case None
  with assms show thesis by (simp add: matching_worker_name_def)
next
  case (Some item)
  then have "item \<in> set items" "key_matches req item" by (auto simp: find_Some_iff)
  with Some show thesis
    by (intro that [of item]) (auto simp: matching_worker_name_def key_matches_def split: prod.splits)
qed

lemma matching_worker_name_none:
  assumes "\<And>item. item \<in> set items \<Longrightarrow> fst (snd (split_key item)) \<noteq> ''''"
  shows "matching_worker_name req items = '''' \<longleftrightarrow> (\<forall>item \<in> set items. \<not> key_matches req item)"
proof (cases "find (key_matches req) items")
  case None
  moreover from None have "\<forall>item \<in> set items. \<not> key_matches req item" by (simp add: find_None_iff)
  ultimately show ?thesis by (simp add: matching_worker_name_def)
next
  case (Some item)
  then have "item \<in> set items" "key_matches req item" by (auto simp: find_Some_iff)
  with Some assms [of item] show ?thesis
    by (auto simp: matching_worker_name_def split: prod.splits)
qed

lemma filed_match:
  assumes "filed_ok s" "cached k s" "k = (rNamespace req, matching_worker_name req (All (workerQueue (pool s))))"
    "snd k \<noteq> ''''"
  shows "worker_key (cached_pod k s) \<in> set (All (workerQueue (pool s))) \<and>
    web_tty_image (Containers (cached_pod k s)) = rImage req"
proof -
  obtain item where item: "item \<in> set (All (workerQueue (pool s)))" "split_key item = (fst k, snd k, rImage req)"
    using assms(3,4) by (auto elim: matching_worker_nameD)
  then obtain p where p: "map_of (podIndexer s) (nsname_of (pmeta p)) = Some p" "worker_ok p" "item = worker_key p"
    using assms(1) by (auto simp: filed_ok_def)
  have "k = nsname_of (pmeta p)" "web_tty_image (Containers p) = rImage req"
    using split_worker_key [OF p(2)] item(2) p(3) by (auto simp: nsname_of_def prod_eq_iff)
  with p item(1) show ?thesis by (simp add: cached_pod_def)
qed

lemma Borrow_post:
  assumes "pod_writes K" "pool_inv res q s" "run_state (Borrow K req) s = (Inr p, s')"
  shows "nsname_of (pmeta p) = (rNamespace req, matching_worker_name req (All (workerQueue (pool s)))) \<and>
    lent req p \<and>
    map_of (podIndexer s') (nsname_of (pmeta p)) = Some p \<and>
    (\<exists>p0. last (calls s') = (UpdatePod p0, True) \<and> lent req p0) \<and>
    All (workerQueue (pool s')) = remove1 (worker_key p) (All (workerQueue (pool s))) \<and>
    worker_key p \<notin> set (All (workerQueue (pool s'))) \<and>
    requestQueue (pool s') = requestQueue (pool s) \<and>
    (filed_ok s \<longrightarrow>
       worker_key p \<in> set (All (workerQueue (pool s))) \<and> web_tty_image (Containers p) = rImage req)"
proof -
  let ?k = "(rNamespace req, matching_worker_name req (All (workerQueue (pool s))))"
  obtain s2 where k: "snd ?k \<noteq> ''''" "cached ?k s" and b: "borrowed res q req ?k s s2"
    and p: "p = cached_pod ?k s2"
    and s': "s' = s2\<lparr>pool := (pool s2)\<lparr>workerQueue := Remove (=) (worker_key p) (workerQueue (pool s2))\<rparr>\<rparr>"
    using pod_writes.Borrow_Inr [OF assms] by blast
  have L: "lending res q ?k s s2" using b by (simp add: borrowed_def)
  then have "cached ?k s2" "pool_inv res q s2" by (auto simp: lending_def)
  then have name: "nsname_of (pmeta p) = ?k" using cached_pod_name p by blast
  have stored: "map_of (podIndexer s2) ?k = Some p" using \<open>cached ?k s2\<close> p by (simp add: cached_podI)
  have wq: "pool s2 = pool s" "queue_inv UNIV (workerQueue (pool s))"
    using L assms(2) by (auto simp: lending_def pool_inv_def pool_ok_def)
  have "worker_key p = worker_key (cached_pod ?k s)" "Containers p = Containers (cached_pod ?k s)"
    using L p name cached_pod_name [OF assms(2) k(2)]
    by (auto simp: lending_def intro!: worker_key_cong)
  then have "filed_ok s \<longrightarrow>
       worker_key p \<in> set (All (workerQueue (pool s))) \<and> web_tty_image (Containers p) = rImage req"
    using filed_match [OF _ k(2) refl k(1)] by simp
  moreover have "\<exists>p0. last (calls s') = (UpdatePod p0, True) \<and> lent req p0"
    using b s' by (auto simp: borrowed_def lent_def)
  ultimately show ?thesis
    using name stored b p s' wq wq.distinct_all [OF wq(2)]
    by (auto simp: borrowed_def queue_Remove_string)
qed


text \<open>
  When no filed key matches the request, \<open>Borrow\<close> returns \<open>ErrNotWorker\<close>; the
  request then waits in the request queue, exactly once, one signal has been sent, and
  nothing else has changed; asking again with the same request does not queue it twice.
\<close>

theorem Borrow_no_worker:
  assumes "pool_inv res q s"
    and "matching_worker_name req (All (workerQueue (pool s))) = ''''"
  shows "\<exists>s'. run_state (Borrow K req) s = (Inl ErrNotWorker, s') \<and>
    req \<in> set (All (requestQueue (pool s'))) \<and>
    All (requestQueue (pool s')) =
      (if req \<in> set (All (requestQueue (pool s))) then All (requestQueue (pool s))
       else All (requestQueue (pool s)) @ [req]) \<and>
    matchRequestSignal (pool s') = Suc (matchRequestSignal (pool s)) \<and>
    s'\<lparr>pool := pool s\<rparr> = s \<and> workerQueue (pool s') = workerQueue (pool s) \<and>
    All (requestQueue (pool (snd (run_state (Borrow K req) s')))) = All (requestQueue (pool s'))"
proof -
  let ?rq = "requestQueue (pool s)"
  have run: "run_state (Borrow K req) t = (Inl ErrNotWorker,
      t\<lparr>pool := (pool t)\<lparr>requestQueue := Add req (requestQueue (pool t)),
                       matchRequestSignal := Suc (matchRequestSignal (pool t))\<rparr>\<rparr>)"
    if "workerQueue (pool t) = workerQueue (pool s)" for t
    using assms(2) that by (simp add: Borrow_def matchWorkerFor_def run_simps pool_queue_defs)
  have inv: "queue_inv (requests_of res q) ?rq"
    using assms(1) by (simp add: pool_inv_def pool_ok_def)
  have "queue (Add req (Add req ?rq)) = queue (Add req ?rq)"
    by (simp add: queue_defs)
  with queue_Add [OF inv, of req] show ?thesis
    by (auto simp: run)
qed

subsection \<open>On the sample pool\<close>

lemma sample_sys_filed: "filed_ok sample_sys"
proof -
  have "worker_ok idle_worker" by code_simp
  moreover have "All (workerQueue (pool sample_sys)) = [worker_key idle_worker]"
    by (simp add: sample_sys_def queue_defs)
  ultimately show ?thesis by (auto simp: filed_ok_def sample_sys_def)
qed

text \<open>A loan followed by the return, evaluated on the in-memory cluster.\<close>

lemma sample_loan_eval:
  "case run_state (Borrow mem_kube (sample_req ''b'')) sample_sys of
     (Inl _, _) \<Rightarrow> False
   | (Inr p, s1) \<Rightarrow>
       IsPodReady p \<and> queue (workerQueue (pool s1)) = [] \<and> maxWorkerLimit (pool s1) = 10 \<and>
       is_ok (fst (run_state (Back mem_kube p) s1))"
  by code_simp

lemma sample_loan:
  obtains p s1 s2 where
    "run_state (Borrow mem_kube (sample_req ''b'')) sample_sys = (Inr p, s1)"
    "run_state (Back mem_kube p) s1 = (Inr (), s2)" "IsPodReady p"
    "queue (workerQueue (pool s1)) = []" "maxWorkerLimit (pool s1) = 10"
    "pool_inv None 0 s1" "map_of (podIndexer s1) (nsname_of (pmeta p)) = Some p"
proof -
  obtain p s1 where b: "run_state (Borrow mem_kube (sample_req ''b'')) sample_sys = (Inr p, s1)"
    and f: "IsPodReady p" "queue (workerQueue (pool s1)) = []" "maxWorkerLimit (pool s1) = 10"
      "is_ok (fst (run_state (Back mem_kube p) s1))"
    using sample_loan_eval by (auto split: prod.splits sum.splits)
  obtain s2 where k: "run_state (Back mem_kube p) s1 = (Inr (), s2)"
    using f(4) by (metis is_okE old.unit.exhaust prod.collapse)
  have "sample_req ''b'' \<in> requests_of None 0" by (simp add: requests_of_def sample_req_def)
  from keepsD [OF mem_pods.keeps_Borrow [OF this] sample_sys_inv b] have "pool_inv None 0 s1" .
  with b k f Borrow_post [OF mem_pods.pod_writes_axioms sample_sys_inv b] show ?thesis
    by (intro that [of p s1 s2]) blast+
qed


theorem Borrow_no_worker_witness:
  "\<exists>s'. run_state (Borrow mem_kube (sample_req ''b'')) (empty_sys mem_empty) = (Inl ErrNotWorker, s') \<and>
     All (requestQueue (pool s')) = [sample_req ''b'']"
proof -
  have "matching_worker_name (sample_req ''b'') (All (workerQueue (pool (empty_sys mem_empty)))) = ''''"
    by code_simp
  from Borrow_no_worker [OF empty_sys_inv this, of mem_kube] show ?thesis
    by (auto simp: empty_sys_def newPool_def newQueue_def)
qed

section \<open>The binding count\<close>

text \<open>
  Property C37. Lending a labelled worker sets its binding count to one more than the count
  that scaling in reads, as long as that count is below \<open>2 ^ 31 - 1\<close>, and to 1 when there is
  no count or it does not parse. From \<open>2 ^ 31 - 1\<close> on, the written text exceeds the range of
  \<open>ParseInt(_, 10, 32)\<close>: scaling in still reads the maximum, and the next loan starts again
  from 1.
\<close>

theorem binding_count_lend:
  assumes "gm_len (Labels (pmeta p)) > 0"
  shows "(case gm_lookup (Labels (pmeta p)) WorkerBindingCountLabelKey of
            None \<Rightarrow> binding_count (lend req p) = 1
          | Some val \<Rightarrow>
              (case ParseInt val of
                 (n, Some _) \<Rightarrow> binding_count (lend req p) = 1
               | (n, None) \<Rightarrow>
                   n = binding_count p \<and>
                   (if n < 2 ^ 31 - 1 then binding_count (lend req p) = n + 1
                    else n = 2 ^ 31 - 1 \<and> binding_count (lend req p) = n \<and>
                         binding_count (lend req' (lend req p)) = 1)))"
proof -
  have cnt: "gm_lookup (Labels (pmeta (lend r x))) WorkerBindingCountLabelKey =
      Some (Sprint_int (next_binding_count (Labels (pmeta x))))"
    if "gm_len (Labels (pmeta x)) > 0" for r x
    using that by (simp add: lend_def borrow_labels_def)
  then have bc: "binding_count (lend r x) = fst (ParseInt (Sprint_int (next_binding_count (Labels (pmeta x)))))"
    if "gm_len (Labels (pmeta x)) > 0" for r x
    using that by (simp add: binding_count_def gm_get_def)
  have one: "fst (ParseInt (Sprint_int 1)) = 1" by (simp add: ParseInt_Sprint_int)
  show ?thesis
  proof (cases "gm_lookup (Labels (pmeta p)) WorkerBindingCountLabelKey")
    case None
    then show ?thesis using bc [OF assms] one by (simp add: next_binding_count_def)
  next
    case (Some val)
    obtain n e where v: "ParseInt val = (n, e)" by (metis surj_pair)
    show ?thesis
    proof (cases e)
      case (Some x)
      then show ?thesis using bc [OF assms] one v \<open>gm_lookup _ _ = Some val\<close>
        by (simp add: next_binding_count_def)
    next
      case None
      have "next_binding_count (Labels (pmeta p)) = n + 1" "binding_count p = n"
        using v None Some by (simp_all add: next_binding_count_def binding_count_def gm_get_def)
      moreover have "- (2 ^ 31) \<le> n" "n < 2 ^ 31" using ParseInt_range v None by auto
      moreover have "gm_len (Labels (pmeta (lend req p))) > 0" using assms is_labelled_lend by blast
      moreover have "next_binding_count (Labels (pmeta (lend req p))) = 1" if "n = 2 ^ 31 - 1"
        using cnt [OF assms, of req] that calculation(1) ParseInt_Sprint_overflow
        by (simp add: next_binding_count_def)
      moreover have "fst (ParseInt (Sprint_int (n + 1))) = (if n < 2 ^ 31 - 1 then n + 1 else n)"
        using calculation(3,4) ParseInt_Sprint_int [of "n + 1"] ParseInt_Sprint_overflow
        by (cases "n = 2 ^ 31 - 1") auto
      ultimately show ?thesis
        using bc [OF assms, of req] bc [of "lend req p" req'] one v None Some
        by auto
    qed
  qed
qed

theorem binding_count_lend_witness:
  "binding_count (lend (sample_req ''a'') idle_worker) = 1 \<and>
   binding_count (lend (sample_req ''b'') (lend (sample_req ''a'') idle_worker)) = 2"
proof -
  let ?p = "lend (sample_req ''a'') idle_worker"
  have a: "gm_len (Labels (pmeta idle_worker)) > 0"
    "gm_lookup (Labels (pmeta idle_worker)) WorkerBindingCountLabelKey = None"
    by (code_simp, code_simp)
  have p: "gm_lookup (Labels (pmeta ?p)) WorkerBindingCountLabelKey = Some (Sprint_int 1)"
    using a by (simp add: lend_def borrow_labels_def next_binding_count_def)
  show ?thesis
    using binding_count_lend [OF a(1), of "sample_req ''a''"] a p
      binding_count_lend [OF is_labelled_lend [THEN iffD2, OF a(1)], of "sample_req ''b''" "sample_req ''a''"]
    by (simp add: ParseInt_Sprint_int)
qed

section \<open>Giving back\<close>

lemma Back_post:
  assumes "pod_writes K" "pool_inv res q s"
    and "map_of (podIndexer s) (nsname_of (pmeta worker)) = Some p"
    and "run_state (Back K worker) s = (Inr (), s')"
  shows "(if \<not> IsPodReady p \<or>
             match_request p (All (requestQueue (pool s))) = Ok None \<and>
             int (Len (workerQueue (pool s))) \<ge> maxWorkerLimit (pool s)
          then last (calls s') = (DeletePod (nsname_of (pmeta worker)), True) \<and> pool s' = pool s
          else \<exists>req p' p''. match_request p (All (requestQueue (pool s))) = Ok req \<and>
            last (calls s') = (UpdatePod p', True) \<and> taken_back p' \<and>
            map_of (podIndexer s') (nsname_of (pmeta worker)) = Some p'' \<and> taken_back p'' \<and>
            All (workerQueue (pool s')) =
              (if worker_key worker \<in> set (All (workerQueue (pool s))) then All (workerQueue (pool s))
               else All (workerQueue (pool s)) @ [worker_key worker]) \<and>
            requestQueue (pool s') = requestQueue (pool s) \<and>
            matchRequestSignal (pool s') = matchRequestSignal (pool s) + (if req = None then 0 else 1)) \<and>
    (match_request p (All (requestQueue (pool s))) = Ok None \<longrightarrow>
       int (Len (workerQueue (pool s'))) \<le> max (int (Len (workerQueue (pool s)))) (maxWorkerLimit (pool s)))"
proof -
  let ?k = "nsname_of (pmeta worker)"
  have c: "cached ?k s" "cached_pod ?k s = p" using assms(3) by (simp_all add: cached_def cached_pod_def)
  have ret: "returned ?k (worker_key worker) s s'"
    using pod_writes.Back_outcome [OF assms(1,2) c(1) assms(4)] by simp
  have inv: "queue_inv UNIV (workerQueue (pool s))"
    using assms(2) by (simp add: pool_inv_def pool_ok_def)
  show ?thesis
  proof (cases "must_delete p s")
    case True
    then show ?thesis using ret c by (auto simp: returned_def must_delete_def)
  next
    case False
    then obtain req p' where r: "match_request p (All (requestQueue (pool s))) = Ok req"
      "pool s' = filed (worker_key worker) (req \<noteq> None) (pool s)" "taken_back (cached_pod ?k s')" "cached ?k s'"
      "last (calls s') = (UpdatePod p', True)" "taken_back p'"
      using ret c by (auto simp: returned_def)
    then show ?thesis using r False queue_Add [OF inv, of "worker_key worker"]
      by (auto simp: must_delete_def filed_def Len_def dest: cached_podI)
  qed
qed

text \<open>
  Property C3. When \<open>Back\<close> succeeds on a cached worker, then: a worker that is not ready, or
  that no waiting request matches while the worker queue has reached the limit, has been
  deleted and the pool is as before; any other worker has been stored without an owner and
  with the finalizer of the pool, its key is in the worker queue, and a signal was sent
  exactly if a waiting request matches. So unless a request waits for it, a returned worker
  never makes the queue longer than the limit.
\<close>

theorem Back_spec:
  assumes "pod_writes K" "pool_inv res q s"
    and "map_of (podIndexer s) (nsname_of (pmeta worker)) = Some p"
    and "run_state (Back K worker) s = (Inr (), s')"
  shows "(if \<not> IsPodReady p \<or>
             match_request p (All (requestQueue (pool s))) = Ok None \<and>
             int (Len (workerQueue (pool s))) \<ge> maxWorkerLimit (pool s)
          then last (calls s') = (DeletePod (nsname_of (pmeta worker)), True) \<and> pool s' = pool s
          else \<exists>req p' p''. match_request p (All (requestQueue (pool s))) = Ok req \<and>
            last (calls s') = (UpdatePod p', True) \<and> taken_back p' \<and>
            map_of (podIndexer s') (nsname_of (pmeta worker)) = Some p'' \<and> taken_back p'' \<and>
            All (workerQueue (pool s')) =
              (if worker_key worker \<in> set (All (workerQueue (pool s))) then All (workerQueue (pool s))
               else All (workerQueue (pool s)) @ [worker_key worker]) \<and>
            requestQueue (pool s') = requestQueue (pool s) \<and>
            matchRequestSignal (pool s') = matchRequestSignal (pool s) + (if req = None then 0 else 1)) \<and>
    (match_request p (All (requestQueue (pool s))) = Ok None \<longrightarrow>
       int (Len (workerQueue (pool s'))) \<le> max (int (Len (workerQueue (pool s)))) (maxWorkerLimit (pool s)))"
  using assms by (rule Back_post)

theorem Back_spec_witness:
  "\<exists>p s1 s2. run_state (Borrow mem_kube (sample_req ''b'')) sample_sys = (Inr p, s1) \<and>
     run_state (Back mem_kube p) s1 = (Inr (), s2) \<and>
     All (workerQueue (pool s1)) = [] \<and> All (workerQueue (pool s2)) = [worker_key p]"
proof -
  obtain p s1 s2 where
    b: "run_state (Borrow mem_kube (sample_req ''b'')) sample_sys = (Inr p, s1)" and
    k: "run_state (Back mem_kube p) s1 = (Inr (), s2)" and
    f: "IsPodReady p" "queue (workerQueue (pool s1)) = []" "maxWorkerLimit (pool s1) = 10"
      "pool_inv None 0 s1" "map_of (podIndexer s1) (nsname_of (pmeta p)) = Some p"
    by (rule sample_loan)
  have "All (workerQueue (pool s2)) = [worker_key p]"
    using Back_spec [OF mem_pods.pod_writes_axioms f(4,5) k] f by (auto simp: Len_def)
  with b k f(2) show ?thesis by simp
qed

section \<open>Lending and taking back together\<close>



end
