(* ===== verification/Pool_Machine.thy ===== *)
theory Pool_Machine
  imports Pool_Lending Pool_Samples
begin

text \<open>
  The pool as a state machine. Its goroutines (\<open>worker\<close>, \<open>tryHandleRequestQueue\<close>,
  \<open>tryScaleInWorkerQueue\<close>), the informer and the callers of \<open>Borrow\<close> and \<open>Back\<close> take turns;
  one step is one iteration of a loop or one call. Between the steps other clients may
  change the cluster at will, and the informer may bring the cache to any contents in which
  a pod is filed under its own name. \<open>stopCh\<close> ends the loops (\<open>Shutdown\<close>).
\<close>

inductive pool_step :: "'w kube \<Rightarrow> nat option \<Rightarrow> nat \<Rightarrow> 'w sys \<Rightarrow> 'w sys \<Rightarrow> bool"
  for K :: "'w kube" and res :: "nat option" and q :: nat
where
  Cluster: "pool_step K res q s (s\<lparr>cluster := w\<rparr>)"
| Informer: "cache_ok idx \<Longrightarrow> pool_step K res q s (s\<lparr>podIndexer := idx\<rparr>)"
| Event: "run_state (pool_enqueue obj) s = (Inr (), s') \<Longrightarrow> pool_step K res q s s'"
| Worker: "run_state (processNextCluster K) s = (Some b, s') \<Longrightarrow> pool_step K res q s s'"
| Tick: "run_state (handleRequestQueue K) s = ((), s') \<Longrightarrow> pool_step K res q s s'"
| Signal: "matchRequestSignal (pool s) = Suc n \<Longrightarrow>
    run_state (handleRequestQueue K) (s\<lparr>pool := (pool s)\<lparr>matchRequestSignal := n\<rparr>\<rparr>) = ((), s') \<Longrightarrow>
    pool_step K res q s s'"
| ScaleIn: "run_state (scaleInWorkerQueue K) s = (r, s') \<Longrightarrow> pool_step K res q s s'"
| Lend: "req \<in> requests_of res q \<Longrightarrow> run_state (Borrow K req) s = (r, s') \<Longrightarrow> pool_step K res q s s'"
| Return: "run_state (Back K p) s = (r, s') \<Longrightarrow> pool_step K res q s s'"
| Shutdown: "pool_step K res q s (s\<lparr>pool := (pool s)\<lparr>pqueue := wq_ShutDown (pqueue (pool s))\<rparr>\<rparr>)"

inductive pool_reach :: "'w kube \<Rightarrow> nat option \<Rightarrow> nat \<Rightarrow> 'w sys \<Rightarrow> bool"
  for K :: "'w kube" and res :: "nat option" and q :: nat
where
  Start: "pool s = newPool core limit \<Longrightarrow> podIndexer s = [] \<Longrightarrow> wq_inv (cqueue (ctrl s)) \<Longrightarrow>
    pool_reach K res q s"
| Step: "pool_reach K res q s \<Longrightarrow> pool_step K res q s s' \<Longrightarrow> pool_reach K res q s'"

lemma pool_step_inv:
  assumes "pod_writes K" "pool_step K res q s s'" "pool_inv res q s"
  shows "pool_inv res q s'"
  using assms(2,3)
proof cases
  case (Event obj)
  show ?thesis by (rule keepsD [OF keeps_pool_enqueue assms(3) Event])
next
  case (Worker b)
  show ?thesis by (rule keepsD [OF keeps_processNextCluster assms(3) Worker])
next
  case Tick
  show ?thesis by (rule keepsD [OF keeps_handleRequestQueue assms(3) Tick])
next
  case (Signal n)
  have "pool_inv res q (s\<lparr>pool := (pool s)\<lparr>matchRequestSignal := n\<rparr>\<rparr>)"
    using assms(3) by (simp add: pool_inv_def pool_ok_def)
  then show ?thesis using Signal(2) by (rule keepsD [OF keeps_handleRequestQueue])
next
  case (ScaleIn r)
  show ?thesis by (rule keepsD [OF keeps_scaleInWorkerQueue assms(3) ScaleIn])
next
  case (Lend req r)
  show ?thesis by (rule keepsD [OF pod_writes.keeps_Borrow [OF assms(1) Lend(1)] assms(3) Lend(2)])
next
  case (Return p r)
  show ?thesis by (rule keepsD [OF pod_writes.keeps_Back [OF assms(1)] assms(3) Return])
qed (use assms(3) in \<open>simp_all add: pool_inv_def pool_ok_def wq_ShutDown_def\<close>)

lemma pool_reach_inv:
  assumes "pod_writes K" "pool_reach K res q s"
  shows "pool_inv res q s"
  using assms(2)
proof induction
  case (Start s core limit)
  then show ?case by (simp add: pool_inv_def newPool_ok cache_ok_def)
next
  case (Step s s')
  show ?case by (rule pool_step_inv [OF assms(1) Step(2,3)])
qed


section \<open>A lent worker can be filed again\<close>

lemma run_reconcile_ready:
  assumes "IsPodReady p" "DeletionTimestamp (pmeta p) = None"
  shows "run_state (reconcile K p) s = (Ok (), s\<lparr>pool := filed (worker_key p) True (pool s)\<rparr>)"
  using assms by (simp add: reconcile_def pool_queue_defs run_simps filed_def)

lemma run_processNextCluster_ready:
  assumes "wqueue (pqueue (pool s)) = key # rest" "SplitMetaNamespaceKey key = Ok k"
    "map_of (podIndexer s) k = Some p" "IsPodReady p" "DeletionTimestamp (pmeta p) = None"
  shows "\<exists>pq. run_state (processNextCluster K) s =
    (Some True, s\<lparr>pool := (filed (worker_key p) True (pool s))\<lparr>pqueue := pq\<rparr>\<rparr>)"
  using assms
  by (cases k) (simp add: processNextCluster_def wq_Get_def processCluster_def pool_upd_queue_def
      run_simps run_reconcile_ready filed_def, blast)

text \<open>
  Property C40. \<open>reconcile\<close> does not look at the owner of the pod. If an event of an idle
  worker is still in the work queue when the worker is lent, then processing that event
  files the lent worker again, although the pod still carries its owner: the worker queue
  offers it to the next matching request.
\<close>

theorem lent_worker_filed_again:
  assumes "pod_writes K" "pool_inv res q s" "run_state (Borrow K req) s = (Inr p, s1)"
    and "IsPodReady p" "DeletionTimestamp (pmeta p) = None" "gm_len (Labels (pmeta p)) > 0"
    and "wqueue (pqueue (pool s)) = MetaNamespaceKey (pmeta p) # rest"
    and "CHR ''/'' \<notin> set (Namespace (pmeta p))" "CHR ''/'' \<notin> set (Name (pmeta p))"
  shows "\<exists>s2. run_state (processNextCluster K) s1 = (Some True, s2) \<and>
    worker_key p \<notin> set (All (workerQueue (pool s1))) \<and>
    worker_key p \<in> set (All (workerQueue (pool s2))) \<and>
    map_of (podIndexer s2) (nsname_of (pmeta p)) = Some p \<and>
    gm_lookup (Labels (pmeta p)) WorkerOwnerLabelKey = Some (rCloudshell req)"
proof -
  let ?k = "(rNamespace req, matching_worker_name req (All (workerQueue (pool s))))"
  obtain t where b: "borrowed res q req ?k s t" and p: "p = cached_pod ?k t"
    and s1: "s1 = t\<lparr>pool := (pool t)\<lparr>workerQueue := Remove (=) (worker_key p) (workerQueue (pool t))\<rparr>\<rparr>"
    using pod_writes.Borrow_Inr [OF assms(1-3)] by blast
  then have L: "pool t = pool s" "cached ?k t" "pool_inv res q t" "lent req p"
    by (auto simp: borrowed_def lending_def)
  have name: "nsname_of (pmeta p) = ?k" using cached_pod_name [OF L(3,2)] p by simp
  have c: "map_of (podIndexer s1) (nsname_of (pmeta p)) = Some p"
    using cached_podI [OF L(2)] p s1 name by simp
  have inv: "queue_inv UNIV (workerQueue (pool s))" using assms(2) by (simp add: pool_inv_def pool_ok_def)
  then have inv1: "queue_inv UNIV (workerQueue (pool s1))" using s1 L(1) by (simp add: wq.inv_remove)
  have q1: "wqueue (pqueue (pool s1)) = MetaNamespaceKey (pmeta p) # rest" using s1 L(1) assms(7) by simp
  obtain pq where "run_state (processNextCluster K) s1 =
      (Some True, s1\<lparr>pool := (filed (worker_key p) True (pool s1))\<lparr>pqueue := pq\<rparr>\<rparr>)"
    using run_processNextCluster_ready
      [OF q1 SplitMetaNamespaceKey_inverse [OF assms(8,9)] c assms(4,5)] by blast
  moreover have "worker_key p \<notin> set (queue (workerQueue (pool s1)))"
    using s1 L(1) inv by (simp add: queue_Remove_string queue_inv_def)
  ultimately show ?thesis
    using c L(4) assms(6) queue_Add [OF inv1, of "worker_key p"] by (simp add: filed_def lent_def)
qed

definition race_sys :: "mem sys" where
  "race_sys = snd (run_state (pool_enqueue (ObjPod idle_worker)) sample_sys)"

lemma race_eval:
  "case run_state (Borrow mem_kube (sample_req ''b'')) race_sys of
     (Inl _, _) \<Rightarrow> False
   | (Inr p, _) \<Rightarrow>
       IsPodReady p \<and> DeletionTimestamp (pmeta p) = None \<and> Labels (pmeta p) \<noteq> Some [] \<and>
       Labels (pmeta p) \<noteq> None \<and> Namespace (pmeta p) = ''ns'' \<and> Name (pmeta p) = ''w''"
  by code_simp

theorem lent_worker_filed_again_witness:
  "\<exists>p s1 s2. run_state (Borrow mem_kube (sample_req ''b'')) race_sys = (Inr p, s1) \<and>
     run_state (processNextCluster mem_kube) s1 = (Some True, s2) \<and>
     worker_key p \<in> set (All (workerQueue (pool s2))) \<and>
     gm_lookup (Labels (pmeta p)) WorkerOwnerLabelKey = Some ''b''"
proof -
  obtain p s1 where run: "run_state (Borrow mem_kube (sample_req ''b'')) race_sys = (Inr p, s1)"
    and f: "IsPodReady p" "DeletionTimestamp (pmeta p) = None" "Labels (pmeta p) \<noteq> Some []"
      "Labels (pmeta p) \<noteq> None" "Namespace (pmeta p) = ''ns''" "Name (pmeta p) = ''w''"
    using race_eval by (auto split: prod.splits sum.splits)
  have inv: "pool_inv None 0 race_sys"
    unfolding race_sys_def
    by (rule keepsD [OF keeps_pool_enqueue sample_sys_inv prod.collapse [symmetric]])
  have len: "gm_len (Labels (pmeta p)) > 0"
    using f(3,4) by (cases "Labels (pmeta p)") (auto simp: gm_len_def entries_def)
  have "wqueue (pqueue (pool race_sys)) = [''ns/w'']"
    by code_simp
  then have q: "wqueue (pqueue (pool race_sys)) = MetaNamespaceKey (pmeta p) # []"
    using f by (simp add: MetaNamespaceKey_def)
  have "CHR ''/'' \<notin> set (Namespace (pmeta p))" "CHR ''/'' \<notin> set (Name (pmeta p))"
    using f by simp_all
  from lent_worker_filed_again [OF mem_pods.pod_writes_axioms inv run f(1,2) len q this] run
  show ?thesis by (auto simp: sample_req_def)
qed

section \<open>A reachable state\<close>

lemma empty_sys_reach: "pool_reach mem_kube None 0 (empty_sys w)"
  by (rule Start [of _ 1 10]) (simp_all add: empty_sys_def sample_ctrl_def wq_new_inv)

definition two_requests :: "mem sys" where
  "two_requests =
     snd (run_state (Borrow mem_kube (sample_req ''c''))
       (snd (run_state (Borrow mem_kube (sample_req ''b'')) (empty_sys mem_empty))))"

lemma two_requests_reach: "pool_reach mem_kube None 0 two_requests"
proof -
  have r: "sample_req n \<in> requests_of None 0" for n by (simp add: requests_of_def sample_req_def)
  note step = Lend [OF r prod.collapse [symmetric], of mem_kube]
  show ?thesis
    unfolding two_requests_def
    by (rule Step [OF Step [OF empty_sys_reach step] step])
qed


end
