(* ===== verification/Pool_Scaling.thy ===== *)
theory Pool_Scaling
  imports Pool_Lending Pool_Samples
begin

text \<open>
  Scaling in (\<open>scaleInWorkerQueue\<close>): which workers are deleted, in which order and how many,
  what becomes of the worker queue, and when the run panics. The sorting routine is used
  only through the locale \<open>slice_sort\<close>.
\<close>

section \<open>The comparison\<close>

lemma scale_less_iff:
  "scale_less x y \<longleftrightarrow>
     binding_count x < binding_count y \<or>
     binding_count x = binding_count y \<and> CreationTimestamp (pmeta x) < CreationTimestamp (pmeta y)"
  by (auto simp: scale_less_def Let_def)

lemma scale_less_strict_weak: "strict_weak scale_less"
  unfolding strict_weak_def scale_less_iff by linarith

lemma scale_number_bounds: "0 < d \<Longrightarrow> 0 < scale_number d \<and> scale_number d \<le> d"
  by (simp add: scale_number_def) linarith

section \<open>Scanning the workers\<close>

text \<open>A pod on which neither the readiness check nor the matching panics.\<close>

definition scannable :: "Request list \<Rightarrow> pod \<Rightarrow> bool" where
  "scannable reqs p \<longleftrightarrow>
     GetPodReadyCondition (Conditions p) \<noteq> None \<and> (IsPodReady p \<longrightarrow> reqs = [] \<or> Containers p \<noteq> [])"

definition idle_of :: "Request list \<Rightarrow> pod list \<Rightarrow> pod list" where
  "idle_of reqs ps = filter (\<lambda>p. IsPodReady p \<and> match_request p reqs = Ok None) ps"

definition unready_deletes :: "pod list \<Rightarrow> (call \<times> bool) list \<Rightarrow> bool" where
  "unready_deletes ps D \<longleftrightarrow>
     (\<forall>(c, ok) \<in> set D. \<exists>p \<in> set ps. \<not> IsPodReady p \<and> c = DeletePod (nsname_of (pmeta p)))"

lemma match_request_ok: "Containers p \<noteq> [] \<Longrightarrow> \<exists>r. match_request p reqs = Ok r"
  by (induction reqs) (auto split: list.splits)

lemma scannable_cases:
  assumes "scannable reqs p"
  shows "\<exists>na. IsPodNotAvailable now p secs = Ok na \<and> (na \<longrightarrow> \<not> IsPodReady p)"
    and "IsPodReady p \<Longrightarrow> \<exists>r. match_request p reqs = Ok r"
  using assms match_request_ok [of p reqs]
  by (auto simp: scannable_def IsPodNotAvailable_def split: option.splits)

definition same_process :: "'w sys \<Rightarrow> 'w sys \<Rightarrow> bool" where
  "same_process s t \<longleftrightarrow>
     pool t = pool s \<and> ctrl t = ctrl s \<and> podIndexer t = podIndexer s \<and> csIndexer t = csIndexer s"

lemma scan_workers_run:
  assumes "\<forall>p \<in> set ps. scannable (queue (requestQueue (pool s))) p"
  shows "\<exists>s' D. run_state (scan_workers K ps) s =
      (Ok (idle_of (queue (requestQueue (pool s))) ps), s') \<and>
    same_process s s' \<and> calls s' = calls s @ D \<and> unready_deletes ps D"
  using assms
proof (induction ps arbitrary: s)
  case Nil
  then show ?case by (simp add: idle_of_def same_process_def unready_deletes_def)
next
  case (Cons p ps)
  let ?R = "queue (requestQueue (pool s))"
  have sc: "scannable ?R p" using Cons.prems by simp
  obtain now w where now: "timeNow K (cluster s) = (now, w)" by (metis surj_pair)
  obtain na where na: "IsPodNotAvailable now p 1800 = Ok na" "na \<Longrightarrow> \<not> IsPodReady p"
    using scannable_cases(1) [OF sc] by blast
  obtain r0 s1 where s1: "run_state (if na then deleteWorker K p else State_Monad.return (Ok ()))
      (s\<lparr>cluster := w\<rparr>) = (r0, s1)" by (metis surj_pair)
  have D1: "\<exists>D. same_process s s1 \<and> calls s1 = calls s @ D \<and> unready_deletes [p] D"
    using s1 na(2)
    by (auto simp: run_deleteWorker same_process_def unready_deletes_def split: if_splits prod.splits)
  then obtain D where D: "same_process s s1" "calls s1 = calls s @ D" "unready_deletes [p] D" by blast
  then have R1: "queue (requestQueue (pool s1)) = ?R" by (simp add: same_process_def)
  obtain s' D' where IH: "run_state (scan_workers K ps) s1 = (Ok (idle_of ?R ps), s')"
    "same_process s1 s'" "calls s' = calls s1 @ D'" "unready_deletes ps D'"
    using Cons.IH [of s1] Cons.prems R1 by auto
  have m: "IsPodReady p \<Longrightarrow> \<exists>r. match_request p ?R = Ok r" using scannable_cases(2) [OF sc] .
  have "run_state (scan_workers K (p # ps)) s = (Ok (idle_of ?R (p # ps)), s')"
    using now na(1) s1 IH(1) m R1
    by (auto simp: run_simps matchRequestFor_def idle_of_def split: if_splits)
  moreover have "same_process s s'" using D(1) IH(2) by (simp add: same_process_def)
  moreover have "unready_deletes (p # ps) (D @ D')"
    using D(3) IH(4) by (fastforce simp: unready_deletes_def)
  ultimately show ?case using D(2) IH(3) by auto
qed

section \<open>Deleting the surplus\<close>

text \<open>The calls made and the worker queue left by deleting the first \<open>n\<close> workers of a slice.\<close>

definition gone_keys :: "pod list \<Rightarrow> bool list \<Rightarrow> string list" where
  "gone_keys del oks = map (\<lambda>(p, _). worker_key p) (filter snd (zip del oks))"

lemma gone_keys_simps [simp]:
  "gone_keys [] oks = []"
  "gone_keys (p # ps) (ok # oks) = (if ok then [worker_key p] else []) @ gone_keys ps oks"
  by (simp_all add: gone_keys_def)

definition scaled :: "pod list \<Rightarrow> 'w sys \<Rightarrow> 'w sys \<Rightarrow> bool" where
  "scaled del s s' \<longleftrightarrow>
     (\<exists>oks. length oks = length del \<and>
        calls s' = calls s @ zip (map (\<lambda>p. DeletePod (nsname_of (pmeta p))) del) oks \<and>
        queue (workerQueue (pool s')) =
          filter (\<lambda>key. key \<notin> set (gone_keys del oks))
            (queue (workerQueue (pool s))) \<and>
        pool s' = (pool s)\<lparr>workerQueue := workerQueue (pool s')\<rparr> \<and>
        ctrl s' = ctrl s \<and> podIndexer s' = podIndexer s)"

lemma scale_delete_run:
  assumes "i < length xs" "queue_inv UNIV (workerQueue (pool s))"
  shows "\<exists>s'. run_state (scale_delete K xs i) s = (Ok (), s') \<and>
    queue_inv UNIV (workerQueue (pool s')) \<and> scaled [xs ! i] s s'"
proof -
  let ?p = "xs ! i"
  obtain r w where d: "deletePod K (nsname_of (pmeta ?p)) (cluster s) = (r, w)" by (metis surj_pair)
  let ?s1 = "log_call (DeletePod (nsname_of (pmeta ?p))) (is_ok r) w s"
  have run: "run_state (deleteWorker K ?p) s = (r, ?s1)"
    using d by (simp add: run_deleteWorker)
  show ?thesis
  proof (cases r)
    case (Inl e)
    then have "run_state (scale_delete K xs i) s = (Ok (), ?s1)"
      using assms(1) run by (simp add: scale_delete_def)
    then show ?thesis using assms(2) Inl
      by (auto simp: scaled_def intro!: exI [of _ "[False]"])
  next
    case (Inr u)
    let ?s2 = "?s1\<lparr>pool := (pool s)\<lparr>workerQueue := Remove (=) (worker_key ?p) (workerQueue (pool s))\<rparr>\<rparr>"
    have "run_state (scale_delete K xs i) s = (Ok (), ?s2)"
      using assms(1) run Inr by (simp add: scale_delete_def pool_queue_defs run_simps)
    moreover have "remove1 (worker_key ?p) (queue (workerQueue (pool s))) =
        filter (\<lambda>key. key \<noteq> worker_key ?p) (queue (workerQueue (pool s)))"
      using assms(2) by (simp add: queue_inv_def distinct_remove1_removeAll removeAll_filter_not_eq)
        (metis (mono_tags, lifting))
    ultimately show ?thesis using assms(2) Inr
      by (auto simp: scaled_def queue_Remove_string wq.inv_remove intro!: exI [of _ "[True]"])
  qed
qed

lemma scaled_trans:
  assumes "scaled xs s t" "scaled ys t u"
  shows "scaled (xs @ ys) s u"
proof -
  obtain oks oks' where o: "length oks = length xs" "length oks' = length ys"
    "calls t = calls s @ zip (map (\<lambda>p. DeletePod (nsname_of (pmeta p))) xs) oks"
    "calls u = calls t @ zip (map (\<lambda>p. DeletePod (nsname_of (pmeta p))) ys) oks'"
    "queue (workerQueue (pool t)) =
       filter (\<lambda>key. key \<notin> set (gone_keys xs oks)) (queue (workerQueue (pool s)))"
    "queue (workerQueue (pool u)) =
       filter (\<lambda>key. key \<notin> set (gone_keys ys oks')) (queue (workerQueue (pool t)))"
    "pool t = (pool s)\<lparr>workerQueue := workerQueue (pool t)\<rparr>"
    "pool u = (pool t)\<lparr>workerQueue := workerQueue (pool u)\<rparr>"
    "ctrl u = ctrl s" "podIndexer u = podIndexer s"
    using assms unfolding scaled_def by metis
  have "gone_keys (xs @ ys) (oks @ oks') = gone_keys xs oks @ gone_keys ys oks'"
    using o(1) by (simp add: gone_keys_def)
  moreover have "(pool s)\<lparr>workerQueue := workerQueue (pool u)\<rparr> = pool u"
    using o(7,8) by (metis WorkerPool.update_convs(3) WorkerPool.surjective)
  ultimately show ?thesis
    unfolding scaled_def using o
    by (intro exI [of _ "oks @ oks'"]) (auto intro!: filter_cong)
qed

lemma scale_loop_run:
  assumes "n \<le> length xs" "queue_inv UNIV (workerQueue (pool s))"
  shows "\<exists>s'. run_state (for_eachE (scale_delete K xs) [0..<n]) s = (Ok (), s') \<and>
    queue_inv UNIV (workerQueue (pool s')) \<and> scaled (take n xs) s s'"
  using assms(1)
proof (induction n)
  case 0
  then show ?case using assms(2) by (auto simp: scaled_def gone_keys_def)
next
  case (Suc n)
  then obtain t where t: "run_state (for_eachE (scale_delete K xs) [0..<n]) s = (Ok (), t)"
    "queue_inv UNIV (workerQueue (pool t))" "scaled (take n xs) s t" by auto
  obtain u where u: "run_state (scale_delete K xs n) t = (Ok (), u)"
    "queue_inv UNIV (workerQueue (pool u))" "scaled [xs ! n] t u"
    using scale_delete_run [of n xs t K] Suc.prems t(2) by auto
  have "run_state (for_eachE (scale_delete K xs) ([0..<n] @ [n])) s = (Ok (), u)"
    using t(1) u(1) by (simp add: run_for_eachE_append)
  with u scaled_trans [OF t(3) u(3)] Suc.prems show ?case
    by (simp add: take_Suc_conv_app_nth)
qed

text \<open>The workers the run looks at: every cached pod whose owner label is empty.\<close>

definition unowned :: "'w sys \<Rightarrow> pod list" where
  "unowned s = filter (label_matches WorkerOwnerLabelKey '''') (map snd (podIndexer s))"

lemma podLister_List_all:
  "run_state (podLister_List '''' key val) s = (filter (label_matches key val) (map snd (podIndexer s)), s)"
proof -
  have "filter (\<lambda>((n :: string, _ :: string), _ :: pod). '''' = '''' \<or> n = '''') xs = xs" for xs
    by (induction xs) auto
  then show ?thesis by (simp add: run_podLister_List)
qed

text \<open>What the cut of the sorted idle workers leaves on either side.\<close>

lemma scale_cut:
  assumes "slice_sort K" "0 \<le> core" and d: "d = int (length idle) - core" "d > 0"
    and "xs = sortSlice K scale_less idle" "n = nat (scale_number d)"
  shows "n \<le> length xs" "mset (take n xs) + mset (drop n xs) = mset idle"
    "\<forall>x \<in> set (take n xs). \<forall>y \<in> set (drop n xs). \<not> scale_less y x"
    "let e = int (length (take n xs) + length (drop n xs)) - core
     in int (length (take n xs)) = (if e > 0 then (3 * e + 2) div 4 else 0) \<and>
        (e > 0 \<longrightarrow> int (length (drop n xs)) \<ge> core)"
proof -
  have len: "length xs = length idle" and ms: "mset xs = mset idle"
    using slice_sort.sort_length [OF assms(1)] slice_sort.sort_perm [OF assms(1)] by (simp_all add: assms(5))
  have n: "n \<le> length xs" "int n = (3 * d + 2) div 4" "int n \<le> d"
    using scale_number_bounds [OF d(2)] assms(2) by (auto simp: scale_number_def d(1) len assms(6))
  then show "n \<le> length xs" by simp
  show "mset (take n xs) + mset (drop n xs) = mset idle" by (metis append_take_drop_id mset_append ms)
  show "\<forall>x \<in> set (take n xs). \<forall>y \<in> set (drop n xs). \<not> scale_less y x"
    using slice_sort.sort_cut [OF assms(1) scale_less_strict_weak] by (auto simp: assms(5))
  have "length (take n xs) = n" "int (length (drop n xs)) = int (length idle) - int n" using n(1) len by auto
  then show "let e = int (length (take n xs) + length (drop n xs)) - core
     in int (length (take n xs)) = (if e > 0 then (3 * e + 2) div 4 else 0) \<and>
        (e > 0 \<longrightarrow> int (length (drop n xs)) \<ge> core)"
    using n(2,3) d by (simp add: Let_def)
qed

text \<open>
  Property C8. Scaling in, on a cache whose unowned workers have a ready condition and, if
  ready, a container, ends without a panic. It deletes some unowned workers that are not
  ready, and of the idle ones (ready, matching no waiting request) exactly three quarters,
  rounded, of what exceeds the core limit, so at least the core limit stays; no worker that
  stays was lent less often, or equally often and created earlier, than one that goes. The
  keys of the workers whose deletion succeeded leave the worker queue, all others stay.
\<close>

theorem scaleInWorkerQueue_spec:
  assumes "slice_sort K" "pool_inv res q s" "coreWorkerLimit (pool s) \<ge> 0"
    and "\<forall>p \<in> set (unowned s). scannable (All (requestQueue (pool s))) p"
  shows "\<exists>s' D s1 gone kept. run_state (scaleInWorkerQueue K) s = (Ok (), s') \<and>
    calls s1 = calls s @ D \<and> unready_deletes (unowned s) D \<and> same_process s s1 \<and>
    scaled gone s1 s' \<and>
    mset gone + mset kept = mset (idle_of (All (requestQueue (pool s))) (unowned s)) \<and>
    (let d = int (length gone + length kept) - coreWorkerLimit (pool s)
     in int (length gone) = (if d > 0 then (3 * d + 2) div 4 else 0) \<and>
        (d > 0 \<longrightarrow> int (length kept) \<ge> coreWorkerLimit (pool s))) \<and>
    (\<forall>x \<in> set gone. \<forall>y \<in> set kept. \<not> scale_less y x)"
proof -
  let ?R = "queue (requestQueue (pool s))"
  let ?idle = "idle_of ?R (unowned s)" and ?core = "coreWorkerLimit (pool s)"
  let ?xs = "sortSlice K scale_less ?idle"
  define d where "d = int (length ?idle) - ?core"
  obtain s1 D where s1: "run_state (scan_workers K (unowned s)) s = (Ok ?idle, s1)"
    "same_process s s1" "calls s1 = calls s @ D" "unready_deletes (unowned s) D"
    using scan_workers_run [of "unowned s" s K] assms(4) by auto
  have len: "length ?xs = length ?idle" by (rule slice_sort.sort_length [OF assms(1)])
  have run: "run_state (scaleInWorkerQueue K) s =
      (if d > 0 then run_state (for_eachE (scale_delete K ?xs) [0..<nat (scale_number d)]) s1 else (Ok (), s1))"
    using s1(1,2) len
    by (simp add: scaleInWorkerQueue_def podLister_List_all unowned_def [symmetric] same_process_def d_def Let_def)
  show ?thesis
  proof (cases "d > 0")
    case True
    let ?n = "nat (scale_number d)"
    note cut = scale_cut [OF assms(1,3) d_def True refl refl]
    obtain s' where s': "run_state (for_eachE (scale_delete K ?xs) [0..<?n]) s1 = (Ok (), s')"
      "scaled (take ?n ?xs) s1 s'"
      using scale_loop_run [OF cut(1), of s1 K] s1(2) assms(2)
      by (auto simp: same_process_def pool_inv_def pool_ok_def)
    with run True s1 cut(2,4) cut(3) show ?thesis
      by (intro exI [of _ s'] exI [of _ D] exI [of _ s1] exI [of _ "take ?n ?xs"] exI [of _ "drop ?n ?xs"])
        (simp add: All_eq_queue)
  next
    case False
    then have "scaled [] s1 s1" "run_state (scaleInWorkerQueue K) s = (Ok (), s1)"
      using run by (simp_all add: scaled_def)
    with s1 False show ?thesis
      by (intro exI [of _ s1] exI [of _ D] exI [of _ "[]"] exI [of _ ?idle]) (auto simp: Let_def d_def)
  qed
qed

subsection \<open>Three idle workers, one to keep\<close>

definition idle_named :: "string \<Rightarrow> int \<Rightarrow> pod" where
  "idle_named name t =
     idle_worker\<lparr>pmeta := (pmeta idle_worker)\<lparr>Name := name, CreationTimestamp := t\<rparr>\<rparr>"

definition crowded_sys :: "mem sys" where
  "crowded_sys =
     (empty_sys mem_empty)\<lparr>podIndexer :=
       map (\<lambda>(n, t). ((''ns'', n), idle_named n t)) [(''u'', 3), (''v'', 1), (''w'', 2)]\<rparr>"

lemma crowded_unowned:
  "unowned crowded_sys = map (\<lambda>(n, t). idle_named n t) [(''u'', 3), (''v'', 1), (''w'', 2)]"
  by (simp add: unowned_def crowded_sys_def label_matches_def idle_named_def idle_worker_def
      gm_lookup_def entries_def)

lemma idle_named_ready:
  "GetPodReadyCondition (Conditions (idle_named n t)) \<noteq> None \<and> IsPodReady (idle_named n t)"
  by (simp add: IsPodReady_def IsPodReadyConditionTrue_def GetPodReadyCondition_find idle_named_def
      idle_worker_def)

theorem scaleInWorkerQueue_spec_witness:
  "\<exists>s'. run_state (scaleInWorkerQueue mem_kube) crowded_sys = (Ok (), s') \<and> length (calls s') = 2"
proof -
  have inv: "pool_inv None 0 crowded_sys"
    using empty_sys_inv [of None 0 mem_empty]
    by (simp add: pool_inv_def crowded_sys_def cache_ok_def nsname_of_def idle_named_def idle_worker_def
        blank_meta_def)
  have pool: "pool crowded_sys = newPool 1 10" "calls crowded_sys = []"
    by (simp_all add: crowded_sys_def empty_sys_def)
  have core: "coreWorkerLimit (pool crowded_sys) \<ge> 0" by (simp add: pool newPool_def)
  have sc: "\<forall>p \<in> set (unowned crowded_sys). scannable (All (requestQueue (pool crowded_sys))) p"
    using idle_named_ready by (auto simp: crowded_unowned scannable_def pool newPool_def newQueue_def)
  have idle: "idle_of (All (requestQueue (pool crowded_sys))) (unowned crowded_sys) = unowned crowded_sys"
    using idle_named_ready by (simp add: crowded_unowned idle_of_def pool newPool_def newQueue_def)
  obtain s' D s1 gone kept where r: "run_state (scaleInWorkerQueue mem_kube) crowded_sys = (Ok (), s')"
    "calls s1 = calls crowded_sys @ D" "unready_deletes (unowned crowded_sys) D" "scaled gone s1 s'"
    "mset gone + mset kept = mset (unowned crowded_sys)"
    "let d = int (length gone + length kept) - coreWorkerLimit (pool crowded_sys)
     in int (length gone) = (if d > 0 then (3 * d + 2) div 4 else 0)"
    using scaleInWorkerQueue_spec [OF mem_sort.slice_sort_axioms inv core sc] unfolding idle Let_def by blast
  have "D = []"
    using r(3) idle_named_ready by (cases D) (auto simp: unready_deletes_def crowded_unowned)
  moreover have "length gone + length kept = 3"
    using arg_cong [OF r(5), of size] by (simp add: crowded_unowned)
  then have "length gone = 2" using r(6) by (simp add: pool newPool_def Let_def)
  ultimately have "length (calls s') = 2" using r(2,4) pool by (auto simp: scaled_def)
  with r(1) show ?thesis by blast
qed

section \<open>Panics\<close>

lemma match_request_Inl: "match_request p reqs = Inl e \<Longrightarrow> is_panic e"
  by (induction reqs) (auto split: list.splits if_splits)

lemma IsPodNotAvailable_Inl: "IsPodNotAvailable now p secs = Inl e \<Longrightarrow> is_panic e"
  by (auto simp: IsPodNotAvailable_def split: if_splits option.splits)

lemma no_ready_condition_panics:
  "GetPodReadyCondition (Conditions p) = None \<Longrightarrow> \<exists>m. IsPodNotAvailable now p 1800 = Inl (GoPanic m)"
  by (simp add: IsPodNotAvailable_def IsPodReady_def IsPodReadyConditionTrue_def)

lemma scan_workers_panic:
  assumes "\<exists>p \<in> set ps. GetPodReadyCondition (Conditions p) = None"
  shows "\<exists>e s'. run_state (scan_workers K ps) s = (Inl e, s') \<and> is_panic e"
  using assms
proof (induction ps arbitrary: s)
  case (Cons p ps)
  obtain now w where now: "timeNow K (cluster s) = (now, w)" by (metis surj_pair)
  show ?case
  proof (cases "IsPodNotAvailable now p 1800")
    case (Inl e)
    then show ?thesis using now IsPodNotAvailable_Inl by (simp add: run_simps)
  next
    case (Inr na)
    then have "\<exists>p \<in> set ps. GetPodReadyCondition (Conditions p) = None"
      using Cons.prems no_ready_condition_panics [of p now] by auto
    then have IH: "\<exists>e s'. run_state (scan_workers K ps) t = (Inl e, s') \<and> is_panic e" for t
      by (rule Cons.IH)
    obtain r0 s1 where s1: "run_state (if na then deleteWorker K p else State_Monad.return (Ok ()))
      (s\<lparr>cluster := w\<rparr>) = (r0, s1)" by (metis surj_pair)
    show ?thesis
      using now Inr s1 IH [of s1] match_request_Inl [of p "queue (requestQueue (pool s1))"]
      by (cases "match_request p (queue (requestQueue (pool s1)))")
        (auto simp: run_simps matchRequestFor_def split: if_splits)
  qed
qed simp

text \<open>
  Property C38. If one unowned worker in the cache has no ready condition yet, as a pod that
  was just created, scaling in ends in a panic, whatever the other pods are: the readiness
  check dereferences the missing condition.
\<close>

theorem scaleInWorkerQueue_panics:
  assumes "p \<in> set (unowned s)" "GetPodReadyCondition (Conditions p) = None"
  shows "\<exists>m s'. run_state (scaleInWorkerQueue K) s = (Err (GoPanic m), s')"
proof -
  obtain e s' where "run_state (scan_workers K (unowned s)) s = (Inl e, s')" "is_panic e"
    using scan_workers_panic [of "unowned s" K s] assms by blast
  then show ?thesis
    by (cases e) (simp_all add: scaleInWorkerQueue_def podLister_List_all unowned_def [symmetric])
qed

theorem scaleInWorkerQueue_panics_witness:
  "\<exists>m s'. run_state (scaleInWorkerQueue mem_kube)
     (crowded_sys\<lparr>podIndexer := [((''ns'', ''n''), (idle_named ''n'' 0)\<lparr>Conditions := []\<rparr>)]\<rparr>) =
     (Err (GoPanic m), s')"
  by (rule scaleInWorkerQueue_panics [where p = "(idle_named ''n'' 0)\<lparr>Conditions := []\<rparr>"])
    (simp_all add: unowned_def label_matches_def idle_named_def idle_worker_def gm_lookup_def entries_def
      GetPodReadyCondition_find)

end
