(* ===== verification/Controller_Sync.thy ===== *)
theory Controller_Sync
  imports Call_Trace Controller_Samples
begin

text \<open>
  The order of the API calls of a synchronisation: the phase of a cloudshell is set to ready
  only after the start-up script has run in the worker that the cloudshell is bound to.
\<close>

section \<open>Calls that need an earlier call\<close>

text \<open>\<open>guarded R D\<close>: every call in \<open>D\<close> that has a requirement, \<open>R c = Some Q\<close>, comes after a
  successful call satisfying \<open>Q\<close>.\<close>

definition done_before :: "(call \<Rightarrow> bool) \<Rightarrow> (call \<times> bool) list \<Rightarrow> bool" where
  "done_before Q D \<longleftrightarrow> (\<exists>(d, ok) \<in> set D. Q d \<and> ok)"

fun guarded_rev :: "(call \<Rightarrow> (call \<Rightarrow> bool) option) \<Rightarrow> (call \<times> bool) list \<Rightarrow> bool" where
  "guarded_rev R [] = True"
| "guarded_rev R ((c, _) # D) = ((case R c of None \<Rightarrow> True | Some Q \<Rightarrow> done_before Q D) \<and> guarded_rev R D)"

definition guarded :: "(call \<Rightarrow> (call \<Rightarrow> bool) option) \<Rightarrow> (call \<times> bool) list \<Rightarrow> bool" where
  "guarded R D = guarded_rev R (rev D)"

lemma done_before_rev [simp]: "done_before Q (rev D) = done_before Q D"
  by (simp add: done_before_def)

lemma done_before_append [simp]: "done_before Q (D @ E) \<longleftrightarrow> done_before Q D \<or> done_before Q E"
  by (auto simp: done_before_def)

lemma guarded_Nil [simp]: "guarded R []"
  by (simp add: guarded_def)

lemma guarded_snoc:
  "guarded R (D @ [(c, ok)]) \<longleftrightarrow> (case R c of None \<Rightarrow> True | Some Q \<Rightarrow> done_before Q D) \<and> guarded R D"
  by (simp add: guarded_def split: option.split)

lemma guardedD:
  "guarded R (D @ (c, ok) # E) \<Longrightarrow> R c = Some Q \<Longrightarrow> done_before Q D"
proof (induction E rule: rev_induct)
  case Nil
  then show ?case by (simp add: guarded_snoc)
next
  case (snoc x E)
  then show ?case using guarded_snoc [of R "D @ (c, ok) # E" "fst x" "snd x"] by simp
qed

lemma allowed_free: "R c = None \<Longrightarrow> allowed (guarded R) c"
  by (simp add: allowed_def guarded_snoc)

section \<open>Ready only after the shell was started\<close>

definition startup_in :: "nsname \<Rightarrow> call \<Rightarrow> bool" where
  "startup_in tgt d \<longleftrightarrow> (\<exists>args. d = ExecPod tgt (startupScriptPath # args))"

fun ready_needs :: "call \<Rightarrow> (call \<Rightarrow> bool) option" where
  "ready_needs (UpdateCloudShellStatus cs) =
     (if Phase (Status cs) = PhaseReady then Some (startup_in (bound_worker cs)) else None)"
| "ready_needs _ = None"

abbreviation safe_trace :: "(call \<times> bool) list \<Rightarrow> bool" where
  "safe_trace \<equiv> guarded ready_needs"

lemma safe_kinds:
  "pod_call c \<Longrightarrow> allowed safe_trace c" "route_call c \<Longrightarrow> allowed safe_trace c"
  "allowed safe_trace (ExecPod tgt cmd)" "allowed safe_trace (CreateSecret sec)"
  "allowed safe_trace (UpdateCloudShell cs)" "allowed safe_trace (DeleteCloudShell k)"
  "Phase (Status cs) = PhaseCompleted \<Longrightarrow> allowed safe_trace (UpdateCloudShellStatus cs)"
  by (rule allowed_free, cases c; simp add: phases)+

lemma keeps_removeCloudshell: "keeps (call_inv C safe_trace) (removeCloudshell K ck)"
  unfolding removeCloudshell_def ResetWorker_def removeFinalizer_def
  by (intro keeps_rules trace_exec trace_update_cs trace_Back_pods trace_unroute safe_kinds unroute_route)

lemma keeps_finish_expired: "keeps (call_inv C safe_trace) (finish_expired K ck)"
  unfolding finish_expired_def Let_def
  by (intro keeps_rules keeps_removeCloudshell trace_write trace_status safe_kinds)

lemma keeps_release_unready: "keeps (call_inv C safe_trace) (release_unready K ck worker)"
  unfolding release_unready_def by (intro keeps_rules trace_update_cs trace_Back_pods safe_kinds)

lemma keeps_acquire_worker: "keeps (call_inv C safe_trace) (acquire_worker K ck worker)"
  unfolding acquire_worker_def by (intro keeps_rules trace_update_cs safe_kinds)

lemma keeps_ensureCloudShell: "keeps (call_inv C safe_trace) (ensureCloudShell K ck)"
  unfolding ensureCloudShell_def Let_def by (intro keeps_rules trace_update_cs safe_kinds)

subsection \<open>Starting the shell\<close>

lemma exec_last:
  assumes "run_state (execCommand K ck cmd) s = (Inr (), s')"
  shows "calls s' = calls s @ [(ExecPod (bound_worker (cached_cs ck s')) cmd, True)]"
  using assms
  by (auto simp: execCommand_def Let_def run_simps bound_worker_def cached_cs_def split: prod.splits)

lemma StartupWorker_last:
  assumes "run_state (StartupWorker K ck cfg) s = (Inr (), s')"
  shows "\<exists>args. calls s' = calls s @ [(ExecPod (bound_worker (cached_cs ck s')) (startupScriptPath # args), True)]"
proof -
  obtain args where "run_state (execCommand K ck (startupScriptPath # args)) s = (Inr (), s')"
    using assms by (auto simp: StartupWorker_def ttyd_command_def split: sum.splits)
  then show ?thesis using exec_last by metis
qed

text \<open>A successful start ends with the start-up script run in the bound worker.\<close>

lemma StartupWorkerFor_last:
  assumes "run_state (StartupWorkerFor K ck) s = (Inr (), s')"
  shows "\<exists>D args. calls s' = calls s @ D @ [(ExecPod (bound_worker (cached_cs ck s')) (startupScriptPath # args), True)]"
proof -
  have "\<exists>t cfg D. run_state (StartupWorker K ck cfg) t = (Inr (), s') \<and> calls t = calls s @ D"
    using assms
    by (auto simp: StartupWorkerFor_def update_cs_def write_cs_def Let_def run_simps
        split: option.splits sum.splits prod.splits)
  then show ?thesis using StartupWorker_last by (metis append_assoc)
qed

text \<open>Once the shell of \<open>tgt\<close> was started, setting the status of a cloudshell bound to it is safe.\<close>

definition started :: "(call \<times> bool) list \<Rightarrow> nsname \<Rightarrow> nsname \<Rightarrow> 'w sys \<Rightarrow> bool" where
  "started C ck tgt s \<longleftrightarrow>
     call_inv C (\<lambda>D. safe_trace D \<and> done_before (startup_in tgt) D) s \<and> bound_worker (cached_cs ck s) = tgt"

lemma started_set_status:
  "started C ck tgt s \<Longrightarrow> bound_worker c = tgt \<Longrightarrow> started C ck tgt (set_cached_cs ck c s)"
  by (simp add: started_def call_inv_def)

lemma started_call:
  "started C ck tgt s \<Longrightarrow> (\<And>Q. ready_needs c = Some Q \<Longrightarrow> Q = startup_in tgt) \<Longrightarrow>
   started C ck tgt (s\<lparr>cluster := w, calls := calls s @ [(c, ok)]\<rparr>)"
  by (auto simp: started_def call_inv_def guarded_snoc cached_cs_def split: option.split)

lemma keeps_status_send: "keeps (started C ck tgt) (status_send K ck st)"
proof (rule keepsI)
  fix s :: "'a sys" and a s'
  assume I: "started C ck tgt s" and run: "run_state (status_send K ck st) s = (a, s')"
  have b: "bound_worker (cached_cs ck s) = tgt" using I by (simp add: started_def)
  let ?c = "(cached_cs ck s)\<lparr>Status := st\<rparr>"
  have "started C ck tgt (set_cached_cs ck ?c s)" using I b by (simp add: started_set_status)
  then have "\<And>w ok. started C ck tgt ((set_cached_cs ck ?c s)\<lparr>cluster := w,
      calls := calls (set_cached_cs ck ?c s) @ [(UpdateCloudShellStatus ?c, ok)]\<rparr>)"
    using b by (rule_tac started_call) (auto split: if_splits)
  then show "started C ck tgt s'"
    using run by (auto simp: status_send_def write_cs_def Let_def run_simps split: prod.splits sum.splits)
qed

lemma keeps_started_status: "keeps (started C ck tgt) (UpdateCloudshellStatus K ck phase)"
  unfolding UpdateCloudshellStatus_def status_resend_def Let_def
  by (intro keeps_rules keeps_status_send)

lemma keeps_mark_ready: "keeps (started C ck tgt) (mark_ready K ck url t)"
proof (rule keepsI)
  fix s :: "'a sys" and a s'
  assume I: "started C ck tgt s" and run: "run_state (mark_ready K ck url t) s = (a, s')"
  have b: "bound_worker (cached_cs ck s) = tgt" using I by (simp add: started_def)
  have clk: "started C ck tgt (s\<lparr>cluster := w\<rparr>)" for w
    using I by (simp add: started_def call_inv_def cached_cs_def)
  have "started C ck tgt (set_cached_cs ck ((cached_cs ck s)\<lparr>Status := st\<rparr>) (s\<lparr>cluster := w\<rparr>))" for st w
    using started_set_status [OF clk] b by simp
  then have upd: "run_state (UpdateCloudshellStatus K ck PhaseReady)
      (set_cached_cs ck ((cached_cs ck s)\<lparr>Status := st\<rparr>) (s\<lparr>cluster := w\<rparr>)) = (r, s'') \<Longrightarrow>
      started C ck tgt s''" for st w r s''
    using keepsD [OF keeps_started_status] by blast
  show "started C ck tgt s'"
  proof (cases "LastScheduleTime (Status (cached_cs ck s))")
    case None
    then show ?thesis
      using run by (auto simp: mark_ready_def write_cs_def Let_def run_simps dest: upd
          split: prod.splits sum.splits)
  next
    case (Some t0)
    then show ?thesis
      using run upd [where w = "cluster s"]
      by (auto simp: mark_ready_def write_cs_def Let_def run_simps split: prod.splits sum.splits)
  qed
qed

text \<open>Starting the shell and then marking it ready keeps the order.\<close>

lemma keeps_start_then_ready:
  "keeps (call_inv C safe_trace) (bindE (StartupWorkerFor K ck) (\<lambda>_. mark_ready K ck url t))"
proof (rule keepsI)
  fix s :: "'a sys" and a s'
  assume I: "call_inv C safe_trace s"
    and run: "run_state (bindE (StartupWorkerFor K ck) (\<lambda>_. mark_ready K ck url t)) s = (a, s')"
  obtain r s1 where s1: "run_state (StartupWorkerFor K ck) s = (r, s1)" by (metis surj_pair)
  have I1: "call_inv C safe_trace s1"
    by (rule keepsD [OF trace_startup I s1]) (rule safe_kinds)+
  show "call_inv C safe_trace s'"
  proof (cases r)
    case (Inl e)
    with run s1 I1 show ?thesis by simp
  next
    case (Inr u)
    let ?tgt = "bound_worker (cached_cs ck s1)"
    obtain D1 args where
      last: "calls s1 = calls s @ D1 @ [(ExecPod ?tgt (startupScriptPath # args), True)]"
      using StartupWorkerFor_last s1 Inr by (metis old.unit.exhaust)
    obtain D where D: "calls s = C @ D" using I by (auto simp: call_inv_def)
    obtain D2 where D2: "calls s1 = C @ D2" "safe_trace D2" using I1 by (auto simp: call_inv_def)
    have "D2 = D @ D1 @ [(ExecPod ?tgt (startupScriptPath # args), True)]" using D D2(1) last by simp
    then have "done_before (startup_in ?tgt) D2" by (auto simp: done_before_def startup_in_def)
    then have "started C ck ?tgt s1" using D2 by (auto simp: started_def call_inv_def)
    moreover have "run_state (mark_ready K ck url t) s1 = (a, s')" using run s1 Inr by simp
    ultimately have "started C ck ?tgt s'" by (rule keepsD [OF keeps_mark_ready])
    then show ?thesis by (auto simp: started_def call_inv_def)
  qed
qed

lemma keeps_syncHandler: "keeps (call_inv C safe_trace) (syncHandler K key)"
  unfolding syncHandler_def syncCloudShell_def
  by (intro keeps_rules keeps_removeCloudshell keeps_finish_expired keeps_release_unready
      keeps_acquire_worker keeps_ensureCloudShell keeps_start_then_ready safe_kinds)

text \<open>
  Property C1. Whenever a synchronisation, whatever its outcome, sends a status with phase
  ready for a cloudshell, it has before that, in the same run, successfully executed the
  start-up script in the pod that this cloudshell is bound to by its label.
\<close>

theorem ready_after_startup:
  assumes "run_state (syncHandler K key) s = (r, s')"
    and "calls s' = calls s @ D @ (UpdateCloudShellStatus cs, ok) # E"
    and "Phase (Status cs) = PhaseReady"
  shows "\<exists>args. (ExecPod (Namespace (cmeta cs), gm_get (Labels (cmeta cs)) CloudshellPodLabelKey)
                  (startupScriptPath # args), True) \<in> set D"
proof -
  have "call_inv (calls s) safe_trace s" by (simp add: call_inv_def)
  then have "call_inv (calls s) safe_trace s'" using keepsD [OF keeps_syncHandler] assms(1) by blast
  then have "safe_trace (D @ (UpdateCloudShellStatus cs, ok) # E)"
    using assms(2) by (auto simp: call_inv_def)
  then have "done_before (startup_in (bound_worker cs)) D" by (rule guardedD) (simp add: assms(3))
  then show ?thesis by (auto simp: done_before_def startup_in_def bound_worker_def)
qed

definition bound_ready :: CloudShell where
  "bound_ready = bound_cs\<lparr>Status := \<lparr>Phase = PhaseReady, AccessURL = '''', LastScheduleTime = Some 0\<rparr>\<rparr>"

lemma sync_bound_calls:
  "calls (snd (run_state (syncHandler mem_kube ''ns/a'') (bound_sys bound_cs))) =
     [(ExecPod (''ns'', ''w'') [startupScriptPath, ''kc'', ''false'', ''false'', ''bash'', '''', '''', '''',
         '''', '''', '''', '''', ''''], True),
      (UpdateCloudShellStatus bound_ready, True)]"
  by code_simp

theorem ready_after_startup_witness:
  "\<exists>args. (ExecPod (''ns'', ''w'') (startupScriptPath # args), True) \<in>
     set (butlast (calls (snd (run_state (syncHandler mem_kube ''ns/a'') (bound_sys bound_cs)))))"
proof -
  have c: "calls (bound_sys bound_cs) = []" by (simp add: bound_sys_def empty_sys_def)
  have b: "Phase (Status bound_ready) = PhaseReady" "Namespace (cmeta bound_ready) = ''ns''"
    "gm_get (Labels (cmeta bound_ready)) CloudshellPodLabelKey = ''w''" by code_simp+
  show ?thesis
    using ready_after_startup [OF surjective_pairing, where s = "bound_sys bound_cs" and cs = bound_ready
        and D = "[hd (calls (snd (run_state (syncHandler mem_kube ''ns/a'') (bound_sys bound_cs))))]"
        and E = "[]" and ok = True and K = mem_kube and key = "''ns/a''"] b c
    by (simp add: sync_bound_calls)
qed

end
