(* ===== verification/Controller_Ensure.thy ===== *)
theory Controller_Ensure
  imports Controller_Samples
begin

text \<open>
  The finalizer and the defaults that \<open>ensureCloudShell\<close> gives to a cloudshell.
\<close>

section \<open>Defaulting\<close>

text \<open>The object that \<open>ensureCloudShell\<close> leaves in the cache before it sends it.\<close>

definition ensured :: "string \<Rightarrow> CloudShell \<Rightarrow> CloudShell" where
  "ensured img c =
     c\<lparr>cmeta := snd (AddFinalizer CloudshellControllerFinalizer (cmeta c)),
       Spec := (Spec c)
         \<lparr>Image := (if Image (Spec c) \<noteq> '''' then Image (Spec c) else if img \<noteq> '''' then img else DefaultTtydImage),
          CommandAction := (if CommandAction (Spec c) \<noteq> '''' then CommandAction (Spec c) else ''bash''),
          ExposeMode := (if ExposeMode (Spec c) \<noteq> '''' then ExposeMode (Spec c) else ExposureServiceNodePort)\<rparr>\<rparr>"

definition is_ensured :: "CloudShell \<Rightarrow> bool" where
  "is_ensured c \<longleftrightarrow> CloudshellControllerFinalizer \<in> set (Finalizers (cmeta c)) \<and>
     Image (Spec c) \<noteq> '''' \<and> CommandAction (Spec c) \<noteq> '''' \<and> ExposeMode (Spec c) \<noteq> ''''"

lemma is_ensured_ensured: "is_ensured (ensured img c)"
  by (simp add: is_ensured_def ensured_def AddFinalizer_eq DefaultTtydImage_def
      ExposureServiceNodePort_def)

lemma ensured_id: "is_ensured c \<Longrightarrow> ensured img c = c"
  by (cases c) (simp add: is_ensured_def ensured_def AddFinalizer_eq)

text \<open>The sequence of assignments of the code computes \<open>ensured\<close>.\<close>

lemma ensured_by_code:
  assumes "m = snd (AddFinalizer CloudshellControllerFinalizer (cmeta c))"
  shows "Image (Spec c) = '''' \<Longrightarrow>
      SetObjectDefaultsCloudShell (c\<lparr>cmeta := m, Spec := (Spec c)\<lparr>Image := img\<rparr>\<rparr>) = ensured img c"
    and "Image (Spec c) \<noteq> '''' \<Longrightarrow> SetObjectDefaultsCloudShell (c\<lparr>cmeta := m\<rparr>) = ensured img c"
  using assms
  by (cases c; cases "Spec c"; simp add: SetObjectDefaultsCloudShell_def setDefaultsCloudShell_def ensured_def Let_def)+

lemma spec_unchanged_iff:
  "spec_DeepEqual (Spec (ensured img c)) (Spec c) \<longleftrightarrow>
     Image (Spec c) \<noteq> '''' \<and> CommandAction (Spec c) \<noteq> '''' \<and> ExposeMode (Spec c) \<noteq> ''''"
proof
  assume "spec_DeepEqual (Spec (ensured img c)) (Spec c)"
  from spec_DeepEqual_fields(1-3) [OF this] is_ensured_ensured [of img c]
  show "Image (Spec c) \<noteq> '''' \<and> CommandAction (Spec c) \<noteq> '''' \<and> ExposeMode (Spec c) \<noteq> ''''"
    by (simp add: is_ensured_def)
next
  assume "Image (Spec c) \<noteq> '''' \<and> CommandAction (Spec c) \<noteq> '''' \<and> ExposeMode (Spec c) \<noteq> ''''"
  then have "Spec (ensured img c) = Spec c" by (cases "Spec c") (simp add: ensured_def)
  then show "spec_DeepEqual (Spec (ensured img c)) (Spec c)" by simp
qed

section \<open>What ensuring does\<close>

lemma run_ensure:
  assumes "map_of (csIndexer s) ck = Some c"
  shows "run_state (ensureCloudShell K ck) s =
     (let s1 = set_cached_cs ck (ensured (cloudshellImage (ctrl s)) c) s
      in if is_ensured c then (Ok (), s) else run_state (update_cs K ck) s1)"
proof -
  have cc: "cached_cs ck s = c" using assms by (simp add: cached_cs_def)
  obtain upd m where a: "AddFinalizer CloudshellControllerFinalizer (cmeta c) = (upd, m)" by fastforce
  have u: "upd \<longleftrightarrow> CloudshellControllerFinalizer \<notin> set (Finalizers (cmeta c))"
    and m: "m = snd (AddFinalizer CloudshellControllerFinalizer (cmeta c))"
    using a by (auto simp: AddFinalizer_eq split: if_splits)
  have e: "is_ensured c \<longleftrightarrow> \<not> (upd \<or> \<not> spec_DeepEqual (Spec (ensured img c)) (Spec c))" for img
    by (auto simp: u spec_unchanged_iff is_ensured_def)
  have same: "set_cached_cs ck c s = s"
    using assms by (simp add: set_cached_cs_def update_triv)
  have code: "SetObjectDefaultsCloudShell
     (if length (Image (Spec (c\<lparr>cmeta := m\<rparr>))) = 0
      then (c\<lparr>cmeta := m\<rparr>)\<lparr>Spec := (Spec (c\<lparr>cmeta := m\<rparr>))\<lparr>Image := img\<rparr>\<rparr> else c\<lparr>cmeta := m\<rparr>) =
     ensured img c" for img
    using ensured_by_code [OF m] by simp
  have "run_state (ensureCloudShell K ck) s =
     run_state (if upd \<or> \<not> spec_DeepEqual (Spec (ensured (cloudshellImage (ctrl s)) c)) (Spec c)
        then update_cs K ck else State_Monad.return (Ok ()))
       (set_cached_cs ck (ensured (cloudshellImage (ctrl s)) c) s)"
    by (simp only: ensureCloudShell_def run_simps cc a code Let_def write_cs_def prod.case
        CloudShell.select_convs CloudShell.update_convs) simp
  then show ?thesis using e [of "cloudshellImage (ctrl s)"] same
    by (cases "is_ensured c") (simp_all add: ensured_id Let_def)
qed

lemma ensure_again:
  assumes "map_of (csIndexer s) ck = Some c" "is_ensured c"
  shows "run_state (ensureCloudShell K ck) s = (Ok (), s)"
  using assms by (simp add: run_ensure)

text \<open>
  Property C18. \<open>ensureCloudShell\<close> makes no API call and changes nothing if the cloudshell has the
  finalizer, an image, a command and an exposure mode; otherwise it sends exactly one update,
  with the finalizer added and only the missing of these fields filled in: the image of the
  controller, or the built-in one if that is empty, \<open>bash\<close>, and \<open>NodePort\<close>. Whatever the
  outcome, the cached object afterwards has them all, and ensuring it again does nothing; so an
  update that failed is not sent again from this cache.
\<close>

theorem ensureCloudShell_spec:
  assumes "cloudshell_writes K" "map_of (csIndexer s) ck = Some c"
    and "run_state (ensureCloudShell K ck) s = (r, s')"
  shows "calls s' = calls s @
      (if is_ensured c then []
       else [(UpdateCloudShell (ensured (cloudshellImage (ctrl s)) c), is_ok r)]) \<and>
    (\<exists>c' rv st. map_of (csIndexer s') ck = Some c' \<and> is_ensured c' \<and>
       c' = (let e = ensured (cloudshellImage (ctrl s)) c
             in e\<lparr>cmeta := (cmeta e)\<lparr>ResourceVersion := rv\<rparr>, Status := st\<rparr>) \<and>
       run_state (ensureCloudShell K ck) s' = (Ok (), s'))"
proof (cases "is_ensured c")
  case True
  then have s': "s' = s" "r = Ok ()" using assms(2,3) by (simp_all add: run_ensure)
  have "\<exists>rv st. c = c\<lparr>cmeta := (cmeta c)\<lparr>ResourceVersion := rv\<rparr>, Status := st\<rparr>"
    by (rule exI [of _ "ResourceVersion (cmeta c)"], rule exI [of _ "Status c"]) simp
  then show ?thesis
    unfolding Let_def s' ensured_id [OF True]
    using True assms(2) ensure_again [OF assms(2) True] by simp
next
  case False
  let ?e = "ensured (cloudshellImage (ctrl s)) c"
  let ?s1 = "set_cached_cs ck ?e s"
  obtain r0 w where up: "updateCloudShell K ?e (cluster s) = (r0, w)" by fastforce
  have run: "run_state (update_cs K ck) ?s1 = (r, s')" using assms(2,3) False by (simp add: run_ensure)
  have inv: "calls s' = calls s @ [(UpdateCloudShell ?e, is_ok r)]"
      "map_of (csIndexer s') ck = Some (case r0 of Inl _ \<Rightarrow> ?e | Inr x \<Rightarrow> x)"
    using run up
    by (auto simp: update_cs_def write_cs_def run_simps cached_cs_def split: sum.splits)
  have "\<exists>rv st. (case r0 of Inl _ \<Rightarrow> ?e | Inr x \<Rightarrow> x) =
      ?e\<lparr>cmeta := (cmeta ?e)\<lparr>ResourceVersion := rv\<rparr>, Status := st\<rparr>"
  proof (cases r0)
    case (Inl e)
    have "?e = ?e\<lparr>cmeta := (cmeta ?e)\<lparr>ResourceVersion := ResourceVersion (cmeta ?e)\<rparr>, Status := Status ?e\<rparr>"
      by simp
    then show ?thesis unfolding Inl sum.case by blast
  next
    case (Inr x)
    then show ?thesis using cloudshell_writes.update_cs_returns [OF assms(1)] up by simp
  qed
  then obtain rv st where c': "map_of (csIndexer s') ck =
      Some (?e\<lparr>cmeta := (cmeta ?e)\<lparr>ResourceVersion := rv\<rparr>, Status := st\<rparr>)"
    using inv(2) by metis
  moreover have ens: "is_ensured (?e\<lparr>cmeta := (cmeta ?e)\<lparr>ResourceVersion := rv\<rparr>, Status := st\<rparr>)"
    using is_ensured_ensured [of "cloudshellImage (ctrl s)" c] by (simp add: is_ensured_def)
  ultimately show ?thesis
    unfolding Let_def using inv(1) False ensure_again [OF c' ens] by auto
qed

theorem ensureCloudShell_spec_witness:
  "let s = bound_sys (blank_cs ''ns'' ''a'') in
   length (calls (snd (run_state (ensureCloudShell mem_kube (''ns'', ''a'')) s))) = 1"
  using ensureCloudShell_spec [OF mem_cloudshells.cloudshell_writes_axioms _ surjective_pairing,
      where ck = "(''ns'', ''a'')" and c = "blank_cs ''ns'' ''a''" and s = "bound_sys (blank_cs ''ns'' ''a'')"]
  by (simp add: bound_sys_def empty_sys_def Let_def is_ensured_def blank_cs_def blank_meta_def)

end
