(* ===== verification/Controller_Startup.thy ===== *)
theory Controller_Startup
  imports Call_Trace Controller_Samples
begin

text \<open>
  The command with which ttyd is started in the worker: its arguments and the client options.
\<close>

text \<open>The loop over the environment: the last entry of a name counts.\<close>

lemma env_value_last:
  "env_value name d env =
     (case find (\<lambda>e. EnvName e = name) (rev env) of None \<Rightarrow> d | Some e \<Rightarrow> EnvValue e)"
  by (induction env rule: rev_induct) (auto simp: env_value_def)

lemma Contains_bar: "Contains s ''|'' \<longleftrightarrow> CHR ''|'' \<in> set s"
  by (auto simp: Contains_def sublist_def in_set_conv_decomp)

definition has_delimiter :: "gomap \<Rightarrow> bool" where
  "has_delimiter opts \<longleftrightarrow>
     (\<exists>(k, v) \<in> set (entries opts). CHR ''|'' \<in> set k \<or> CHR ''|'' \<in> set v)"

lemma client_options_eq:
  "client_options opts =
     (if has_delimiter opts then Err (Failure ''clientOptions key or value contains delimiter(|)'')
      else Ok (Join (map (\<lambda>(k, v). k @ ''='' @ v) (entries opts)) ''|''))"
  by (cases opts)
    (auto simp: client_options_def has_delimiter_def entries_def list_ex_iff Contains_bar
      ClientOptionsDelimiter_def)

lemma client_options_split:
  assumes "\<not> has_delimiter opts" "entries opts \<noteq> []"
  shows "Split (Join (map (\<lambda>(k, v). k @ ''='' @ v) (entries opts)) ''|'') ''|'' =
    map (\<lambda>(k, v). k @ ''='' @ v) (entries opts)"
  using assms by (intro Split_Join) (auto simp: has_delimiter_def)



end
