(* ===== verification/Controller_Binding.thy ===== *)
theory Controller_Binding
  imports Controller_Removal Pool_Properties
begin

text \<open>
  Binding a worker to a cloudshell: what \<open>Borrow\<close> returns is recorded in the label, and is what
  \<open>GetBindingWorkerFor\<close> finds at the next synchronisation.
\<close>

lemma Borrow_cs:
  assumes "run_state (Borrow K req) s = (r, s')"
  shows "csIndexer s' = csIndexer s"
proof -
  have "keeps (\<lambda>t. csIndexer t = csIndexer s) (Borrow K req)"
    unfolding Borrow_def borrow_try_def matchWorkerFor_def pool_queue_defs Let_def
    by (intro keeps_rules keeps_cs_frame)
  from keepsD [OF this refl assms] show ?thesis .
qed

text \<open>
  Property C6. When \<open>syncCloudShell\<close> looks for a worker and gets one, then the worker is cached,
  in the namespace of the cloudshell, and lent to it; the last call, successful, stored the
  cloudshell with the worker's name as its label; and the next lookup of the bound worker
  finds exactly this worker, provided its name has at most 63 characters, as all generated
  names do.
\<close>

theorem binding_recorded:
  assumes "pod_writes K" "cloudshell_writes K" "pool_inv res q s"
    and "map_of (csIndexer s) ck = Some c"
    and "run_state (acquire_worker K ck None) s = (Ok (Some p), s')"
    and "length (Name (pmeta p)) \<le> LabelMaxLength"
  shows "run_state (GetBindingWorkerFor ck) s' = (Ok (Some (nsname_of (pmeta p))), s') \<and>
    map_of (podIndexer s') (nsname_of (pmeta p)) = Some p \<and>
    Namespace (pmeta p) = Namespace (cmeta c) \<and>
    (\<exists>req. rCloudshell req = Name (cmeta c) \<and> rImage req = Image (Spec c) \<and> lent req p) \<and>
    (\<exists>c'. last (calls s') = (UpdateCloudShell c', True) \<and>
       gm_lookup (Labels (cmeta c')) CloudshellPodLabelKey = Some (Name (pmeta p)))"
proof -
  have cc: "cached_cs ck s = c" using assms(4) by (simp add: cached_cs_def)
  obtain sel s1 where b: "run_state (Borrow K (borrow_request (ctrl s) c sel)) s = (Inr p, s1)"
    and up: "run_state (do { cs' \<leftarrow> gets (cached_cs ck);
        write_cs ck (cs'\<lparr>cmeta := AddLabel CloudshellPodLabelKey (Name (pmeta p)) (cmeta cs')\<rparr>);
        bindE (update_cs K ck) (\<lambda>_. State_Monad.return (Ok (Some p))) }) s1 = (Ok (Some p), s')"
    using assms(5) cc by (auto simp: acquire_worker_def split: sum.splits prod.splits if_splits)
  let ?req = "borrow_request (ctrl s) c sel"
  let ?c1 = "c\<lparr>cmeta := AddLabel CloudshellPodLabelKey (Name (pmeta p)) (cmeta c)\<rparr>"
  have B: "nsname_of (pmeta p) = (rNamespace ?req, matching_worker_name ?req (All (workerQueue (pool s))))"
      "lent ?req p" "map_of (podIndexer s1) (nsname_of (pmeta p)) = Some p"
    using Borrow_post [OF assms(1,3) b] by blast+
  have name: "Name (pmeta p) \<noteq> ''''"
    using pod_writes.Borrow_Inr [OF assms(1,3) b] B(1) by (auto simp: nsname_of_def)
  have c1: "cached_cs ck s1 = c" using Borrow_cs [OF b] cc by (simp add: cached_cs_def)
  obtain r w where u: "updateCloudShell K ?c1 (cluster s1) = (r, w)" by fastforce
  obtain c2 where c2: "r = Inr c2" "map_of (csIndexer s') ck = Some c2" "podIndexer s' = podIndexer s1"
      "calls s' = calls s1 @ [(UpdateCloudShell ?c1, True)]"
    using up c1 u by (auto simp: write_cs_def update_cs_def run_simps split: sum.splits prod.splits)
  note same = cloudshell_writes.update_cs_same [OF assms(2) u [unfolded c2(1)]]
  have lab: "gm_lookup (Labels (cmeta ?c1)) CloudshellPodLabelKey = Some (Name (pmeta p))"
    using assms(6) by (simp add: AddLabel_def truncateAndHashIfExceed_def)
  have ns: "Namespace (cmeta c) = Namespace (pmeta p)" using B(1) by (simp add: borrow_request_def nsname_of_def)
  have "nsname_of (cmeta c2) = nsname_of (cmeta c)" using same(4) by (simp add: nsname_of_def AddLabel_def)
  then have "bound_worker c2 = nsname_of (pmeta p)"
    using same(2) lab ns by (simp add: bound_worker_def gm_get_def nsname_of_def)
  then have "run_state (GetBindingWorkerFor ck) s' = (Ok (Some (nsname_of (pmeta p))), s')"
    using run_GetBindingWorkerFor [OF c2(2)] name B(3) c2(3) by (simp add: nsname_of_def)
  moreover have "rCloudshell ?req = Name (cmeta c)" "rImage ?req = Image (Spec c)"
    by (simp_all add: borrow_request_def)
  ultimately show ?thesis using B c2 lab ns by (auto simp del: AddLabel_def)
qed

lemma acquire_new_sys:
  "case fst (run_state (acquire_worker mem_kube (''ns'', ''a'') None) new_sys) of
     Inr (Some p) \<Rightarrow> length (Name (pmeta p)) \<le> LabelMaxLength | _ \<Rightarrow> False"
  by code_simp

theorem binding_recorded_witness:
  "\<exists>p s'. run_state (acquire_worker mem_kube (''ns'', ''a'') None) new_sys = (Ok (Some p), s') \<and>
     run_state (GetBindingWorkerFor (''ns'', ''a'')) s' = (Ok (Some (nsname_of (pmeta p))), s')"
proof -
  obtain r s' where run: "run_state (acquire_worker mem_kube (''ns'', ''a'') None) new_sys = (r, s')"
    by fastforce
  with acquire_new_sys obtain p where p: "r = Ok (Some p)" "length (Name (pmeta p)) \<le> LabelMaxLength"
    by (auto split: sum.splits option.splits)
  show ?thesis
    using binding_recorded [OF mem_pods.pod_writes_axioms mem_cloudshells.cloudshell_writes_axioms
        new_sys_inv new_sys_cached(1) run [unfolded p(1)] p(2)] run p by blast
qed

end
