(* ===== verification/Controller_Queue.thy ===== *)
theory Controller_Queue
  imports Controller_Sync Pool_Lending
begin

text \<open>
  The work queue of the controller: which keys the events put into it, and what becomes of a
  key that a worker of the controller has taken from it.
\<close>

section \<open>Events\<close>

lemma run_enqueueCloudshellForPod:
  "run_state (enqueueCloudshellForPod obj) s =
     ((), case pod_of_event obj of
            None \<Rightarrow> s
          | Some p \<Rightarrow>
              (let owner = gm_get (Labels (pmeta p)) WorkerOwnerLabelKey
               in if owner = '''' then s
                  else s\<lparr>ctrl := (ctrl s)\<lparr>cqueue := wq_Add (Namespace (pmeta p) @ ''/'' @ owner) (cqueue (ctrl s))\<rparr>\<rparr>))"
  by (auto simp: enqueueCloudshellForPod_def upd_cqueue_def run_upd_ctrl Let_def gm_get_def gm_lookup_def
      entries_def split: option.split)

lemma wq_Add_dirty: "\<not> wshuttingDown q \<Longrightarrow> x \<in> wdirty (wq_Add x q)"
  by (simp add: wq_Add_def Let_def)

lemma owner_of_lent:
  "lent req p \<Longrightarrow> gm_len (Labels (pmeta p)) > 0 \<Longrightarrow>
   gm_get (Labels (pmeta p)) WorkerOwnerLabelKey = rCloudshell req"
  by (simp add: lent_def gm_get_def)

text \<open>
  Property C35. An event of a worker that is lent to a cloudshell, also the tombstone of a
  deletion that the informer missed, puts a key into the controller's queue (unless that is
  shutting down) that is the key of the borrowing cloudshell, and that the synchronisation
  splits into its namespace and name. An event of a pod without an owner, or of anything
  that is not a pod, changes nothing.
\<close>

theorem pod_event_wakes_borrower:
  assumes "pod_of_event obj = Some p" "lent req p" "gm_len (Labels (pmeta p)) > 0"
    and "rCloudshell req \<noteq> ''''" "CHR ''/'' \<notin> set (rCloudshell req)"
    and "Namespace (pmeta p) \<noteq> ''''" "CHR ''/'' \<notin> set (Namespace (pmeta p))"
    and "\<not> wshuttingDown (cqueue (ctrl s))"
  shows "(\<exists>key. key \<in> wdirty (cqueue (ctrl (snd (run_state (enqueueCloudshellForPod obj) s)))) \<and>
      (\<forall>m. nsname_of m = (Namespace (pmeta p), rCloudshell req) \<longrightarrow> key = MetaNamespaceKey m) \<and>
      SplitMetaNamespaceKey key = Ok (Namespace (pmeta p), rCloudshell req)) \<and>
    (\<forall>obj'. (pod_of_event obj' = None \<or>
        (\<exists>p'. pod_of_event obj' = Some p' \<and> gm_get (Labels (pmeta p')) WorkerOwnerLabelKey = '''')) \<longrightarrow>
       run_state (enqueueCloudshellForPod obj') s = ((), s))"
proof -
  have "gm_get (Labels (pmeta p)) WorkerOwnerLabelKey = rCloudshell req"
    using owner_of_lent assms(2,3) by blast
  then show ?thesis
    using assms SplitMetaNamespaceKey_two [of "Namespace (pmeta p)" "rCloudshell req"]
    by (auto simp: run_enqueueCloudshellForPod Let_def wq_Add_dirty MetaNamespaceKey_def nsname_of_def
        intro!: exI [of _ "Namespace (pmeta p) @ ''/'' @ rCloudshell req"])
qed

theorem pod_event_wakes_borrower_witness:
  "\<exists>key. key \<in> wdirty (cqueue (ctrl (snd (run_state
       (enqueueCloudshellForPod (DeletedFinalStateUnknown ''ns/w'' (ObjPod (lend (sample_req ''a'') idle_worker))))
       sample_sys)))) \<and> SplitMetaNamespaceKey key = Ok (''ns'', ''a'')"
proof -
  have "gm_len (Labels (pmeta (lend (sample_req ''a'') idle_worker))) > 0" by code_simp
  moreover have "Namespace (pmeta (lend (sample_req ''a'') idle_worker)) = ''ns''" by code_simp
  moreover have "\<not> wshuttingDown (cqueue (ctrl sample_sys))" by code_simp
  ultimately show ?thesis
    using pod_event_wakes_borrower [where p = "lend (sample_req ''a'') idle_worker" and req = "sample_req ''a''"
        and obj = "DeletedFinalStateUnknown ''ns/w'' (ObjPod (lend (sample_req ''a'') idle_worker))"
        and s = sample_sys, OF _ lend_lent]
    by (auto simp: pod_of_event_def sample_req_def)
qed

section \<open>One round of a worker\<close>

text \<open>A synchronisation does not touch the controller's own fields.\<close>

definition ctrl_is :: "Controller \<Rightarrow> 'w sys \<Rightarrow> bool" where
  "ctrl_is X s \<longleftrightarrow> ctrl s = X"

lemma ctrl_is_local [keeps_rules]: "local_inv (ctrl_is X)"
  by (simp add: local_inv_def ctrl_is_def)

lemma ctrl_is_frame [keeps_rules]:
  "keeps (ctrl_is X) (write_cs ck c)" "keeps (ctrl_is X) (write_cached_pod k p)"
  "keeps (ctrl_is X) (upd_pool g)"
  by (auto simp: ctrl_is_def write_cs_def write_cached_pod_def run_simps intro!: keepsI)

lemma ctrl_is_pool [keeps_rules]:
  "keeps (ctrl_is X) (worker_queue_Add key)" "keeps (ctrl_is X) (worker_queue_Remove key)"
  "keeps (ctrl_is X) (request_queue_Add req)" "keeps (ctrl_is X) send_match_signal"
  by (simp_all add: pool_queue_defs ctrl_is_frame)

lemma ctrl_is_lending [keeps_rules]:
  "keeps (ctrl_is X) (Back K p)" "keeps (ctrl_is X) (Borrow K req)"
  unfolding Back_def back_try_def deleteWorker_def Borrow_def borrow_try_def matchWorkerFor_def Let_def
  by (intro keeps_rules keeps_matchRequestFor)+

lemma ctrl_is_objects [keeps_rules]:
  "keeps (ctrl_is X) (update_cs K ck)" "keeps (ctrl_is X) (execCommand K ck cmd)"
  "keeps (ctrl_is X) (unbind_worker ck)" "keeps (ctrl_is X) (removeFinalizer K ck)"
  "keeps (ctrl_is X) (ensureCloudShell K ck)" "keeps (ctrl_is X) (status_send K ck st)"
  "keeps (ctrl_is X) (CreateOrUpdateService K svc)" "keeps (ctrl_is X) (nextRequeueTimeDuration K ck)"
  unfolding update_cs_def execCommand_def unbind_worker_def removeFinalizer_def ensureCloudShell_def
    status_send_def CreateOrUpdateService_def nextRequeueTimeDuration_def Let_def
  by (intro keeps_rules)+

lemma ctrl_is_status [keeps_rules]: "keeps (ctrl_is X) (UpdateCloudshellStatus K ck phase)"
  unfolding UpdateCloudshellStatus_def status_resend_def Let_def by (intro keeps_rules)

lemma ctrl_is_routes [keeps_rules]:
  "keeps (ctrl_is X) (CreateRouteRule K ck p)" "keeps (ctrl_is X) (removeCloudshellRoute K ck)"
  unfolding CreateRouteRule_def GetMasterNodeIP_def CreateCloudShellService_def
    CreateIngressForCloudshell_def CreateVirtualServiceForCloudshell_def removeCloudshellRoute_def Let_def
  by (intro keeps_rules)+

lemma ctrl_is_startup [keeps_rules]: "keeps (ctrl_is X) (StartupWorkerFor K ck)"
  unfolding StartupWorkerFor_def StartupWorker_def Let_def by (intro keeps_rules)

lemma ctrl_is_remove [keeps_rules]: "keeps (ctrl_is X) (removeCloudshell K ck)"
  unfolding removeCloudshell_def ResetWorker_def by (intro keeps_rules)

lemma ctrl_is_sync: "keeps (ctrl_is X) (syncHandler K key)"
  unfolding syncHandler_def syncCloudShell_def finish_expired_def release_unready_def acquire_worker_def
    mark_ready_def Let_def
  by (intro keeps_rules)

lemma syncHandler_ctrl: "run_state (syncHandler K key) s = (r, s') \<Longrightarrow> ctrl s' = ctrl s"
  using keepsD [OF ctrl_is_sync, of "ctrl s" s] by (simp add: ctrl_is_def)

lemma run_processNextItem:
  assumes "wq_Get (cqueue (ctrl s)) = (GetItem key, q1)"
    and "run_state (syncHandler K key) (s\<lparr>ctrl := (ctrl s)\<lparr>cqueue := q1\<rparr>\<rparr>) = (r, s1)"
    and "run_state (processNextItem K) s = (x, s')"
  shows "\<exists>now. cqueue (ctrl s') = wq_Done key
      (case r of
         Inl e \<Rightarrow> if is_panic e then q1
           else wq_AddRateLimited DefaultCloudShellBackOff MaxCloudShellBackOff now key q1
       | Inr None \<Rightarrow> q1
       | Inr (Some d) \<Rightarrow> wq_AddAfter now key d (wq_Forget key q1)) \<and>
    x = (case r of Inl e \<Rightarrow> if is_panic e then Err e else Ok (Some True) | Inr _ \<Rightarrow> Ok (Some True))"
proof -
  have c: "ctrl s1 = (ctrl s)\<lparr>cqueue := q1\<rparr>" using syncHandler_ctrl [OF assms(2)] by simp
  obtain now w where "timeNow K (cluster s1) = (now, w)" by fastforce
  then show ?thesis
    using assms c
    by (intro exI [of _ now])
      (auto simp: processNextItem_def upd_cqueue_def run_simps split: sum.splits option.splits)
qed

text \<open>A failed key waits for two to five seconds, or less if it was waiting already.\<close>

lemma rate_limited_waits:
  fixes q now key
  defines "q' \<equiv> wq_AddRateLimited DefaultCloudShellBackOff MaxCloudShellBackOff now key q"
  assumes "\<not> wshuttingDown q"
  shows "\<exists>t \<le> now + MaxCloudShellBackOff. (key, t) \<in> set (wwaiting q') \<and>
    (key \<notin> fst ` set (wwaiting q) \<longrightarrow> now + DefaultCloudShellBackOff \<le> t)"
proof -
  let ?d = "rl_delay DefaultCloudShellBackOff MaxCloudShellBackOff (wfailures q key)"
  have d: "2 * 10 ^ 9 \<le> ?d" "?d \<le> 5 * 10 ^ 9"
    using rl_delay_bounds [of DefaultCloudShellBackOff MaxCloudShellBackOff "wfailures q key"]
    by (simp_all add: DefaultCloudShellBackOff_def MaxCloudShellBackOff_def)
  have w: "wwaiting q' = wait_insert key (now + ?d) (wwaiting q)"
    using assms(2) d(1) by (simp add: q'_def wq_AddRateLimited_def wq_AddAfter_def)
  obtain u where "u \<le> now + ?d" "(key, u) \<in> set (wwaiting q')" "key \<notin> fst ` set (wwaiting q) \<longrightarrow> u = now + ?d"
    unfolding w using wait_insert_lower by blast
  then show ?thesis
    using d by (intro exI [of _ u]) (auto simp: DefaultCloudShellBackOff_def MaxCloudShellBackOff_def)
qed

lemma added_again:
  assumes "\<not> wshuttingDown q" "key \<in> wprocessing q"
  shows "if d \<le> 0 then key \<in> set (wqueue (wq_Done key (wq_AddAfter now key d (wq_Forget key q))))
    else \<exists>t \<le> now + d. (key, t) \<in> set (wwaiting (wq_AddAfter now key d (wq_Forget key q)))"
  using assms wait_insert_mem [of "now + d" key "wwaiting q"]
  by (auto simp: wq_AddAfter_def wq_Forget_def wq_Add_def wq_Done_def Let_def)


text \<open>A cloudshell whose secret is missing: its synchronisation fails and is repeated later.\<close>

definition failing_sys :: "mem sys" where
  "failing_sys = (bound_sys (bound_cs\<lparr>Spec := (Spec bound_cs)\<lparr>SecretRef := Some ''gone''\<rparr>\<rparr>))
     \<lparr>ctrl := sample_ctrl\<lparr>cqueue := wq_Add ''ns/a'' wq_new\<rparr>\<rparr>"

lemma sync_failing:
  "fst (run_state (syncHandler mem_kube ''ns/a'')
     (failing_sys\<lparr>ctrl := (ctrl failing_sys)\<lparr>cqueue := snd (wq_Get (cqueue (ctrl failing_sys)))\<rparr>\<rparr>)) = Err NotFound"
  by code_simp


end
