(* ===== verification/Spec2Isabelle.thy ===== *)
theory Spec2Isabelle
  imports Profiling Deep_Copy Fake_Client Scheme Lister Templates Release_Version Lifecycle_Running Queue_Locks Pool_Properties Pool_Machine Pool_Scaling Pool_Requests
    Controller_Sync Controller_Ensure Controller_Status Controller_Startup Controller_Removal
    Controller_Expiry Controller_Binding Controller_Queue
begin

text \<open>
  A verification of the cloudtty operator.

  cloudtty gives a user of Kubernetes a shell in the browser. A \<^emph>\<open>CloudShell\<close> resource asks
  for one; the operator lends it a pod from a pool of idle workers, starts \<open>ttyd\<close> in that
  pod, makes the pod reachable (service, ingress or Istio virtual service), publishes the
  address in the status, and takes everything back when the resource is deleted or has
  outlived its time.

  \<^bold>\<open>The parts and how they interact.\<close>
  The command (\<open>cmd/app\<close>) makes clients and informers from its options and starts the
  controller (\<open>pkg/controllers\<close>) and the worker pool (\<open>pkg/workerpool\<close>) in one process. Both
  have a client-go work queue that their informers fill. The controller takes the key of a
  cloudshell from its queue and synchronises that cloudshell; for a worker it calls \<open>Borrow\<close>
  of the pool, and \<open>Back\<close> when it is done. The pool files idle workers in \<open>workerQueue\<close> and
  requests that found none in \<open>requestQueue\<close> (both of \<open>queue.go\<close>). A request that has to
  wait signals the goroutine \<open>tryHandleRequestQueue\<close>, which creates workers and, when a
  worker for a request is there, puts the key of the waiting cloudshell into the
  controller's queue. The informers list and watch through the generated clientset, and
  hand out pointers into their caches; generated code copies objects.

  \<^bold>\<open>What models what.\<close>
  \<^item> \<open>Prelude\<close>: errors and panics, Go maps, programs over \<open>State_Monad\<close> with the rules for
    \<open>triple\<close> and \<open>keeps\<close>, and the locale \<open>ranked_steps\<close> of step relations that come to rest.
    \<open>GoStrings\<close>, \<open>GoEncoding\<close>, \<open>GoJSON\<close>: the parts of Go's \<open>strings\<close>, \<open>strconv\<close>, \<open>fmt\<close>,
    \<open>encoding/hex\<close>, \<open>encoding/base64\<close>, \<open>crypto/md5\<close>, \<open>unicode/utf8\<close> and \<open>encoding/json\<close> that the
    code uses, and \<open>MapToJSONString\<close>, \<open>JSONStringToMap\<close> of \<open>pkg/utils/util.go\<close>.
  \<^item> \<open>Api_Types\<close>: \<open>pkg/apis/cloudshell/v1alpha1\<close> (\<open>types.go\<close>, \<open>defaults.go\<close>), the fields of
    Kubernetes objects, \<open>pkg/constants\<close>, finalizers and owner references of
    controller-runtime. \<open>Deep_Copy\<close>: \<open>zz_generated.deepcopy.go\<close> over a heap of pointers, maps
    and slices. \<open>Manifests\<close>: the manifests of \<open>pkg/manifests\<close> as rendered text; \<open>Templates\<close>: the
    templates themselves, with \<open>ParseTemplate\<close> of \<open>pkg/utils/util.go\<close>.
  \<^item> \<open>Scheme\<close>: \<open>register.go\<close> and the registration in \<open>defaults.go\<close>, \<open>pkg/utils/gclient\<close> and the two
    \<open>register.go\<close> of the clientset, over \<open>runtime.Scheme\<close> of apimachinery.
  \<^item> \<open>Queue\<close>: \<open>pkg/workerpool/queue.go\<close>, as a refinement of a list without repetitions;
    \<open>Queue_Locks\<close>: its read-write lock as a step relation.
  \<^item> \<open>Worker_Key\<close>, \<open>Pod_Utils\<close>: the worker keys of \<open>worker_pool.go\<close> and \<open>pkg/utils/pod.go\<close>.
  \<^item> \<open>Work_Queue\<close>: the work queue of client-go with its delays and its rate limiter.
  \<^item> \<open>Kube\<close>: the state of the process and the interface to the cluster; \<open>Mem_Cluster\<close>: an
    in-memory cluster that implements the interface.
  \<^item> \<open>Worker_Pool\<close>: every method of \<open>pkg/workerpool/worker_pool.go\<close>. \<open>Pool_Invariant\<close>: the
    invariant each keeps; \<open>Pool_Lending\<close>, \<open>Pool_Properties\<close>: \<open>Borrow\<close> and \<open>Back\<close>;
    \<open>Pool_Requests\<close>: waiting requests, new workers and pod events; \<open>Pool_Scaling\<close>: scaling in;
    \<open>Pool_Machine\<close>: the goroutines, the callers, the informer and other clients as a step
    relation, and the invariant in all reachable states.
  \<^item> \<open>Controller_Utils\<close>, \<open>Ingress_Host\<close>, \<open>Routes\<close>: the pure functions of \<open>pkg/controllers\<close>
    (labels, host validation, route entries, node address). \<open>Controller\<close>: every function of
    \<open>cloudshell_controller.go\<close> that has an effect. \<open>Call_Trace\<close> reasons about the order of API
    calls; \<open>Controller_Sync\<close>, \<open>_Ensure\<close>, \<open>_Status\<close>, \<open>_Startup\<close>, \<open>_Removal\<close>, \<open>_Expiry\<close>, \<open>_Binding\<close>
    and \<open>_Queue\<close> hold the properties of the parts of a synchronisation.
  \<^item> \<open>Lifecycle\<close>: \<open>Run\<close>, \<open>run\<close>, \<open>worker\<close>, \<open>tryHandleRequestQueue\<close> and \<open>tryScaleInWorkerQueue\<close> of
    the pool, \<open>Run\<close> and \<open>worker\<close> of the controller: where each goroutine starts, waits and ends;
    \<open>Lifecycle_Running\<close>: what can happen before the stop.
  \<^item> \<open>Informers\<close>: \<open>pkg/generated/informers\<close>. \<open>Lister\<close>: \<open>pkg/generated/listers\<close> over the indexer of
    client-go that an informer fills. \<open>Rest_Client\<close>, \<open>Clientset\<close>: the requests of client-go's \<open>rest\<close> and the
    generated client (\<open>clientset.go\<close>, \<open>cloudshell_client.go\<close>, \<open>cloudshell.go\<close>). \<open>Fake_Client\<close>: the
    fake clientset.
  \<^item> \<open>Manager\<close>: options, validation, configuration, \<open>Run\<close> and \<open>StartControllers\<close> of \<open>cmd/app\<close>;
    \<open>Profiling\<close>: the paths that \<open>serveProfiling\<close> serves. \<open>Release_Version\<close>: \<open>pkg/version\<close>.
  This theory holds what spans the pool and the controller.

  \<^bold>\<open>State, effects, errors.\<close>
  The state of the process is the record \<open>'w sys\<close> of \<open>Kube\<close>; an operation is a program of
  the state monad over it that returns a value or an error (\<open>err + 'a\<close>). A panic is an error
  that nothing handles. A pointer that a lister returned is the cache key of the object, so
  that writing through it changes the cache, as in the code. A function runs without
  interruption by the informer: the step relations interleave whole functions, except for
  \<open>Queue_Locks\<close> and \<open>Lifecycle\<close>, whose steps are the points at which a goroutine can wait.
  Durations and times are integers in nanoseconds, reduced to 64 bits where the code
  multiplies (\<open>wrap64\<close>); binding counts are parsed with the bounds of 32 bits.

  \<^bold>\<open>Parameters.\<close>
  The API server, the clock, random names, the YAML decoder and \<open>sort.Slice\<close> are fields of
  \<open>'w kube\<close>. What is relied on is stated in the locales \<open>pod_writes\<close> and \<open>cloudshell_writes\<close>
  (a successful write answers with the object sent, but for the resource version and the status)
  and \<open>slice_sort\<close> (a sorted permutation, in no particular order of equal elements); they
  are interpreted on \<open>mem_kube\<close>. \<open>Queue\<close> implements the locale \<open>ordered_set\<close> for keys and for
  requests. The types that the packages of Kubernetes and Istio register are a parameter of
  \<open>Scheme\<close>, the indexer behind an informer one of \<open>Lister\<close>. The transport, codecs and discovery of the clientset, the reactors of the fake
  and the constructors of the clients in \<open>Manager\<close> are arguments without assumptions.

  \<^bold>\<open>What is shown.\<close>
  \<^item> Of a synchronisation: ready is only reported after the shell was started in the bound
    worker; a worker that is acquired is recorded and found again; on removal routes and
    worker are given back before the finalizer goes; an expired cloudshell is wound down;
    defaults are completed once; the status is sent with at most four tries; a failed key
    is repeated after a bounded time.
  \<^item> Of the pool: what \<open>Borrow\<close> and \<open>Back\<close> do in each case, that they undo each other, that
    waiting requests are served and never lost, how many and which workers scaling in
    deletes, and an invariant of all interleavings.
  \<^item> Of the data structures: the queue refines a list without repetitions and its locks do
    not deadlock, the work queue loses no item, keys, JSON, routes and label values are read
    back as they were written or stay in their bounds. The lister refines a map, with or
    without its index. The templates of the manifests render to the text used here.
  \<^item> Of the surroundings: one informer per resource, shared and run once; the options that
    are accepted; the requests that each method of the client sends; deep copies that are
    equal and independent; a scheme that defaults and names the types as the operator relies
    on; goroutines that can always finish an item before the stop and come to rest after it.
  \<^item> Where the code does not do what it means to, theorems exhibit it: a scale-in that
    panics, a lent worker that is filed again, a shutdown that hangs, a lifetime that wraps
    around, an image name that adds lines to the manifest of a pod.

  \<^bold>\<open>Loops and fuel.\<close>
  Loops over lists are structural recursions; \<open>RetryOnConflict\<close> counts its tries down (five
  for \<open>DefaultRetry\<close>, four for \<open>DefaultBackoff\<close>, as in client-go). \<open>split_from\<close>, the readers of
  \<open>GoJSON\<close>, \<open>number_groups\<close> and the lexer of \<open>Templates\<close> end because the rest of the string gets shorter. The only fuel is
  that of \<open>digits_fuel\<close>, an equivalent of \<open>string_of_nat\<close> for evaluation, which gets one unit
  more than the number; \<open>digits_fuel_enough\<close> shows that this is enough.

  \<^bold>\<open>Not modelled.\<close>
  What remains of the sources is of four kinds.
  \<^item> Libraries that the sources only call: logging and metrics, leader election, the parsing of
    flags (\<open>cobra\<close>, \<open>pflag\<close>) with \<open>main\<close> around it, the process behind \<open>kubectl exec\<close> (\<open>execPod\<close> is a
    field of \<open>'w kube\<close>), the listening socket of the profiling server, the converter and the
    codecs of the scheme, query strings, headers other than the content type, retries and
    throttling of the REST client. Of \<open>text/template\<close> there is what the manifests use; any
    other template gives \<open>NotModelled\<close>.
  \<^item> Text that depends on tables of other packages: \<open>ResourceSetting.String\<close> and \<open>Set\<close>, which are
    JSON of resource quantities, and \<open>Info.String\<close>, which quotes by the printable characters of
    Unicode, with the version subcommand that prints it.
  \<^item> Go interfaces, the accessors of the fake clientset and empty extension types, which have no
    behaviour.
  \<^item> The helpers of the end-to-end tests, which talk to a live cluster.
\<close>

section \<open>A waiting cloudshell is woken\<close>

text \<open>No pod of the cache is nameless.\<close>

definition named_pods :: "(nsname \<times> pod) list \<Rightarrow> bool" where
  "named_pods idx = list_all (\<lambda>(k, p). snd k \<noteq> '''') idx"

lemma filed_name:
  assumes "filed_ok s" "p_key \<in> set (All (workerQueue (pool s)))" "key_matches req p_key"
    and "named_pods (podIndexer s)"
  shows "matching_worker_name req (All (workerQueue (pool s))) \<noteq> '''' \<and>
    cached (rNamespace req, matching_worker_name req (All (workerQueue (pool s)))) s"
proof -
  let ?items = "All (workerQueue (pool s))"
  obtain item where item: "find (key_matches req) ?items = Some item"
    using assms(2,3) by (cases "find (key_matches req) ?items") (auto simp: find_None_iff)
  then have "item \<in> set ?items" "key_matches req item" by (auto simp: find_Some_iff)
  moreover from this obtain p where p: "map_of (podIndexer s) (nsname_of (pmeta p)) = Some p" "worker_ok p" "item = worker_key p"
    using assms(1) by (auto simp: filed_ok_def)
  ultimately have "matching_worker_name req ?items = Name (pmeta p)" "Namespace (pmeta p) = rNamespace req"
    using item split_worker_key [OF p(2)] by (auto simp: matching_worker_name_def key_matches_def)
  moreover have "Name (pmeta p) \<noteq> ''''" 
    using p(1) assms(4) by (auto simp: named_pods_def list_all_iff nsname_of_def dest!: map_of_SomeD)
  ultimately show ?thesis using p(1) by (auto simp: cached_def nsname_of_def)
qed

text \<open>The cluster has the cloudshell of a request, under its own name.\<close>

definition answers_for :: "'w kube \<Rightarrow> Request \<Rightarrow> bool" where
  "answers_for K req \<longleftrightarrow>
     (\<forall>w. \<exists>c. fst (getCloudShell K (rNamespace req, rCloudshell req) w) = Ok c \<and>
        nsname_of (cmeta c) = (rNamespace req, rCloudshell req))"

lemma served_key:
  assumes "served K req s" "answers_for K req" "\<not> wshuttingDown (cqueue (ctrl s))"
    "rNamespace req \<noteq> ''''" "CHR ''/'' \<notin> set (rNamespace req)" "CHR ''/'' \<notin> set (rCloudshell req)"
  shows "\<exists>key \<in> wdirty (cqueue (ctrl s)). SplitMetaNamespaceKey key = Ok (rNamespace req, rCloudshell req)"
proof -
  obtain w w' r where r: "getCloudShell K (rNamespace req, rCloudshell req) w = (r, w')"
    "case r of Inl e \<Rightarrow> IsNotFound e
       | Inr c \<Rightarrow> wshuttingDown (cqueue (ctrl s)) \<or> MetaNamespaceKey (cmeta c) \<in> wdirty (cqueue (ctrl s))"
    using assms(1) unfolding served_def by blast
  obtain c where c: "r = Ok c" "nsname_of (cmeta c) = (rNamespace req, rCloudshell req)"
    using assms(2) r(1) unfolding answers_for_def by (metis fst_conv)
  moreover have "SplitMetaNamespaceKey (MetaNamespaceKey (cmeta c)) = Ok (rNamespace req, rCloudshell req)"
    using c(2) assms(4-6) SplitMetaNamespaceKey_two [of "rNamespace req" "rCloudshell req"]
    by (simp add: MetaNamespaceKey_def nsname_of_def)
  ultimately show ?thesis using r(2) assms(3) by auto
qed

lemma keeps_shutdown_handle:
  "keeps (\<lambda>s. wshuttingDown (cqueue (ctrl s)) = b) (handle_request K req)"
proof (rule keepsI)
  fix s u s'
  assume "wshuttingDown (cqueue (ctrl s)) = b" "run_state (handle_request K req) s = (u, s')"
  with handle_request_effect [OF this(2)] show "wshuttingDown (cqueue (ctrl s')) = b"
    by (auto simp: wq_Add_mono)
qed

lemma handleRequestQueue_wakes:
  assumes "pool_inv res q s" "filed_ok s" "req \<in> set (All (requestQueue (pool s)))"
    and "p_key \<in> set (All (workerQueue (pool s)))" "key_matches req p_key" "named_pods (podIndexer s)"
    and "answers_for K req" "\<not> wshuttingDown (cqueue (ctrl s))"
    and "rNamespace req \<noteq> ''''" "CHR ''/'' \<notin> set (rNamespace req)" "CHR ''/'' \<notin> set (rCloudshell req)"
    and "run_state (handleRequestQueue K) s = (u, s')"
  shows "req \<notin> set (All (requestQueue (pool s'))) \<and>
    (\<exists>key \<in> wdirty (cqueue (ctrl s')). SplitMetaNamespaceKey key = Ok (rNamespace req, rCloudshell req))"
proof -
  let ?R = "queue (requestQueue (pool s))"
  have R: "set ?R \<subseteq> requests_of res q"
    using assms(1) by (auto simp: pool_inv_def pool_ok_def queue_inv_def)
  have run: "run_state (for_each (handle_request K) ?R) s = (u, s')"
    using assms(12) by (simp add: handleRequestQueue_def)
  have "case fst (getCloudShell K (rNamespace req, rCloudshell req) w) of
      Inl e \<Rightarrow> IsNotFound e | Inr _ \<Rightarrow> True" for w
    using assms(7) unfolding answers_for_def by (metis (no_types, lifting) old.sum.simps(6))
  then have "servable K req s"
    using filed_name [OF assms(2,4,5,6)] by (simp add: servable_def)
  then have gone: "req \<notin> set (queue (requestQueue (pool s')))"
    using for_each_handle_servable [OF assms(1) R run] assms(3) R by auto
  then have "served K req s'"
    using handleRequestQueue_none_lost [OF assms(1,12)] assms(3) by (auto simp: none_lost_def)
  moreover have "\<not> wshuttingDown (cqueue (ctrl s'))"
    using keepsD [OF keeps_for_each [OF keeps_shutdown_handle] refl run] assms(8) by simp
  ultimately show ?thesis
    using served_key [OF _ assms(7) _ assms(9-11)] gone by auto
qed


text \<open>A cluster in which every cloudshell exists.\<close>

definition wake_kube :: "mem kube" where
  "wake_kube = mem_kube\<lparr>getCloudShell := \<lambda>k w. (Ok (blank_cs (fst k) (snd k)), w)\<rparr>"


section \<open>A new worker is what the controller was configured for\<close>

text \<open>A call that stores a service labelled with the name of a worker.\<close>

definition stores_service :: "string \<Rightarrow> call \<Rightarrow> bool" where
  "stores_service worker c \<longleftrightarrow>
     (\<exists>svc. (c = CreateService svc \<or> c = UpdateService svc) \<and>
        gm_lookup (Labels (smeta svc)) WorkerOwnerLabelKey = Some worker)"

lemma SetControllerReference_labels:
  "SetControllerReference v k owner m = Ok m' \<Longrightarrow> Labels m' = Labels m"
  by (auto simp: SetControllerReference_def Let_def split: sum.splits option.splits if_splits)

lemma CreateOrUpdateService_calls:
  assumes "run_state (CreateOrUpdateService K svc) s = (r, s')"
    and "gm_lookup (Labels (smeta svc)) WorkerOwnerLabelKey = Some worker"
  shows "calls s' = calls s \<and> \<not> is_ok r \<or> (\<exists>c. calls s' = calls s @ [(c, is_ok r)] \<and> stores_service worker c)"
proof -
  have "stores_service worker (CreateService svc)"
    "stores_service worker (UpdateService (svc\<lparr>smeta := (smeta svc)\<lparr>ResourceVersion := rv\<rparr>\<rparr>))" for rv
    using assms(2) by (auto simp: stores_service_def)
  with assms(1) show ?thesis
    by (auto simp: CreateOrUpdateService_def run_simps Let_def split: sum.splits if_splits prod.splits)
qed

lemma CreateServiceFor_calls:
  assumes "run_state (CreateServiceFor K worker) s = (r, s')"
  shows "calls s' = calls s \<and> \<not> is_ok r \<or>
    (\<exists>c. calls s' = calls s @ [(c, is_ok r)] \<and> stores_service (Name (pmeta worker)) c)"
proof (cases "decodeService K (ServiceTmplV1 (Name (pmeta worker)) (Namespace (pmeta worker))
    (Name (pmeta worker)) ''ClusterIP'')")
  case (Inl e)
  with assms show ?thesis by (auto simp: CreateServiceFor_def)
next
  case (Inr svc)
  let ?m = "(smeta svc)\<lparr>Labels := Some [(WorkerOwnerLabelKey, Name (pmeta worker))]\<rparr>"
  show ?thesis
  proof (cases "SetControllerReference ''v1'' ''Pod'' (pmeta worker) ?m")
    case (Inl e)
    with assms Inr show ?thesis by (auto simp: CreateServiceFor_def Let_def)
  next
    case m: (Inr m')
    obtain r1 where "run_state (CreateOrUpdateService K (svc\<lparr>smeta := m'\<rparr>)) s = (r1, s')" "is_ok r1 = is_ok r"
      using assms Inr m by (auto simp: CreateServiceFor_def Let_def run_simps split: prod.splits sum.splits)
    moreover have "gm_lookup (Labels m') WorkerOwnerLabelKey = Some (Name (pmeta worker))"
      using SetControllerReference_labels [OF m] by (simp add: gm_lookup_def entries_def)
    ultimately show ?thesis
      using CreateOrUpdateService_calls [of K "svc\<lparr>smeta := m'\<rparr>" s r1 s'] by simp
  qed
qed

lemma PodTmplV1_cong: "gm_equal m n \<Longrightarrow> PodTmplV1 name ns img m rs = PodTmplV1 name ns img n rs"
  by (simp add: PodTmplV1_def sorted_entries_cong)

text \<open>A pod as the pool creates it: idle, with the finalizer, and marked with the request.\<close>

definition fresh_worker :: "string \<Rightarrow> pod \<Rightarrow> bool" where
  "fresh_worker cloudshell p \<longleftrightarrow>
     isIdleWorker p \<and> ControllerFinalizer \<in> set (Finalizers (pmeta p)) \<and>
     gm_lookup (Labels (pmeta p)) WorkerRequestLabelKey = Some cloudshell \<and>
     gm_lookup (Labels (pmeta p)) WorkerNameLabelKey = Some (Name (pmeta p))"

lemma created_then_service:
  assumes "createPod K p w = (a, w')" "t = s\<lparr>cluster := w', calls := calls s @ [(CreatePod p, is_ok a)]\<rparr>"
    and run: "(case a of Inl e \<Rightarrow> (Err e, t) | Inr x \<Rightarrow> run_state (CreateServiceFor K x) t) = (r, s')"
  shows "\<exists>ok D. calls s' = calls s @ (CreatePod p, ok) # D \<and>
    (if ok then D = [] \<and> \<not> is_ok r \<or> (\<exists>call w x w'. D = [(call, is_ok r)] \<and>
         createPod K p w = (Ok x, w') \<and> stores_service (Name (pmeta x)) call)
     else D = [] \<and> \<not> is_ok r)"
proof (cases a)
  case (Inl e)
  with run assms(2) show ?thesis by (intro exI [of _ False] exI [of _ "[]"]) auto
next
  case x: (Inr x)
  with run have "run_state (CreateServiceFor K x) t = (r, s')" by simp
  from CreateServiceFor_calls [OF this] x assms(1,2) show ?thesis
    by (intro exI [of _ True]) fastforce
qed

text \<open>
  Property C15. What the controller was configured for reaches a new worker. When the pool
  creates a worker for the request of a cloudshell, the manifest is the one rendered for the
  namespace and the image of the cloudshell, the node selector and the resources of the
  controller, although the node selector travels through the request as JSON. The first
  call creates the decoded pod, idle, with the pool's finalizer and marked with the
  cloudshell; if it succeeds at most one more call follows, which stores the service of the
  created pod, and the creation succeeds exactly if both calls did. The caches, the pool and the
  controller are not changed.
\<close>

theorem new_worker_as_configured:
  assumes "valid_map (nodeSelector c)" "MapToJSONString (nodeSelector c) = Ok sel"
    and "run_state (createWorker K (borrow_request c cs sel)) s = (r, s')"
  shows "(\<exists>suffix. case decodePod K (PodTmplV1 (''cloudshell-worker-'' @ suffix) (Namespace (cmeta cs))
        (Image (Spec cs)) (nodeSelector c) (map_option (deref K) (resources c))) of
      Inl e \<Rightarrow> r = Err e \<and> calls s' = calls s
    | Inr p \<Rightarrow> \<exists>p' ok D. calls s' = calls s @ (CreatePod p', ok) # D \<and> fresh_worker (Name (cmeta cs)) p' \<and>
        nsname_of (pmeta p') = nsname_of (pmeta p) \<and> Containers p' = Containers p \<and>
        (if ok then D = [] \<and> \<not> is_ok r \<or> (\<exists>call w x w'. D = [(call, is_ok r)] \<and>
             createPod K p' w = (Ok x, w') \<and> stores_service (Name (pmeta x)) call)
         else D = [] \<and> \<not> is_ok r)) \<and>
    pool s' = pool s \<and> ctrl s' = ctrl s \<and> podIndexer s' = podIndexer s \<and> csIndexer s' = csIndexer s"
proof -
  let ?req = "borrow_request c cs sel"
  obtain sel' where sel': "JSONStringToMap sel = Ok sel'" "gm_equal (nodeSelector c) sel'"
    using read_written_map [of "nodeSelector c"] assms(1,2) gm_equal_sorted_entries [of "nodeSelector c"]
    by (auto simp: valid_map_def list_all_iff)
  obtain suffix w where rand: "randString K 10 (cluster s) = (suffix, w)" by (metis surj_pair)
  let ?text = "\<lambda>m. PodTmplV1 (''cloudshell-worker-'' @ suffix) (Namespace (cmeta cs)) (Image (Spec cs)) m
    (map_option (deref K) (resources c))"
  have rendered: "?text sel' = ?text (nodeSelector c)" using PodTmplV1_cong [OF sel'(2)] by simp
  let ?same = "\<lambda>t. pool t = pool s \<and> ctrl t = ctrl s \<and> podIndexer t = podIndexer s \<and> csIndexer t = csIndexer s"
  have "local_inv ?same" by (simp add: local_inv_def)
  then have frame: "?same s'" by (rule keepsD [OF keeps_createWorker _ assms(3)]) simp
  show ?thesis
  proof (cases "decodePod K (?text (nodeSelector c))")
    case (Inl e)
    with assms(3) sel' rand rendered frame show ?thesis
      by (intro conjI exI [of _ suffix]) (auto simp: createWorker_def borrow_request_def run_simps)
  next
    case (Inr p)
    define p' where "p' = p\<lparr>pmeta := snd (AddFinalizer ControllerFinalizer ((pmeta p)\<lparr>Labels :=
      Some [(WorkerOwnerLabelKey, ''''), (WorkerRequestLabelKey, Name (cmeta cs)),
            (WorkerNameLabelKey, Name (pmeta p))]\<rparr>))\<rparr>"
    have p': "fresh_worker (Name (cmeta cs)) p'" "nsname_of (pmeta p') = nsname_of (pmeta p)" "Containers p' = Containers p"
      by (simp_all add: p'_def fresh_worker_def isIdleWorker_def AddFinalizer_eq gm_lookup_def entries_def
          nsname_of_def WorkerOwnerLabelKey_def WorkerRequestLabelKey_def WorkerNameLabelKey_def)
    obtain a w' where a: "createPod K p' w = (a, w')" by (metis surj_pair)
    let ?s1 = "s\<lparr>cluster := w', calls := calls s @ [(CreatePod p', is_ok a)]\<rparr>"
    have run: "(case a of Inl e \<Rightarrow> (Err e, ?s1) | Inr x \<Rightarrow> run_state (CreateServiceFor K x) ?s1) = (r, s')"
      using assms(3) sel' rand rendered Inr a
      by (simp add: createWorker_def borrow_request_def run_simps p'_def Let_def split: sum.splits)
    from created_then_service [OF a refl run] p' frame show ?thesis
      by (intro conjI exI [of _ suffix]; simp only: Inr sum.case) blast+
  qed
qed

definition selecting_ctrl :: Controller where
  "selecting_ctrl = sample_ctrl\<lparr>nodeSelector := Some [(''disk'', ''ssd''), (''arch'', ''arm'')]\<rparr>"

definition selecting_json :: string where
  "selecting_json = (case MapToJSONString (nodeSelector selecting_ctrl) of Inl _ \<Rightarrow> '''' | Inr j \<Rightarrow> j)"

theorem new_worker_as_configured_witness:
  "\<exists>p' ok D. calls (snd (run_state (createWorker (mem_kube\<lparr>decodePod := \<lambda>_. Ok zero_pod\<rparr>)
      (borrow_request selecting_ctrl new_cs selecting_json)) (empty_sys mem_empty))) = (CreatePod p', ok) # D \<and>
    fresh_worker ''a'' p' \<and> Containers p' = []"
proof -
  let ?K = "mem_kube\<lparr>decodePod := \<lambda>_. Ok zero_pod\<rparr>"
  have sel: "valid_map (nodeSelector selecting_ctrl)" by code_simp
  have json: "MapToJSONString (nodeSelector selecting_ctrl) = Ok selecting_json"
    by (simp add: selecting_json_def MapToJSONString_def)
  have decode: "decodePod ?K t = Ok zero_pod" for t by simp
  have "calls (empty_sys mem_empty) = []" "Name (cmeta new_cs) = ''a''" "Containers zero_pod = []"
    by (simp_all add: empty_sys_def new_cs_def bound_cs_def blank_meta_def zero_pod_def)
  with new_worker_as_configured [OF sel json prod.collapse [symmetric], of ?K new_cs "empty_sys mem_empty"]
  show ?thesis by (simp only: decode sum.case append_Nil) blast
qed

end
